theory Spec2Isabelle
  imports Complex_Main
begin

section \<open>Data model\<close>

text \<open>
  The notebooks work on numpy arrays of floats. A float is a finite real, an infinity or
  NaN. The arithmetic follows IEEE 754: the result of an operation on finite operands is
  the exact result rounded, and the rounding is a parameter \<open>rnd\<close> of every definition
  that computes, a function from the exact result to a float (it may give an infinity:
  overflow). The operations on infinities and NaN are fixed. Signed zeros and the bits
  of a NaN are not distinguished. A theorem that holds for every \<open>rnd\<close> holds for the
  rounding of binary64.

  A state vector \<open>X\<close> is a one-dimensional array of floats. The history buffer is
  created as \<^verbatim>\<open>np.zeros((n, len(X0))) * np.nan\<close>, a two-dimensional array whose cells all
  hold NaN, the marker of a cell that was never written, until a row is stored.
\<close>

datatype fl = Fin real | PInf | MInf | NaN

type_synonym rounding = "real \<Rightarrow> fl"
type_synonym vec = "fl list"
type_synonym hist = "fl list list"

fun fneg :: "fl \<Rightarrow> fl" where
  "fneg (Fin x) = Fin (- x)"
| "fneg PInf = MInf"
| "fneg MInf = PInf"
| "fneg NaN = NaN"

fun fabs :: "fl \<Rightarrow> fl" where
  "fabs (Fin x) = Fin \<bar>x\<bar>"
| "fabs PInf = PInf"
| "fabs MInf = PInf"
| "fabs NaN = NaN"

fun fadd :: "rounding \<Rightarrow> fl \<Rightarrow> fl \<Rightarrow> fl" where
  "fadd rnd (Fin x) (Fin y) = rnd (x + y)"
| "fadd rnd NaN b = NaN"
| "fadd rnd a NaN = NaN"
| "fadd rnd PInf MInf = NaN"
| "fadd rnd MInf PInf = NaN"
| "fadd rnd PInf b = PInf"
| "fadd rnd MInf b = MInf"
| "fadd rnd a PInf = PInf"
| "fadd rnd a MInf = MInf"

definition fsub :: "rounding \<Rightarrow> fl \<Rightarrow> fl \<Rightarrow> fl" where
  "fsub rnd a b = fadd rnd a (fneg b)"

text \<open>The sign of a float that is neither zero nor NaN: true when it is positive.\<close>

fun positive :: "fl \<Rightarrow> bool" where
  "positive (Fin x) = (0 < x)"
| "positive PInf = True"
| "positive MInf = False"
| "positive NaN = False"

fun fmul :: "rounding \<Rightarrow> fl \<Rightarrow> fl \<Rightarrow> fl" where
  "fmul rnd (Fin x) (Fin y) = rnd (x * y)"
| "fmul rnd NaN b = NaN"
| "fmul rnd a NaN = NaN"
| "fmul rnd (Fin x) b = (if x = 0 then NaN else if (0 < x) = positive b then PInf else MInf)"
| "fmul rnd a (Fin y) = (if y = 0 then NaN else if positive a = (0 < y) then PInf else MInf)"
| "fmul rnd a b = (if positive a = positive b then PInf else MInf)"

text \<open>Division by a positive finite constant \<open>c\<close>.\<close>

fun fdivc :: "rounding \<Rightarrow> fl \<Rightarrow> real \<Rightarrow> fl" where
  "fdivc rnd (Fin x) c = rnd (x / c)"
| "fdivc rnd a c = a"

text \<open>\<^verbatim>\<open>a > b\<close>: a comparison with NaN is false.\<close>

fun fgt :: "fl \<Rightarrow> fl \<Rightarrow> bool" where
  "fgt (Fin x) (Fin y) = (y < x)"
| "fgt NaN b = False"
| "fgt a NaN = False"
| "fgt PInf PInf = False"
| "fgt PInf b = True"
| "fgt MInf b = False"
| "fgt a MInf = True"
| "fgt a PInf = False"

text \<open>The maximum as numpy's \<^verbatim>\<open>max\<close> takes it: NaN as soon as one operand is NaN.\<close>

definition fmax :: "fl \<Rightarrow> fl \<Rightarrow> fl" where
  "fmax a b = (if a = NaN \<or> b = NaN then NaN else if fgt b a then b else a)"

text \<open>
  Binary64 without loss of precision: an exact result of magnitude \<open>2^1024\<close> or more
  overflows to an infinity, every other result is kept. It agrees with binary64 on the
  runs whose finite results are representable, and so does \<open>Fin\<close>, the rounding that
  keeps every result, on the runs that do not overflow either.
\<close>

definition round_overflow :: rounding where
  "round_overflow x =
     (if 2 ^ 1024 \<le> x then PInf else if x \<le> - (2 ^ 1024) then MInf else Fin x)"

datatype error = ValueError | IndexError | TypeError | RuntimeError

definition ebind :: "error + 'a \<Rightarrow> ('a \<Rightarrow> error + 'b) \<Rightarrow> error + 'b" where
  "ebind m f = (case m of Inl e \<Rightarrow> Inl e | Inr v \<Rightarrow> f v)"

section \<open>numpy operations used by the drivers\<close>

text \<open>\<^verbatim>\<open>c * X\<close> for a scalar \<open>c\<close>.\<close>

definition np_scale :: "rounding \<Rightarrow> fl \<Rightarrow> vec \<Rightarrow> vec" where
  "np_scale rnd c X = map (\<lambda>x. fmul rnd c x) X"

text \<open>
  \<^verbatim>\<open>a + b\<close> for two one-dimensional arrays, with numpy's broadcasting: equal lengths add
  entry by entry, a length-one operand is stretched, any other pair of shapes raises
  ValueError.
\<close>

definition np_add :: "rounding \<Rightarrow> vec \<Rightarrow> vec \<Rightarrow> error + vec" where
  "np_add rnd a b =
     (if length a = length b then Inr (map2 (fadd rnd) a b)
      else if length b = 1 then Inr (map (\<lambda>x. fadd rnd x (hd b)) a)
      else if length a = 1 then Inr (map (\<lambda>y. fadd rnd (hd a) y) b)
      else Inl ValueError)"

text \<open>
  \<^verbatim>\<open>np.polyval(p, x)\<close>: Horner's rule from an all-zero array of the shape of \<open>x\<close>,
  \<^verbatim>\<open>y = zeros_like(x); for pv in p: y = y * x + pv\<close>.
\<close>

definition np_polyval :: "rounding \<Rightarrow> fl list \<Rightarrow> vec \<Rightarrow> vec" where
  "np_polyval rnd p X =
     foldl (\<lambda>y pv. map2 (\<lambda>yi xi. fadd rnd (fmul rnd yi xi) pv) y X) (map (\<lambda>_. Fin 0) X) p"

text \<open>
  \<^verbatim>\<open>np.abs(X).max()\<close>: the maximum of an empty array raises ValueError, and the maximum
  of an array with a NaN entry is NaN.
\<close>

fun np_abs_max :: "vec \<Rightarrow> error + fl" where
  "np_abs_max [] = Inl ValueError"
| "np_abs_max (x # xs) = Inr (fold (\<lambda>y m. fmax m y) (map fabs xs) (fabs x))"

text \<open>
  \<^verbatim>\<open>hist[n] = X\<close>: the row index must exist (IndexError otherwise); \<open>X\<close> is broadcast
  into the row, so it must have the row's length or length one (ValueError otherwise).
\<close>

definition np_set_row :: "hist \<Rightarrow> nat \<Rightarrow> vec \<Rightarrow> error + hist" where
  "np_set_row h n X =
     (if length h \<le> n then Inl IndexError
      else if length X = length (h ! n) then Inr (h[n := X])
      else if length X = 1 then Inr (h[n := replicate (length (h ! n)) (hd X)])
      else Inl ValueError)"

text \<open>\<^verbatim>\<open>time[n] = t\<close>.\<close>

definition np_set_item :: "fl list \<Rightarrow> nat \<Rightarrow> fl \<Rightarrow> error + fl list" where
  "np_set_item ts n t = (if length ts \<le> n then Inl IndexError else Inr (ts[n := t]))"

text \<open>
  \<^verbatim>\<open>dt * np.arange(n)\<close> and \<^verbatim>\<open>np.zeros((n, k)) * np.nan\<close>. An integer index is converted
  to a float without rounding (it is below \<open>2^53\<close>).
\<close>

definition np_arange_scaled :: "rounding \<Rightarrow> fl \<Rightarrow> nat \<Rightarrow> fl list" where
  "np_arange_scaled rnd dt n = map (\<lambda>i. fmul rnd dt (Fin (real i))) [0..<n]"

definition np_nan_matrix :: "nat \<Rightarrow> nat \<Rightarrow> hist" where
  "np_nan_matrix n k = replicate n (replicate k NaN)"

section \<open>The slow tendency and the step schemes\<close>

text \<open>
  The notebooks import \<^verbatim>\<open>L96_eq1_xdot\<close>, \<^verbatim>\<open>EulerFwd\<close> and \<^verbatim>\<open>RK4\<close> from the module
  \<^verbatim>\<open>L96_model\<close>, which is not among the source files; the three are written from
  sections 4.1 and 4.4 of the spec.
\<close>

text \<open>The entry of \<open>X\<close> at index \<open>i\<close> modulo the length of \<open>X\<close> (the cyclic boundary).\<close>

definition cyc :: "vec \<Rightarrow> int \<Rightarrow> fl" where
  "cyc X i = X ! nat (i mod int (length X))"

text \<open>
  Modelled from the spec: \<^verbatim>\<open>L96_eq1_xdot\<close> of the missing module \<^verbatim>\<open>L96_model\<close>, the slow
  tendency without coupling. Section 4.1: entry \<open>k\<close> is
  \<open>-X[k-1] (X[k-2] - X[k+1]) - X[k] + F\<close>, indices taken modulo \<open>K\<close>.
\<close>

definition L96_eq1_xdot :: "rounding \<Rightarrow> vec \<Rightarrow> fl \<Rightarrow> vec" where
  "L96_eq1_xdot rnd X F =
     map (\<lambda>k. fadd rnd
                (fsub rnd
                   (fmul rnd (fneg (cyc X (int k - 1)))
                      (fsub rnd (cyc X (int k - 2)) (cyc X (int k + 1))))
                   (X ! k))
                F)
       [0..<length X]"

text \<open>
  A tendency function takes the state and one further argument; a step scheme takes
  the tendency function, the step size, the state and that further argument, which it
  hands to the tendency function: the drivers call
  \<^verbatim>\<open>self.time_stepping(self.rhs, dt, X, param)\<close> and \<^verbatim>\<open>rhs(self, X, _)\<close>.
\<close>

type_synonym 'p tendency = "vec \<Rightarrow> 'p \<Rightarrow> error + vec"
type_synonym 'p scheme = "'p tendency \<Rightarrow> fl \<Rightarrow> vec \<Rightarrow> 'p \<Rightarrow> error + vec"

text \<open>
  Modelled from the spec: \<^verbatim>\<open>EulerFwd\<close> of the missing module \<^verbatim>\<open>L96_model\<close>. Section 4.4,
  Euler: \<open>state + dt f(state)\<close>, one tendency evaluation per step.
\<close>

definition EulerFwd :: "rounding \<Rightarrow> 'p scheme" where
  "EulerFwd rnd fn dt X p = ebind (fn X p) (\<lambda>k1. np_add rnd X (np_scale rnd dt k1))"

text \<open>
  Modelled from the spec: \<^verbatim>\<open>RK4\<close> of the missing module \<^verbatim>\<open>L96_model\<close>. Section 4.4, RK4:
  four tendency evaluations per step with the classical weighted combination
  \<open>(k1 + 2 k2 + 2 k3 + k4) / 6\<close>; the stages are the classical ones, at \<open>X\<close>,
  \<open>X + dt/2 k1\<close>, \<open>X + dt/2 k2\<close> and \<open>X + dt k3\<close>.
\<close>

definition RK4 :: "rounding \<Rightarrow> 'p scheme" where
  "RK4 rnd fn dt X p =
     ebind (fn X p) (\<lambda>k1.
     ebind (np_add rnd X (np_scale rnd (fdivc rnd dt 2) k1)) (\<lambda>X2.
     ebind (fn X2 p) (\<lambda>k2.
     ebind (np_add rnd X (np_scale rnd (fdivc rnd dt 2) k2)) (\<lambda>X3.
     ebind (fn X3 p) (\<lambda>k3.
     ebind (np_add rnd X (np_scale rnd dt k3)) (\<lambda>X4.
     ebind (fn X4 p) (\<lambda>k4.
     ebind (np_add rnd k1 (np_scale rnd (Fin 2) k2)) (\<lambda>s1.
     ebind (np_add rnd s1 (np_scale rnd (Fin 2) k3)) (\<lambda>s2.
     ebind (np_add rnd s2 k4) (\<lambda>s3.
     np_add rnd X (np_scale rnd dt (map (\<lambda>s. fdivc rnd s 6) s3))))))))))))"

section \<open>The driver \<open>GCM\<close> of the notebook gcm-analogue\<close>

text \<open>
  \<^verbatim>\<open>
  def GCM(X0, F, dt, nt, param=[0]):
      time, hist, X = dt * np.arange(nt), np.zeros((nt, len(X0))) * np.nan, X0.copy()
      for n in range(nt):
          X = X + dt * (L96_eq1_xdot(X, F) - np.polyval(param, X))
          if np.abs(X).max() > 1e3:
              break
          hist[n], time[n] = X, dt * (n + 1)
      return hist, time
  \<close>
  The three arrays of the update have the shape of \<open>X\<close>, so the arithmetic is entry by
  entry.
\<close>

definition GCM_tendency :: "rounding \<Rightarrow> fl \<Rightarrow> fl list \<Rightarrow> vec \<Rightarrow> vec" where
  "GCM_tendency rnd F param X =
     map2 (fsub rnd) (L96_eq1_xdot rnd X F) (np_polyval rnd param X)"

definition GCM_step :: "rounding \<Rightarrow> fl \<Rightarrow> fl \<Rightarrow> fl list \<Rightarrow> vec \<Rightarrow> vec" where
  "GCM_step rnd F dt param X =
     map2 (\<lambda>x t. fadd rnd x (fmul rnd dt t)) X (GCM_tendency rnd F param X)"

fun GCM_loop ::
  "rounding \<Rightarrow> fl \<Rightarrow> fl \<Rightarrow> fl list \<Rightarrow> nat list \<Rightarrow> vec \<Rightarrow> hist \<Rightarrow> fl list
     \<Rightarrow> error + hist \<times> fl list"
where
  "GCM_loop rnd F dt param [] X h ts = Inr (h, ts)"
| "GCM_loop rnd F dt param (n # ns) X h ts =
     (let X' = GCM_step rnd F dt param X in
      case np_abs_max X' of
        Inl e \<Rightarrow> Inl e
      | Inr m \<Rightarrow>
          if fgt m (Fin 1000) then Inr (h, ts)
          else (case np_set_row h n X' of
                  Inl e \<Rightarrow> Inl e
                | Inr h' \<Rightarrow>
                    (case np_set_item ts n (fmul rnd dt (Fin (real n + 1))) of
                       Inl e \<Rightarrow> Inl e
                     | Inr ts' \<Rightarrow> GCM_loop rnd F dt param ns X' h' ts')))"

definition GCM ::
  "rounding \<Rightarrow> vec \<Rightarrow> fl \<Rightarrow> fl \<Rightarrow> nat \<Rightarrow> fl list \<Rightarrow> error + hist \<times> fl list" where
  "GCM rnd X0 F dt nt param =
     GCM_loop rnd F dt param [0..<nt] X0 (np_nan_matrix nt (length X0))
       (np_arange_scaled rnd dt nt)"

section \<open>The drivers of the notebook L96-online-implement-NN\<close>

text \<open>
  A torch module as \<open>rhs\<close> uses it. The test \<^verbatim>\<open>self.network.linear1.in_features == 1\<close>
  tells the two kinds of network of the notebook apart. A local network
  (\<^verbatim>\<open>LinearRegression\<close>, \<^verbatim>\<open>FCNN\<close>) has one input and one output feature: it is given
  the \<open>K \<times> 1\<close> tensor \<^verbatim>\<open>torch.unsqueeze(X_torch, 1)\<close> and maps each row, one entry of \<open>X\<close>,
  to one number. A non-local network (\<^verbatim>\<open>NonLocal_FCNN\<close>) is given the \<open>1 \<times> K\<close> tensor
  \<^verbatim>\<open>np.expand_dims(X, 0)\<close> and maps its one row to one row. Either may raise.
\<close>

datatype network = Local "fl \<Rightarrow> error + fl" | NonLocal "vec \<Rightarrow> error + vec"

text \<open>
  The two classes hold \<open>F\<close> and \<open>time_stepping\<close>; \<open>GCM_network\<close> holds a network
  as well, so its record extends the first.
\<close>

record 'p GCM_without_parameterization =
  self_F :: fl
  self_time_stepping :: "'p scheme"

record 'p GCM_network = "'p GCM_without_parameterization" +
  self_network :: network

text \<open>
  \<^verbatim>\<open>
  def rhs(self, X, _):
      return L96_eq1_xdot(X, self.F)
  \<close>
\<close>

definition GCM_without_parameterization_rhs ::
  "rounding \<Rightarrow> 'p GCM_without_parameterization \<Rightarrow> vec \<Rightarrow> 'p \<Rightarrow> error + vec" where
  "GCM_without_parameterization_rhs rnd self X _ = Inr (L96_eq1_xdot rnd X (self_F self))"

fun map_err :: "('a \<Rightarrow> error + 'b) \<Rightarrow> 'a list \<Rightarrow> error + 'b list" where
  "map_err f [] = Inr []"
| "map_err f (x # xs) =
     (case f x of
        Inl e \<Rightarrow> Inl e
      | Inr y \<Rightarrow> (case map_err f xs of Inl e \<Rightarrow> Inl e | Inr ys \<Rightarrow> Inr (y # ys)))"

text \<open>
  \<^verbatim>\<open>np.squeeze(self.network(X_torch).data.numpy())\<close>: \<^verbatim>\<open>np.squeeze\<close> drops the axes of
  length one, so the \<open>K \<times> 1\<close> output of a local network becomes the vector of its \<open>K\<close>
  entries and the \<open>1 \<times> M\<close> output of a non-local network the vector of its one row. A
  \<open>1 \<times> 1\<close> output becomes a scalar, which the sum below broadcasts as it does a vector
  of length one.
\<close>

definition network_output :: "network \<Rightarrow> vec \<Rightarrow> error + vec" where
  "network_output net X = (case net of Local f \<Rightarrow> map_err f X | NonLocal g \<Rightarrow> g X)"

text \<open>
  \<^verbatim>\<open>
  def rhs(self, X, _):
      if self.network.linear1.in_features == 1:
          X_torch = torch.from_numpy(X)
          X_torch = torch.unsqueeze(X_torch, 1)
      else:
          X_torch = torch.from_numpy(np.expand_dims(X, 0))
      # Adding NN parameterization
      return L96_eq1_xdot(X, self.F) + np.squeeze(self.network(X_torch).data.numpy())
  \<close>
\<close>

definition GCM_network_rhs :: "rounding \<Rightarrow> 'p GCM_network \<Rightarrow> vec \<Rightarrow> 'p \<Rightarrow> error + vec" where
  "GCM_network_rhs rnd self X _ =
     ebind (network_output (self_network self) X) (\<lambda>N.
       np_add rnd (L96_eq1_xdot rnd X (self_F self)) N)"

text \<open>A network to run the drivers on: a local network whose output is the constant \<open>c\<close>.\<close>

definition bias_network :: "fl \<Rightarrow> network" where
  "bias_network c = Local (\<lambda>_. Inr c)"

text \<open>
  Both classes have the same \<^verbatim>\<open>__call__\<close>:
  \<^verbatim>\<open>
  def __call__(self, X0, dt, nt, param=[0]):
      time, hist, X = (
          dt * np.arange(nt + 1),
          np.zeros((nt + 1, len(X0))) * np.nan,
          X0.copy(),
      )
      hist[0] = X
      for n in range(nt):
          X = self.time_stepping(self.rhs, dt, X, param)
          hist[n + 1], time[n + 1] = X, dt * (n + 1)
      return hist, time
  \<close>
  The loop is written once, over the step \<open>X \<mapsto> self.time_stepping(self.rhs, dt, X, param)\<close>.
\<close>

fun call_loop ::
  "rounding \<Rightarrow> (vec \<Rightarrow> error + vec) \<Rightarrow> fl \<Rightarrow> nat list \<Rightarrow> vec \<Rightarrow> hist \<Rightarrow> fl list
     \<Rightarrow> error + hist \<times> fl list"
where
  "call_loop rnd stp dt [] X h ts = Inr (h, ts)"
| "call_loop rnd stp dt (n # ns) X h ts =
     (case stp X of
        Inl e \<Rightarrow> Inl e
      | Inr X' \<Rightarrow>
          (case np_set_row h (n + 1) X' of
             Inl e \<Rightarrow> Inl e
           | Inr h' \<Rightarrow>
               (case np_set_item ts (n + 1) (fmul rnd dt (Fin (real n + 1))) of
                  Inl e \<Rightarrow> Inl e
                | Inr ts' \<Rightarrow> call_loop rnd stp dt ns X' h' ts')))"

definition call_body ::
  "rounding \<Rightarrow> (vec \<Rightarrow> error + vec) \<Rightarrow> vec \<Rightarrow> fl \<Rightarrow> nat \<Rightarrow> error + hist \<times> fl list" where
  "call_body rnd stp X0 dt nt =
     (case np_set_row (np_nan_matrix (nt + 1) (length X0)) 0 X0 of
        Inl e \<Rightarrow> Inl e
      | Inr h \<Rightarrow> call_loop rnd stp dt [0..<nt] X0 h (np_arange_scaled rnd dt (nt + 1)))"

definition GCM_without_parameterization_call ::
  "rounding \<Rightarrow> 'p GCM_without_parameterization \<Rightarrow> vec \<Rightarrow> fl \<Rightarrow> nat \<Rightarrow> 'p
     \<Rightarrow> error + hist \<times> fl list" where
  "GCM_without_parameterization_call rnd self X0 dt nt param =
     call_body rnd
       (\<lambda>X. self_time_stepping self (GCM_without_parameterization_rhs rnd self) dt X param)
       X0 dt nt"

definition GCM_network_call ::
  "rounding \<Rightarrow> 'p GCM_network \<Rightarrow> vec \<Rightarrow> fl \<Rightarrow> nat \<Rightarrow> 'p \<Rightarrow> error + hist \<times> fl list" where
  "GCM_network_call rnd self X0 dt nt param =
     call_body rnd (\<lambda>X. self_time_stepping self (GCM_network_rhs rnd self) dt X param)
       X0 dt nt"

section \<open>The trajectories the drivers follow\<close>

text \<open>
  The state after \<open>k\<close> updates of \<open>GCM\<close>, and the state after \<open>k\<close> calls of the step of
  the class drivers (a call may raise). The theorems describe the rows of a returned
  history by these states.
\<close>

text \<open>
  A component exceeds the threshold of the guard when its absolute value is greater than
  \<open>1e3\<close>. The test \<^verbatim>\<open>np.abs(X).max() > 1e3\<close> is true of the states that have no NaN
  component and a component that exceeds the threshold (lemma \<open>guard_trips_iff\<close>).
\<close>

definition exceeds :: "fl \<Rightarrow> bool" where
  "exceeds x = fgt (fabs x) (Fin 1000)"

definition guard_trips :: "vec \<Rightarrow> bool" where
  "guard_trips X = (NaN \<notin> set X \<and> (\<exists>x \<in> set X. exceeds x))"

definition GCM_state :: "rounding \<Rightarrow> fl \<Rightarrow> fl \<Rightarrow> fl list \<Rightarrow> vec \<Rightarrow> nat \<Rightarrow> vec" where
  "GCM_state rnd F dt param X k = (GCM_step rnd F dt param ^^ k) X"

fun call_state :: "(vec \<Rightarrow> error + vec) \<Rightarrow> vec \<Rightarrow> nat \<Rightarrow> error + vec" where
  "call_state stp X 0 = Inr X"
| "call_state stp X (Suc k) = (case stp X of Inl e \<Rightarrow> Inl e | Inr X' \<Rightarrow> call_state stp X' k)"

section \<open>The plain Euler update\<close>

text \<open>
  The update that a step of \<open>GCM\<close> is compared with: \<^verbatim>\<open>X + dt * L96_eq1_xdot(X, F)\<close>,
  with no closure term at all.
\<close>

definition Euler_update :: "rounding \<Rightarrow> fl \<Rightarrow> fl \<Rightarrow> vec \<Rightarrow> vec" where
  "Euler_update rnd F dt X = map2 (\<lambda>x t. fadd rnd x (fmul rnd dt t)) X (L96_eq1_xdot rnd X F)"

fun finite_fl :: "fl \<Rightarrow> bool" where
  "finite_fl (Fin x) = True"
| "finite_fl x = False"

text \<open>
  Two properties of a rounding to nearest, binary64 among them: zero is a float, and a
  result that is a float is not rounded again.
\<close>

definition idempotent_rounding :: "rounding \<Rightarrow> bool" where
  "idempotent_rounding rnd = (rnd 0 = Fin 0 \<and> (\<forall>x y. rnd x = Fin y \<longrightarrow> rnd y = Fin y))"

section \<open>The drivers on an explicit store\<close>

text \<open>
  The arrays of a run are objects that names refer to: \<open>X0\<close> is the caller's array,
  \<^verbatim>\<open>X0.copy()\<close> and every \<^verbatim>\<open>X = ...\<close> make a new array, and \<^verbatim>\<open>hist[n] = X\<close> and
  \<^verbatim>\<open>time[n] = t\<close> write into the buffers in place. The store is the list of the objects
  created so far, an address is an index into it, and a new object is appended. A name
  bound to anything but an array of the expected kind gives TypeError.
\<close>

datatype obj = Vec vec | Mat hist

type_synonym store = "obj list"

definition alloc :: "store \<Rightarrow> obj \<Rightarrow> nat \<times> store" where
  "alloc s ob = (length s, s @ [ob])"

definition get_vec :: "store \<Rightarrow> nat \<Rightarrow> error + vec" where
  "get_vec s a =
     (if a < length s then (case s ! a of Vec v \<Rightarrow> Inr v | Mat _ \<Rightarrow> Inl TypeError)
      else Inl TypeError)"

definition set_row_st :: "store \<Rightarrow> nat \<Rightarrow> nat \<Rightarrow> vec \<Rightarrow> error + store" where
  "set_row_st s h n X =
     (if h < length s
      then (case s ! h of
              Mat m \<Rightarrow> (case np_set_row m n X of Inl e \<Rightarrow> Inl e | Inr m' \<Rightarrow> Inr (s[h := Mat m']))
            | Vec _ \<Rightarrow> Inl TypeError)
      else Inl TypeError)"

definition set_item_st :: "store \<Rightarrow> nat \<Rightarrow> nat \<Rightarrow> fl \<Rightarrow> error + store" where
  "set_item_st s t n v =
     (if t < length s
      then (case s ! t of
              Vec ts \<Rightarrow> (case np_set_item ts n v of Inl e \<Rightarrow> Inl e | Inr ts' \<Rightarrow> Inr (s[t := Vec ts']))
            | Mat _ \<Rightarrow> Inl TypeError)
      else Inl TypeError)"

text \<open>
  \<open>GCM\<close> on the store: \<open>X0\<close> and \<open>param\<close> are addresses, the result is the pair of the
  addresses of \<open>hist\<close> and \<open>time\<close> with the final store.
\<close>

fun GCM_st_loop ::
  "rounding \<Rightarrow> fl \<Rightarrow> fl \<Rightarrow> nat \<Rightarrow> nat list \<Rightarrow> nat \<Rightarrow> nat \<Rightarrow> nat \<Rightarrow> store \<Rightarrow> error + store"
where
  "GCM_st_loop rnd F dt param [] X h t s = Inr s"
| "GCM_st_loop rnd F dt param (n # ns) X h t s =
     (case get_vec s X of
        Inl e \<Rightarrow> Inl e
      | Inr x \<Rightarrow>
     (case get_vec s param of
        Inl e \<Rightarrow> Inl e
      | Inr p \<Rightarrow>
     (case alloc s (Vec (GCM_step rnd F dt p x)) of (X', s1) \<Rightarrow>
     (case np_abs_max (GCM_step rnd F dt p x) of
        Inl e \<Rightarrow> Inl e
      | Inr m \<Rightarrow>
          if fgt m (Fin 1000) then Inr s1
          else (case set_row_st s1 h n (GCM_step rnd F dt p x) of
                  Inl e \<Rightarrow> Inl e
                | Inr s2 \<Rightarrow>
                    (case set_item_st s2 t n (fmul rnd dt (Fin (real n + 1))) of
                       Inl e \<Rightarrow> Inl e
                     | Inr s3 \<Rightarrow> GCM_st_loop rnd F dt param ns X' h t s3))))))"

definition GCM_st ::
  "rounding \<Rightarrow> nat \<Rightarrow> fl \<Rightarrow> fl \<Rightarrow> nat \<Rightarrow> nat \<Rightarrow> store \<Rightarrow> error + (nat \<times> nat) \<times> store" where
  "GCM_st rnd X0 F dt nt param s =
     (case alloc s (Vec (np_arange_scaled rnd dt nt)) of (t, s1) \<Rightarrow>
     (case get_vec s1 X0 of
        Inl e \<Rightarrow> Inl e
      | Inr x0 \<Rightarrow>
     (case alloc s1 (Mat (np_nan_matrix nt (length x0))) of (h, s2) \<Rightarrow>
     (case alloc s2 (Vec x0) of (X, s3) \<Rightarrow>
     (case GCM_st_loop rnd F dt param [0..<nt] X h t s3 of
        Inl e \<Rightarrow> Inl e
      | Inr s' \<Rightarrow> Inr ((h, t), s'))))))"

text \<open>
  The \<^verbatim>\<open>__call__\<close> of the two classes on the store. The step scheme and the network are
  functions of the values they are given (section 3 of the spec: the step scheme is a
  stateless pure transform, the closure a pure function); the array a step returns is a
  new object.
\<close>

fun call_st_loop ::
  "rounding \<Rightarrow> (vec \<Rightarrow> error + vec) \<Rightarrow> fl \<Rightarrow> nat list \<Rightarrow> nat \<Rightarrow> nat \<Rightarrow> nat \<Rightarrow> store
     \<Rightarrow> error + store"
where
  "call_st_loop rnd stp dt [] X h t s = Inr s"
| "call_st_loop rnd stp dt (n # ns) X h t s =
     (case get_vec s X of
        Inl e \<Rightarrow> Inl e
      | Inr x \<Rightarrow>
     (case stp x of
        Inl e \<Rightarrow> Inl e
      | Inr x' \<Rightarrow>
     (case alloc s (Vec x') of (X', s1) \<Rightarrow>
     (case set_row_st s1 h (n + 1) x' of
        Inl e \<Rightarrow> Inl e
      | Inr s2 \<Rightarrow>
          (case set_item_st s2 t (n + 1) (fmul rnd dt (Fin (real n + 1))) of
             Inl e \<Rightarrow> Inl e
           | Inr s3 \<Rightarrow> call_st_loop rnd stp dt ns X' h t s3)))))"

definition call_st_body ::
  "rounding \<Rightarrow> (vec \<Rightarrow> error + vec) \<Rightarrow> nat \<Rightarrow> fl \<Rightarrow> nat \<Rightarrow> store
     \<Rightarrow> error + (nat \<times> nat) \<times> store" where
  "call_st_body rnd stp X0 dt nt s =
     (case alloc s (Vec (np_arange_scaled rnd dt (nt + 1))) of (t, s1) \<Rightarrow>
     (case get_vec s1 X0 of
        Inl e \<Rightarrow> Inl e
      | Inr x0 \<Rightarrow>
     (case alloc s1 (Mat (np_nan_matrix (nt + 1) (length x0))) of (h, s2) \<Rightarrow>
     (case alloc s2 (Vec x0) of (X, s3) \<Rightarrow>
     (case get_vec s3 X of
        Inl e \<Rightarrow> Inl e
      | Inr x \<Rightarrow>
     (case set_row_st s3 h 0 x of
        Inl e \<Rightarrow> Inl e
      | Inr s4 \<Rightarrow>
     (case call_st_loop rnd stp dt [0..<nt] X h t s4 of
        Inl e \<Rightarrow> Inl e
      | Inr s' \<Rightarrow> Inr ((h, t), s'))))))))"

definition GCM_without_parameterization_call_st ::
  "rounding \<Rightarrow> 'p GCM_without_parameterization \<Rightarrow> nat \<Rightarrow> fl \<Rightarrow> nat \<Rightarrow> 'p \<Rightarrow> store
     \<Rightarrow> error + (nat \<times> nat) \<times> store" where
  "GCM_without_parameterization_call_st rnd self X0 dt nt param s =
     call_st_body rnd
       (\<lambda>X. self_time_stepping self (GCM_without_parameterization_rhs rnd self) dt X param)
       X0 dt nt s"

definition GCM_network_call_st ::
  "rounding \<Rightarrow> 'p GCM_network \<Rightarrow> nat \<Rightarrow> fl \<Rightarrow> nat \<Rightarrow> 'p \<Rightarrow> store
     \<Rightarrow> error + (nat \<times> nat) \<times> store" where
  "GCM_network_call_st rnd self X0 dt nt param s =
     call_st_body rnd (\<lambda>X. self_time_stepping self (GCM_network_rhs rnd self) dt X param)
       X0 dt nt s"

text \<open>What a caller finds in the two arrays a run returned.\<close>

definition returned :: "error + (nat \<times> nat) \<times> store \<Rightarrow> error + obj \<times> obj" where
  "returned r = (case r of Inl e \<Rightarrow> Inl e | Inr ((h, t), s') \<Rightarrow> Inr (s' ! h, s' ! t))"

section \<open>Shapes\<close>

lemma length_L96_eq1_xdot: "length (L96_eq1_xdot rnd X F) = length X"
  by (simp add: L96_eq1_xdot_def)

lemma length_foldl_horner:
  "length y = length X \<Longrightarrow>
   length (foldl (\<lambda>y pv. map2 (\<lambda>yi xi. fadd rnd (fmul rnd yi xi) pv) y X) y p) = length X"
  by (induction p arbitrary: y) simp_all

lemma length_np_polyval: "length (np_polyval rnd p X) = length X"
  by (simp add: np_polyval_def length_foldl_horner)

lemma length_GCM_tendency: "length (GCM_tendency rnd F param X) = length X"
  by (simp add: GCM_tendency_def length_L96_eq1_xdot length_np_polyval)

lemma length_GCM_step: "length (GCM_step rnd F dt param X) = length X"
  by (simp add: GCM_step_def length_GCM_tendency)

lemma length_GCM_state: "length (GCM_state rnd F dt param X k) = length X"
  by (induction k) (simp_all add: GCM_state_def length_GCM_step)

lemma GCM_state_Suc:
  "GCM_state rnd F dt param (GCM_step rnd F dt param X) k = GCM_state rnd F dt param X (Suc k)"
  by (simp add: GCM_state_def funpow_swap1)

lemma length_np_arange_scaled [simp]: "length (np_arange_scaled rnd dt n) = n"
  by (simp add: np_arange_scaled_def)

lemma nth_np_arange_scaled [simp]:
  "i < n \<Longrightarrow> np_arange_scaled rnd dt n ! i = fmul rnd dt (Fin (real i))"
  by (simp add: np_arange_scaled_def del: upt_Suc)

lemma length_np_nan_matrix [simp]: "length (np_nan_matrix n k) = n"
  by (simp add: np_nan_matrix_def)

lemma nth_np_nan_matrix [simp]: "i < n \<Longrightarrow> np_nan_matrix n k ! i = replicate k NaN"
  by (simp add: np_nan_matrix_def)

lemma rows_np_nan_matrix: "r \<in> set (np_nan_matrix n k) \<Longrightarrow> length r = k"
  by (auto simp: np_nan_matrix_def)

section \<open>The divergence guard\<close>

lemma fabs_NaN [simp]: "fabs x = NaN \<longleftrightarrow> x = NaN"
  by (cases x) simp_all

lemma fmax_NaN: "fmax a b = NaN \<longleftrightarrow> a = NaN \<or> b = NaN"
  by (auto simp: fmax_def)

lemma fgt_fmax:
  "a \<noteq> NaN \<Longrightarrow> b \<noteq> NaN \<Longrightarrow> fgt (fmax a b) (Fin c) \<longleftrightarrow> fgt a (Fin c) \<or> fgt b (Fin c)"
  by (cases a; cases b) (auto simp: fmax_def)

lemma fgt_NaN_left [simp]: "\<not> fgt NaN b"
  by (cases b) simp_all

lemma fgt_fold_fmax:
  "fgt (fold (\<lambda>y m. fmax m y) ys a) (Fin c)
     \<longleftrightarrow> (a \<noteq> NaN \<and> NaN \<notin> set ys) \<and> (fgt a (Fin c) \<or> (\<exists>y \<in> set ys. fgt y (Fin c)))"
proof (induction ys arbitrary: a)
  case Nil
  then show ?case by (cases "a = NaN") auto
next
  case (Cons y ys)
  show ?case
  proof (cases "a = NaN \<or> y = NaN")
    case True
    then have "fmax a y = NaN" by (simp add: fmax_NaN)
    then show ?thesis using True Cons.IH[of "fmax a y"] by auto
  next
    case False
    then have "fmax a y \<noteq> NaN" by (simp add: fmax_NaN)
    then show ?thesis using False Cons.IH[of "fmax a y"] fgt_fmax[of a y c] by auto
  qed
qed

lemma NaN_in_map_fabs: "NaN \<in> set (map fabs xs) \<longleftrightarrow> NaN \<in> set xs"
  by (induction xs) (auto simp: eq_commute[of NaN])

lemma guard_trips_iff:
  assumes "np_abs_max X = Inr m"
  shows "fgt m (Fin 1000) \<longleftrightarrow> guard_trips X"
proof (cases X)
  case Nil
  then show ?thesis using assms by simp
next
  case (Cons x xs)
  then have m: "m = fold (\<lambda>y m. fmax m y) (map fabs xs) (fabs x)" using assms by simp
  have "fgt m (Fin 1000)
      \<longleftrightarrow> (x \<noteq> NaN \<and> NaN \<notin> set xs)
          \<and> (fgt (fabs x) (Fin 1000) \<or> (\<exists>y \<in> set xs. fgt (fabs y) (Fin 1000)))"
    unfolding m fgt_fold_fmax NaN_in_map_fabs by simp
  then show ?thesis unfolding Cons guard_trips_def exceeds_def by auto
qed

lemma np_abs_max_nonempty: "X \<noteq> [] \<Longrightarrow> \<exists>m. np_abs_max X = Inr m"
  by (cases X) auto

lemma not_exceeds_finite:
  "x \<noteq> NaN \<Longrightarrow> \<not> exceeds x \<Longrightarrow> \<exists>v. x = Fin v \<and> \<bar>v\<bar> \<le> 1000"
  by (cases x) (auto simp: exceeds_def)

lemma not_trips_bounded:
  "NaN \<notin> set X \<Longrightarrow> \<not> guard_trips X \<Longrightarrow> x \<in> set X \<Longrightarrow> \<exists>v. x = Fin v \<and> \<bar>v\<bar> \<le> 1000"
proof -
  assume a: "NaN \<notin> set X" "\<not> guard_trips X" and x: "x \<in> set X"
  then have "x \<noteq> NaN" "\<not> exceeds x" by (auto simp: guard_trips_def)
  then show "\<exists>v. x = Fin v \<and> \<bar>v\<bar> \<le> 1000" by (rule not_exceeds_finite)
qed

section \<open>What the loop of \<open>GCM\<close> leaves in the buffers\<close>

lemma GCM_loop_char:
  assumes "X \<noteq> []" "n + k \<le> length h" "n + k \<le> length ts"
    and "\<forall>r \<in> set h. length r = length X"
  shows "\<exists>m h' ts'. m \<le> k \<and> GCM_loop rnd F dt param [n..<n + k] X h ts = Inr (h', ts')
      \<and> length h' = length h \<and> length ts' = length ts
      \<and> (\<forall>i<m. h' ! (n + i) = (GCM_state rnd F dt param X (Suc i))
                 \<and> ts' ! (n + i) = fmul rnd dt (Fin (real (n + i) + 1))
                 \<and> \<not> guard_trips (GCM_state rnd F dt param X (Suc i)))
      \<and> (\<forall>j. j < n \<or> n + m \<le> j \<longrightarrow> h' ! j = h ! j \<and> ts' ! j = ts ! j)
      \<and> (m < k \<longrightarrow> guard_trips (GCM_state rnd F dt param X (Suc m)))"
  using assms
proof (induction k arbitrary: n X h ts)
  case 0
  then show ?case by simp
next
  case (Suc k)
  define X' where "X' = GCM_step rnd F dt param X"
  have lenX': "length X' = length X" by (simp add: X'_def length_GCM_step)
  with Suc.prems have ne: "X' \<noteq> []" by auto
  then obtain M where M: "np_abs_max X' = Inr M" using np_abs_max_nonempty by blast
  have upt: "[n..<n + Suc k] = n # [Suc n..<Suc n + k]"
    by (simp add: upt_conv_Cons)
  have st1: "GCM_state rnd F dt param X (Suc 0) = X'" by (simp add: GCM_state_def X'_def)
  show ?case
  proof (cases "fgt M (Fin 1000)")
    case True
    then have "guard_trips (GCM_state rnd F dt param X (Suc 0))"
      unfolding st1 using guard_trips_iff[OF M] by simp
    moreover have "GCM_loop rnd F dt param [n..<n + Suc k] X h ts = Inr (h, ts)"
      unfolding upt using M True by (simp add: X'_def[symmetric] Let_def)
    ultimately show ?thesis
      by (intro exI[of _ 0] exI[of _ h] exI[of _ ts]) simp
  next
    case False
    then have bnd: "\<not> guard_trips X'" using guard_trips_iff[OF M] by simp
    define h1 where "h1 = h[n := X']"
    define ts1 where "ts1 = ts[n := fmul rnd dt (Fin (real n + 1))]"
    have nh: "n < length h" and nt: "n < length ts" using Suc.prems by auto
    have rown: "length (h ! n) = length X" using Suc.prems(4) nh by auto
    have sr: "np_set_row h n X' = Inr h1"
      using nh rown lenX' by (simp add: np_set_row_def h1_def)
    have si: "np_set_item ts n (fmul rnd dt (Fin (real n + 1))) = Inr ts1"
      using nt by (simp add: np_set_item_def ts1_def)
    have step: "GCM_loop rnd F dt param [n..<n + Suc k] X h ts
        = GCM_loop rnd F dt param [Suc n..<Suc n + k] X' h1 ts1"
      unfolding upt using M False sr si by (simp add: X'_def[symmetric] Let_def)
    have rows1: "\<forall>r \<in> set h1. length r = length X'"
      using Suc.prems(4) lenX' unfolding h1_def
      by (auto dest!: set_update_subset_insert[THEN subsetD])
    have "\<exists>m h' ts'. m \<le> k \<and> GCM_loop rnd F dt param [Suc n..<Suc n + k] X' h1 ts1 = Inr (h', ts')
      \<and> length h' = length h1 \<and> length ts' = length ts1
      \<and> (\<forall>i<m. h' ! (Suc n + i) = (GCM_state rnd F dt param X' (Suc i))
                 \<and> ts' ! (Suc n + i) = fmul rnd dt (Fin (real (Suc n + i) + 1))
                 \<and> \<not> guard_trips (GCM_state rnd F dt param X' (Suc i)))
      \<and> (\<forall>j. j < Suc n \<or> Suc n + m \<le> j \<longrightarrow> h' ! j = h1 ! j \<and> ts' ! j = ts1 ! j)
      \<and> (m < k \<longrightarrow> guard_trips (GCM_state rnd F dt param X' (Suc m)))"
      using Suc.prems ne rows1 by (intro Suc.IH) (simp_all add: h1_def ts1_def)
    then obtain m h' ts' where m: "m \<le> k"
      and run: "GCM_loop rnd F dt param [Suc n..<Suc n + k] X' h1 ts1 = Inr (h', ts')"
      and len: "length h' = length h1" "length ts' = length ts1"
      and filled: "\<And>i. i < m \<Longrightarrow> h' ! (Suc n + i) = (GCM_state rnd F dt param X' (Suc i))
                 \<and> ts' ! (Suc n + i) = fmul rnd dt (Fin (real (Suc n + i) + 1))
                 \<and> \<not> guard_trips (GCM_state rnd F dt param X' (Suc i))"
      and frame: "\<And>j. j < Suc n \<or> Suc n + m \<le> j \<Longrightarrow> h' ! j = h1 ! j \<and> ts' ! j = ts1 ! j"
      and trip: "m < k \<Longrightarrow> guard_trips (GCM_state rnd F dt param X' (Suc m))"
      by blast
    have sw: "\<And>i. GCM_state rnd F dt param X' i = GCM_state rnd F dt param X (Suc i)"
      unfolding X'_def by (rule GCM_state_Suc)
    have A: "\<forall>i<Suc m. h' ! (n + i) = (GCM_state rnd F dt param X (Suc i))
                 \<and> ts' ! (n + i) = fmul rnd dt (Fin (real (n + i) + 1))
                 \<and> \<not> guard_trips (GCM_state rnd F dt param X (Suc i))"
    proof (intro allI impI)
      fix i assume i: "i < Suc m"
      show "h' ! (n + i) = (GCM_state rnd F dt param X (Suc i))
                 \<and> ts' ! (n + i) = fmul rnd dt (Fin (real (n + i) + 1))
                 \<and> \<not> guard_trips (GCM_state rnd F dt param X (Suc i))"
      proof (cases i)
        case 0
        have "h' ! n = h1 ! n" "ts' ! n = ts1 ! n" using frame[of n] by auto
        then show ?thesis using 0 nh nt bnd st1 by (simp add: h1_def ts1_def)
      next
        case (Suc i')
        then have "i' < m" using i by simp
        from filled[OF this] show ?thesis unfolding sw Suc by simp
      qed
    qed
    have B: "\<forall>j. j < n \<or> n + Suc m \<le> j \<longrightarrow> h' ! j = h ! j \<and> ts' ! j = ts ! j"
    proof (intro allI impI)
      fix j assume j: "j < n \<or> n + Suc m \<le> j"
      then have "j \<noteq> n" by auto
      moreover have "h' ! j = h1 ! j \<and> ts' ! j = ts1 ! j" using frame[of j] j by auto
      ultimately show "h' ! j = h ! j \<and> ts' ! j = ts ! j" by (simp add: h1_def ts1_def)
    qed
    have C: "Suc m < Suc k \<longrightarrow> guard_trips (GCM_state rnd F dt param X (Suc (Suc m)))"
      using trip unfolding sw by simp
    show ?thesis
      apply (rule exI[of _ "Suc m"], rule exI[of _ h'], rule exI[of _ ts'])
      using m step run len A B C by (simp add: h1_def ts1_def)
  qed
qed

lemma GCM_char:
  assumes "X0 \<noteq> []"
  shows "\<exists>m h ts. m \<le> nt \<and> GCM rnd X0 F dt nt param = Inr (h, ts)
      \<and> length h = nt \<and> length ts = nt
      \<and> (\<forall>i<m. h ! i = (GCM_state rnd F dt param X0 (Suc i))
                 \<and> ts ! i = fmul rnd dt (Fin (real i + 1))
                 \<and> \<not> guard_trips (GCM_state rnd F dt param X0 (Suc i)))
      \<and> (\<forall>j. m \<le> j \<and> j < nt \<longrightarrow> h ! j = replicate (length X0) NaN \<and> ts ! j = fmul rnd dt (Fin (real j)))
      \<and> (m < nt \<longrightarrow> guard_trips (GCM_state rnd F dt param X0 (Suc m)))"
proof -
  let ?h = "np_nan_matrix nt (length X0)" and ?ts = "np_arange_scaled rnd dt nt"
  have "\<exists>m h' ts'. m \<le> nt \<and> GCM_loop rnd F dt param [0..<0 + nt] X0 ?h ?ts = Inr (h', ts')
      \<and> length h' = length ?h \<and> length ts' = length ?ts
      \<and> (\<forall>i<m. h' ! (0 + i) = (GCM_state rnd F dt param X0 (Suc i))
                 \<and> ts' ! (0 + i) = fmul rnd dt (Fin (real (0 + i) + 1))
                 \<and> \<not> guard_trips (GCM_state rnd F dt param X0 (Suc i)))
      \<and> (\<forall>j. j < 0 \<or> 0 + m \<le> j \<longrightarrow> h' ! j = ?h ! j \<and> ts' ! j = ?ts ! j)
      \<and> (m < nt \<longrightarrow> guard_trips (GCM_state rnd F dt param X0 (Suc m)))"
    using assms by (intro GCM_loop_char) (auto dest: rows_np_nan_matrix)
  then obtain m h' ts' where m: "m \<le> nt"
    and run: "GCM_loop rnd F dt param [0..<nt] X0 ?h ?ts = Inr (h', ts')"
    and len: "length h' = nt" "length ts' = nt"
    and filled: "\<forall>i<m. h' ! i = (GCM_state rnd F dt param X0 (Suc i))
                 \<and> ts' ! i = fmul rnd dt (Fin (real i + 1))
                 \<and> \<not> guard_trips (GCM_state rnd F dt param X0 (Suc i))"
    and frame: "\<And>j. m \<le> j \<Longrightarrow> h' ! j = ?h ! j \<and> ts' ! j = ?ts ! j"
    and trip: "m < nt \<longrightarrow> guard_trips (GCM_state rnd F dt param X0 (Suc m))"
    by auto
  have rest: "\<forall>j. m \<le> j \<and> j < nt \<longrightarrow> h' ! j = replicate (length X0) NaN \<and> ts' ! j = fmul rnd dt (Fin (real j))"
    using frame by auto
  show ?thesis
    apply (rule exI[of _ m], rule exI[of _ h'], rule exI[of _ ts'])
    using m run len filled rest trip by (simp add: GCM_def)
qed

lemma GCM_empty: "GCM rnd [] F dt (Suc nt) param = Inl ValueError"
  by (simp add: GCM_def upt_conv_Cons GCM_step_def del: upt_Suc)

lemma GCM_no_steps: "GCM rnd X0 F dt 0 param = Inr ([], [])"
  by (simp add: GCM_def np_nan_matrix_def np_arange_scaled_def)

lemma GCM_one_step_stored:
  assumes "GCM_step rnd F dt param X0 = X1" and "np_abs_max X1 = Inr m"
    and "\<not> fgt m (Fin 1000)" and "length X1 = length X0" and "fmul rnd dt (Fin 1) = t"
  shows "GCM rnd X0 F dt 1 param = Inr ([X1], [t])"
  using assms
  by (simp add: GCM_def np_nan_matrix_def np_arange_scaled_def np_set_row_def np_set_item_def)

section \<open>What the loop of the class drivers leaves in the buffers\<close>

lemma call_loop_char:
  assumes stp: "\<And>X. length X = K \<Longrightarrow> \<exists>Y. stp X = Inr Y \<and> length Y = K"
    and "length X = K" "n + k < length h" "n + k < length ts"
    and "\<forall>r \<in> set h. length r = K"
  shows "\<exists>h' ts'. call_loop rnd stp dt [n..<n + k] X h ts = Inr (h', ts')
      \<and> length h' = length h \<and> length ts' = length ts
      \<and> (\<forall>i<k. \<exists>Y. call_state stp X (Suc i) = Inr Y \<and> length Y = K
                 \<and> h' ! (Suc n + i) = Y
                 \<and> ts' ! (Suc n + i) = fmul rnd dt (Fin (real (n + i) + 1)))
      \<and> (\<forall>j. j \<le> n \<or> n + k < j \<longrightarrow> h' ! j = h ! j \<and> ts' ! j = ts ! j)"
  using assms(2-)
proof (induction k arbitrary: n X h ts)
  case 0
  then show ?case by simp
next
  case (Suc k)
  obtain X' where X': "stp X = Inr X'" and lenX': "length X' = K"
    using stp[OF Suc.prems(1)] by blast
  have upt: "[n..<n + Suc k] = n # [Suc n..<Suc n + k]"
    by (simp add: upt_conv_Cons)
  define h1 where "h1 = h[Suc n := X']"
  define ts1 where "ts1 = ts[Suc n := fmul rnd dt (Fin (real n + 1))]"
  have nh: "Suc n < length h" and nt: "Suc n < length ts" using Suc.prems by auto
  have rown: "length (h ! Suc n) = K" using Suc.prems(4) nh by auto
  have sr: "np_set_row h (Suc n) X' = Inr h1"
    using nh rown lenX' by (simp add: np_set_row_def h1_def)
  have si: "np_set_item ts (Suc n) (fmul rnd dt (Fin (real n + 1))) = Inr ts1"
    using nt by (simp add: np_set_item_def ts1_def)
  have step: "call_loop rnd stp dt [n..<n + Suc k] X h ts
      = call_loop rnd stp dt [Suc n..<Suc n + k] X' h1 ts1"
    unfolding upt using X' sr si by simp
  have rows1: "\<forall>r \<in> set h1. length r = K"
    using Suc.prems(4) lenX' unfolding h1_def
    by (auto dest!: set_update_subset_insert[THEN subsetD])
  have "\<exists>h' ts'. call_loop rnd stp dt [Suc n..<Suc n + k] X' h1 ts1 = Inr (h', ts')
      \<and> length h' = length h1 \<and> length ts' = length ts1
      \<and> (\<forall>i<k. \<exists>Y. call_state stp X' (Suc i) = Inr Y \<and> length Y = K
                 \<and> h' ! (Suc (Suc n) + i) = Y
                 \<and> ts' ! (Suc (Suc n) + i) = fmul rnd dt (Fin (real (Suc n + i) + 1)))
      \<and> (\<forall>j. j \<le> Suc n \<or> Suc n + k < j \<longrightarrow> h' ! j = h1 ! j \<and> ts' ! j = ts1 ! j)"
    using Suc.prems lenX' rows1 by (intro Suc.IH) (simp_all add: h1_def ts1_def)
  then obtain h' ts' where
        run: "call_loop rnd stp dt [Suc n..<Suc n + k] X' h1 ts1 = Inr (h', ts')"
    and len: "length h' = length h1" "length ts' = length ts1"
    and filled: "\<And>i. i < k \<Longrightarrow> \<exists>Y. call_state stp X' (Suc i) = Inr Y \<and> length Y = K
                 \<and> h' ! (Suc (Suc n) + i) = Y
                 \<and> ts' ! (Suc (Suc n) + i) = fmul rnd dt (Fin (real (Suc n + i) + 1))"
    and frame: "\<And>j. j \<le> Suc n \<or> Suc n + k < j \<Longrightarrow> h' ! j = h1 ! j \<and> ts' ! j = ts1 ! j"
    by blast
  have A: "\<forall>i<Suc k. \<exists>Y. call_state stp X (Suc i) = Inr Y \<and> length Y = K
                 \<and> h' ! (Suc n + i) = Y
                 \<and> ts' ! (Suc n + i) = fmul rnd dt (Fin (real (n + i) + 1))"
  proof (intro allI impI)
    fix i assume i: "i < Suc k"
    show "\<exists>Y. call_state stp X (Suc i) = Inr Y \<and> length Y = K
                 \<and> h' ! (Suc n + i) = Y
                 \<and> ts' ! (Suc n + i) = fmul rnd dt (Fin (real (n + i) + 1))"
    proof (cases i)
      case 0
      have "h' ! Suc n = h1 ! Suc n" "ts' ! Suc n = ts1 ! Suc n" using frame[of "Suc n"] by auto
      then show ?thesis using 0 nh nt X' lenX' by (simp add: h1_def ts1_def)
    next
      case (Suc i')
      then have "i' < k" using i by simp
      from filled[OF this] show ?thesis using X' unfolding Suc by (simp add: algebra_simps)
    qed
  qed
  have B: "\<forall>j. j \<le> n \<or> n + Suc k < j \<longrightarrow> h' ! j = h ! j \<and> ts' ! j = ts ! j"
  proof (intro allI impI)
    fix j assume j: "j \<le> n \<or> n + Suc k < j"
    then have "j \<noteq> Suc n" by auto
    moreover have "h' ! j = h1 ! j \<and> ts' ! j = ts1 ! j" using frame[of j] j by auto
    ultimately show "h' ! j = h ! j \<and> ts' ! j = ts ! j" by (simp add: h1_def ts1_def)
  qed
  show ?case
    apply (rule exI[of _ h'], rule exI[of _ ts'])
    using step run len A B by (simp add: h1_def ts1_def)
qed

lemma call_body_char:
  assumes stp: "\<And>X. length X = length X0 \<Longrightarrow> \<exists>Y. stp X = Inr Y \<and> length Y = length X0"
  shows "\<exists>h ts. call_body rnd stp X0 dt nt = Inr (h, ts)
      \<and> length h = nt + 1 \<and> length ts = nt + 1
      \<and> (\<forall>i\<le>nt. \<exists>Y. call_state stp X0 i = Inr Y \<and> length Y = length X0
                 \<and> h ! i = Y \<and> ts ! i = fmul rnd dt (Fin (real i)))"
proof -
  define h0 where "h0 = (np_nan_matrix (nt + 1) (length X0))[0 := X0]"
  let ?ts = "np_arange_scaled rnd dt (nt + 1)"
  have sr: "np_set_row (np_nan_matrix (nt + 1) (length X0)) 0 X0 = Inr h0"
    by (simp add: np_set_row_def h0_def)
  have rows: "\<forall>r \<in> set h0. length r = length X0"
    unfolding h0_def
    by (auto dest!: set_update_subset_insert[THEN subsetD] dest: rows_np_nan_matrix)
  have "\<exists>h' ts'. call_loop rnd stp dt [0..<0 + nt] X0 h0 ?ts = Inr (h', ts')
      \<and> length h' = length h0 \<and> length ts' = length ?ts
      \<and> (\<forall>i<nt. \<exists>Y. call_state stp X0 (Suc i) = Inr Y \<and> length Y = length X0
                 \<and> h' ! (Suc 0 + i) = Y
                 \<and> ts' ! (Suc 0 + i) = fmul rnd dt (Fin (real (0 + i) + 1)))
      \<and> (\<forall>j. j \<le> 0 \<or> 0 + nt < j \<longrightarrow> h' ! j = h0 ! j \<and> ts' ! j = ?ts ! j)"
    using rows by (intro call_loop_char[where K = "length X0"] stp)
      (simp_all add: h0_def)
  then obtain h' ts' where
        run: "call_loop rnd stp dt [0..<nt] X0 h0 ?ts = Inr (h', ts')"
    and len: "length h' = nt + 1" "length ts' = nt + 1"
    and filled: "\<And>i. i < nt \<Longrightarrow> \<exists>Y. call_state stp X0 (Suc i) = Inr Y \<and> length Y = length X0
                 \<and> h' ! Suc i = Y \<and> ts' ! Suc i = fmul rnd dt (Fin (real i + 1))"
    and frame: "h' ! 0 = h0 ! 0 \<and> ts' ! 0 = ?ts ! 0"
    by (auto simp: h0_def)
  have A: "\<forall>i\<le>nt. \<exists>Y. call_state stp X0 i = Inr Y \<and> length Y = length X0
                 \<and> h' ! i = Y \<and> ts' ! i = fmul rnd dt (Fin (real i))"
  proof (intro allI impI)
    fix i assume i: "i \<le> nt"
    show "\<exists>Y. call_state stp X0 i = Inr Y \<and> length Y = length X0
                 \<and> h' ! i = Y \<and> ts' ! i = fmul rnd dt (Fin (real i))"
    proof (cases i)
      case 0
      then show ?thesis using frame by (simp add: h0_def)
    next
      case (Suc i')
      then have "i' < nt" using i by simp
      from filled[OF this] show ?thesis unfolding Suc by (simp add: algebra_simps)
    qed
  qed
  show ?thesis
    apply (rule exI[of _ h'], rule exI[of _ ts'])
    using sr run len A by (simp add: call_body_def)
qed

section \<open>The step schemes\<close>

lemma np_add_same: "length a = length b \<Longrightarrow> np_add rnd a b = Inr (map2 (fadd rnd) a b)"
  by (simp add: np_add_def)

lemma length_np_scale [simp]: "length (np_scale rnd c X) = length X"
  by (simp add: np_scale_def)

lemma EulerFwd_keeps_shape:
  assumes "\<And>Z. \<exists>Y. fn Z p = Inr Y \<and> length Y = length Z"
  shows "\<exists>Y. EulerFwd rnd fn dt X p = Inr Y \<and> length Y = length X"
proof -
  obtain k1 where k1: "fn X p = Inr k1" "length k1 = length X" using assms by blast
  show ?thesis by (simp add: EulerFwd_def ebind_def k1 np_add_same)
qed

lemma RK4_keeps_shape:
  assumes "\<And>Z. \<exists>Y. fn Z p = Inr Y \<and> length Y = length Z"
  shows "\<exists>Y. RK4 rnd fn dt X p = Inr Y \<and> length Y = length X"
proof -
  obtain k1 where k1: "fn X p = Inr k1" "length k1 = length X" using assms by blast
  define X2 where "X2 = map2 (fadd rnd) X (np_scale rnd (fdivc rnd dt 2) k1)"
  have X2: "np_add rnd X (np_scale rnd (fdivc rnd dt 2) k1) = Inr X2" "length X2 = length X"
    by (simp_all add: X2_def np_add_same k1)
  obtain k2 where k2: "fn X2 p = Inr k2" "length k2 = length X" using assms X2(2) by metis
  define X3 where "X3 = map2 (fadd rnd) X (np_scale rnd (fdivc rnd dt 2) k2)"
  have X3: "np_add rnd X (np_scale rnd (fdivc rnd dt 2) k2) = Inr X3" "length X3 = length X"
    by (simp_all add: X3_def np_add_same k2)
  obtain k3 where k3: "fn X3 p = Inr k3" "length k3 = length X" using assms X3(2) by metis
  define X4 where "X4 = map2 (fadd rnd) X (np_scale rnd dt k3)"
  have X4: "np_add rnd X (np_scale rnd dt k3) = Inr X4" "length X4 = length X"
    by (simp_all add: X4_def np_add_same k3)
  obtain k4 where k4: "fn X4 p = Inr k4" "length k4 = length X" using assms X4(2) by metis
  show ?thesis
    by (simp add: RK4_def ebind_def k1 X2 k2 X3 k3 X4 k4 np_add_same)
qed

lemma rhs_keeps_shape:
  "\<exists>Y. GCM_without_parameterization_rhs rnd self Z p = Inr Y \<and> length Y = length Z"
  by (simp add: GCM_without_parameterization_rhs_def length_L96_eq1_xdot)

lemma RK4_forwards:
  "(\<forall>x. fn x p1 = fn x p2) \<Longrightarrow> RK4 rnd fn dt X p1 = RK4 rnd fn dt X p2"
  by (simp add: RK4_def)

lemma EulerFwd_forwards:
  "(\<forall>x. fn x p1 = fn x p2) \<Longrightarrow> EulerFwd rnd fn dt X p1 = EulerFwd rnd fn dt X p2"
  by (simp add: EulerFwd_def)

lemma map_err_const: "map_err (\<lambda>_. Inr c) X = Inr (replicate (length X) c)"
  by (induction X) simp_all

lemma bias_network_output: "network_output (bias_network c) X = Inr (replicate (length X) c)"
  by (simp add: network_output_def bias_network_def map_err_const)

lemma bias_network_rhs:
  "self_network self = bias_network c \<Longrightarrow>
   GCM_network_rhs rnd self X p
     = Inr (map (\<lambda>t. fadd rnd t c) (L96_eq1_xdot rnd X (self_F self)))"
proof -
  assume n: "self_network self = bias_network c"
  have "map2 (fadd rnd) (L96_eq1_xdot rnd X (self_F self)) (replicate (length X) c)
      = map (\<lambda>t. fadd rnd t c) (L96_eq1_xdot rnd X (self_F self))"
    by (rule nth_equalityI) (simp_all add: length_L96_eq1_xdot)
  then have "np_add rnd (L96_eq1_xdot rnd X (self_F self)) (replicate (length X) c)
      = Inr (map (\<lambda>t. fadd rnd t c) (L96_eq1_xdot rnd X (self_F self)))"
    by (simp add: np_add_same length_L96_eq1_xdot)
  then show ?thesis
    by (simp add: GCM_network_rhs_def n bias_network_output ebind_def)
qed

lemma bias_network_rhs_keeps_shape:
  "self_network self = bias_network c \<Longrightarrow>
   \<exists>Y. GCM_network_rhs rnd self Z p = Inr Y \<and> length Y = length Z"
  by (simp add: bias_network_rhs length_L96_eq1_xdot)

section \<open>Arithmetic without rounding\<close>

lemma fsub_Fin [simp]: "fsub Fin (Fin x) (Fin y) = Fin (x - y)"
  by (simp add: fsub_def)

lemma L96_eq1_xdot_single: "L96_eq1_xdot Fin [Fin x] (Fin F) = [Fin (F - x)]"
  by (simp add: L96_eq1_xdot_def cyc_def)

lemma np_add_single: "np_add rnd [a] [b] = Inr [fadd rnd a b]"
  by (simp add: np_add_def)

lemma np_scale_single: "np_scale rnd c [x] = [fmul rnd c x]"
  by (simp add: np_scale_def)

lemma rhs_single:
  "self_F self = Fin F \<Longrightarrow>
   GCM_without_parameterization_rhs Fin self [Fin x] p = Inr [Fin (F - x)]"
  by (simp add: GCM_without_parameterization_rhs_def L96_eq1_xdot_single)

lemma EulerFwd_single:
  "fn [Fin x] p = Inr [Fin k] \<Longrightarrow> EulerFwd Fin fn (Fin dt) [Fin x] p = Inr [Fin (x + dt * k)]"
  by (simp add: EulerFwd_def ebind_def np_add_single np_scale_single)

lemma EulerFwd_rhs_single:
  "self_F self = Fin F \<Longrightarrow>
   EulerFwd Fin (GCM_without_parameterization_rhs Fin self) (Fin dt) [Fin x] p
     = Inr [Fin (x + dt * (F - x))]"
  by (rule EulerFwd_single) (rule rhs_single)

lemma RK4_rhs_single:
  "self_F self = Fin F \<Longrightarrow>
   RK4 Fin (GCM_without_parameterization_rhs Fin self) (Fin dt) [Fin x] p =
     Inr [Fin (x + dt *
       (((F - x)
        + 2 * (F - (x + dt / 2 * (F - x)))
        + 2 * (F - (x + dt / 2 * (F - (x + dt / 2 * (F - x)))))
        + (F - (x + dt * (F - (x + dt / 2 * (F - (x + dt / 2 * (F - x)))))))) / 6))]"
  by (simp add: RK4_def ebind_def rhs_single np_add_single np_scale_single)

lemma GCM_step_single:
  "GCM_step Fin (Fin F) (Fin dt) [Fin c] [Fin x] = [Fin (x + dt * (F - x - c))]"
  by (simp add: GCM_step_def GCM_tendency_def L96_eq1_xdot_single np_polyval_def)

lemma bias_network_rhs_single:
  "self_network self = bias_network (Fin c) \<Longrightarrow> self_F self = Fin F \<Longrightarrow>
   GCM_network_rhs Fin self [Fin x] p = Inr [Fin (F - x + c)]"
  by (simp add: bias_network_rhs L96_eq1_xdot_single)

section \<open>The polynomial closure\<close>

lemma foldl_horner_map:
  "foldl (\<lambda>y pv. map2 (\<lambda>yi xi. fadd rnd (fmul rnd yi xi) pv) y X) (map f X) p
     = map (\<lambda>x. foldl (\<lambda>y pv. fadd rnd (fmul rnd y x) pv) (f x) p) X"
proof (induction p arbitrary: f)
  case Nil
  then show ?case by simp
next
  case (Cons pv p)
  have "map2 (\<lambda>yi xi. fadd rnd (fmul rnd yi xi) pv) (map f X) X
      = map (\<lambda>x. fadd rnd (fmul rnd (f x) x) pv) X"
    by (induction X) simp_all
  then show ?case using Cons.IH[of "\<lambda>x. fadd rnd (fmul rnd (f x) x) pv"] by simp
qed

lemma np_polyval_map:
  "np_polyval rnd p X = map (\<lambda>x. foldl (\<lambda>y pv. fadd rnd (fmul rnd y x) pv) (Fin 0) p) X"
  using foldl_horner_map[of rnd X "\<lambda>_. Fin 0" p] by (simp add: np_polyval_def)

lemma np_polyval_nth:
  "k < length X \<Longrightarrow>
   np_polyval rnd p X ! k = foldl (\<lambda>y pv. fadd rnd (fmul rnd y (X ! k)) pv) (Fin 0) p"
  by (simp add: np_polyval_map)



lemma L96_eq1_xdot_nth:
  "k < length X \<Longrightarrow>
   L96_eq1_xdot rnd X F ! k
     = fadd rnd
         (fsub rnd
            (fmul rnd (fneg (cyc X (int k - 1))) (fsub rnd (cyc X (int k - 2)) (cyc X (int k + 1))))
            (X ! k))
         F"
  by (simp add: L96_eq1_xdot_def del: upt_Suc)


lemma GCM_tendency_nth:
  "k < length X \<Longrightarrow>
   GCM_tendency rnd F param X ! k
     = fsub rnd (L96_eq1_xdot rnd X F ! k) (np_polyval rnd param X ! k)"
  by (simp add: GCM_tendency_def length_L96_eq1_xdot length_np_polyval)

lemma GCM_step_nth:
  "k < length X \<Longrightarrow>
   GCM_step rnd F dt param X ! k = fadd rnd (X ! k) (fmul rnd dt (GCM_tendency rnd F param X ! k))"
  by (simp add: GCM_step_def length_GCM_tendency)


section \<open>The default closure\<close>

lemma zero_closure_finite:
  "rnd 0 = Fin 0 \<Longrightarrow> fadd rnd (fmul rnd (Fin 0) (Fin v)) (Fin 0) = Fin 0"
  by simp

lemma zero_closure_non_finite:
  "\<forall>v. x \<noteq> Fin v \<Longrightarrow> fadd rnd (fmul rnd (Fin 0) x) (Fin 0) = NaN"
  by (cases x) simp_all

lemma fadd_zero_result:
  assumes "\<forall>x y. rnd x = Fin y \<longrightarrow> rnd y = Fin y"
  shows "fsub rnd (fadd rnd a b) (Fin 0) = fadd rnd a b"
proof (cases "fadd rnd a b")
  case (Fin l)
  then have "\<exists>x. rnd x = Fin l" by (cases a; cases b) auto
  then have "rnd l = Fin l" using assms by blast
  then show ?thesis using Fin by (simp add: fsub_def)
qed (simp_all add: fsub_def)

lemma fsub_NaN: "fsub rnd a NaN = NaN"
  by (cases a) (simp_all add: fsub_def)

lemma fmul_NaN_right: "fmul rnd a NaN = NaN"
  by (cases a) simp_all

lemma fadd_NaN_right: "fadd rnd a NaN = NaN"
  by (cases a) simp_all

lemma euler_entry_non_finite:
  assumes "\<forall>v. x \<noteq> Fin v" and "\<not> fgt (Fin 0) dt"
  shows "fadd rnd x (fmul rnd dt (fadd rnd (fsub rnd A x) F)) = NaN"
  using assms
  by (cases x; cases A; cases F; cases dt) (simp_all add: fsub_def)

lemma np_polyval_zero_nth:
  "k < length X \<Longrightarrow>
   np_polyval rnd [Fin 0] X ! k = fadd rnd (fmul rnd (Fin 0) (X ! k)) (Fin 0)"
  by (simp add: np_polyval_nth)

lemma GCM_tendency_zero_nth:
  assumes "rnd 0 = Fin 0" and "\<forall>x y. rnd x = Fin y \<longrightarrow> rnd y = Fin y" and "k < length X"
  shows "GCM_tendency rnd F [Fin 0] X ! k
     = (if \<exists>v. X ! k = Fin v then L96_eq1_xdot rnd X F ! k else NaN)"
proof (cases "\<exists>v. X ! k = Fin v")
  case True
  then obtain v where v: "X ! k = Fin v" by blast
  have "np_polyval rnd [Fin 0] X ! k = Fin 0"
    using assms(1,3) v by (simp add: np_polyval_zero_nth)
  then show ?thesis
    using True assms(3) fadd_zero_result[OF assms(2)]
    by (simp add: GCM_tendency_nth L96_eq1_xdot_nth)
next
  case False
  then have "np_polyval rnd [Fin 0] X ! k = NaN"
    using assms(3) zero_closure_non_finite[of "X ! k" rnd] by (simp add: np_polyval_zero_nth)
  then show ?thesis using False assms(3) by (simp add: GCM_tendency_nth fsub_NaN)
qed

lemma GCM_step_zero:
  assumes "rnd 0 = Fin 0" and "\<forall>x y. rnd x = Fin y \<longrightarrow> rnd y = Fin y"
    and "\<not> fgt (Fin 0) dt \<or> (\<forall>x \<in> set X. \<exists>v. x = Fin v)"
  shows "GCM_step rnd F dt [Fin 0] X
     = map2 (\<lambda>x t. fadd rnd x (fmul rnd dt t)) X (L96_eq1_xdot rnd X F)"
proof (rule nth_equalityI)
  show "length (GCM_step rnd F dt [Fin 0] X)
      = length (map2 (\<lambda>x t. fadd rnd x (fmul rnd dt t)) X (L96_eq1_xdot rnd X F))"
    by (simp add: length_GCM_step length_L96_eq1_xdot)
next
  fix k assume "k < length (GCM_step rnd F dt [Fin 0] X)"
  then have k: "k < length X" by (simp add: length_GCM_step)
  show "GCM_step rnd F dt [Fin 0] X ! k
      = map2 (\<lambda>x t. fadd rnd x (fmul rnd dt t)) X (L96_eq1_xdot rnd X F) ! k"
  proof (cases "\<exists>v. X ! k = Fin v")
    case True
    then show ?thesis
      using k GCM_tendency_zero_nth[OF assms(1,2) k, of F]
      by (simp add: GCM_step_nth length_L96_eq1_xdot)
  next
    case False
    then have nf: "\<forall>v. X ! k \<noteq> Fin v" by blast
    have "X ! k \<in> set X" using k by simp
    then have dt: "\<not> fgt (Fin 0) dt" using assms(3) False by blast
    have "GCM_step rnd F dt [Fin 0] X ! k = NaN"
      using k False GCM_tendency_zero_nth[OF assms(1,2) k, of F]
      by (simp add: GCM_step_nth fmul_NaN_right fadd_NaN_right)
    moreover have "map2 (\<lambda>x t. fadd rnd x (fmul rnd dt t)) X (L96_eq1_xdot rnd X F) ! k = NaN"
      using k euler_entry_non_finite[OF nf dt]
      by (simp add: length_L96_eq1_xdot L96_eq1_xdot_nth)
    ultimately show ?thesis by simp
  qed
qed

lemma finite_fl_iff: "finite_fl x \<longleftrightarrow> (\<exists>v. x = Fin v)"
  by (cases x) simp_all

lemma GCM_step_zero_Euler:
  assumes "idempotent_rounding rnd" and "\<not> fgt (Fin 0) dt \<or> list_all finite_fl X"
  shows "GCM_step rnd F dt [Fin 0] X = Euler_update rnd F dt X"
  unfolding Euler_update_def
  using assms by (intro GCM_step_zero) (auto simp: idempotent_rounding_def list_all_iff finite_fl_iff)

lemma GCM_state_zero:
  assumes "idempotent_rounding rnd"
    and "\<not> fgt (Fin 0) dt \<or> (\<forall>i<nt. list_all finite_fl ((Euler_update rnd F dt ^^ i) X0))"
    and "k \<le> nt"
  shows "GCM_state rnd F dt [Fin 0] X0 k = (Euler_update rnd F dt ^^ k) X0"
  using assms(3)
proof (induction k)
  case 0
  then show ?case by (simp add: GCM_state_def)
next
  case (Suc k)
  then have IH: "GCM_state rnd F dt [Fin 0] X0 k = (Euler_update rnd F dt ^^ k) X0" by simp
  have "\<not> fgt (Fin 0) dt \<or> list_all finite_fl ((Euler_update rnd F dt ^^ k) X0)"
    using assms(2) Suc.prems by auto
  from GCM_step_zero_Euler[OF assms(1) this, of F]
  show ?case using IH by (simp add: GCM_state_def)
qed

section \<open>The store\<close>

lemma get_vec_iff: "get_vec s a = Inr v \<longleftrightarrow> a < length s \<and> s ! a = Vec v"
  by (auto simp: get_vec_def split: obj.splits)

lemma set_row_st_Mat:
  "h < length s \<Longrightarrow> s ! h = Mat m \<Longrightarrow>
   set_row_st s h n X =
     (case np_set_row m n X of Inl e \<Rightarrow> Inl e | Inr m' \<Rightarrow> Inr (s[h := Mat m']))"
  by (simp add: set_row_st_def)

lemma set_item_st_Vec:
  "t < length s \<Longrightarrow> s ! t = Vec ts \<Longrightarrow>
   set_item_st s t n v =
     (case np_set_item ts n v of Inl e \<Rightarrow> Inl e | Inr ts' \<Rightarrow> Inr (s[t := Vec ts']))"
  by (simp add: set_item_st_def)

lemma set_row_st_frame:
  "set_row_st s h n X = Inr s' \<Longrightarrow> length s' = length s \<and> (\<forall>a. a \<noteq> h \<longrightarrow> s' ! a = s ! a)"
  by (auto simp: set_row_st_def split: if_splits obj.splits sum.splits)

lemma set_item_st_frame:
  "set_item_st s t n v = Inr s' \<Longrightarrow> length s' = length s \<and> (\<forall>a. a \<noteq> t \<longrightarrow> s' ! a = s ! a)"
  by (auto simp: set_item_st_def split: if_splits obj.splits sum.splits)

lemma GCM_st_loop_frame:
  "GCM_st_loop rnd F dt param ns X h t s = Inr s' \<Longrightarrow>
   length s \<le> length s' \<and> (\<forall>a<length s. a \<noteq> h \<longrightarrow> a \<noteq> t \<longrightarrow> s' ! a = s ! a)"
proof (induction ns arbitrary: X s)
  case Nil
  then show ?case by simp
next
  case (Cons n ns)
  from Cons.prems obtain x p where x: "get_vec s X = Inr x" and p: "get_vec s param = Inr p"
    by (auto split: sum.splits)
  define x' where "x' = GCM_step rnd F dt p x"
  define s1 where "s1 = s @ [Vec x']"
  from Cons.prems x p obtain m where m: "np_abs_max x' = Inr m"
    by (auto simp: x'_def alloc_def split: sum.splits)
  show ?case
  proof (cases "fgt m (Fin 1000)")
    case True
    then have "s' = s1" using Cons.prems x p m by (simp add: x'_def s1_def alloc_def)
    then show ?thesis by (simp add: s1_def nth_append)
  next
    case False
    from Cons.prems x p m False obtain s2 s3 where
      s2: "set_row_st s1 h n x' = Inr s2"
      and s3: "set_item_st s2 t n (fmul rnd dt (Fin (real n + 1))) = Inr s3"
      and rest: "GCM_st_loop rnd F dt param ns (length s) h t s3 = Inr s'"
      by (auto simp: x'_def s1_def alloc_def split: sum.splits)
    have l: "length s3 = Suc (length s)"
      using set_row_st_frame[OF s2] set_item_st_frame[OF s3] by (simp add: s1_def)
    have f3: "\<forall>a<length s. a \<noteq> h \<longrightarrow> a \<noteq> t \<longrightarrow> s3 ! a = s ! a"
      using set_row_st_frame[OF s2] set_item_st_frame[OF s3] by (simp add: s1_def nth_append)
    from Cons.IH[OF rest] have "length s3 \<le> length s'"
      and "\<forall>a<length s3. a \<noteq> h \<longrightarrow> a \<noteq> t \<longrightarrow> s' ! a = s3 ! a" by auto
    then show ?thesis using l f3 by auto
  qed
qed

lemma call_st_loop_frame:
  "call_st_loop rnd stp dt ns X h t s = Inr s' \<Longrightarrow>
   length s \<le> length s' \<and> (\<forall>a<length s. a \<noteq> h \<longrightarrow> a \<noteq> t \<longrightarrow> s' ! a = s ! a)"
proof (induction ns arbitrary: X s)
  case Nil
  then show ?case by simp
next
  case (Cons n ns)
  from Cons.prems obtain x x' where x: "get_vec s X = Inr x" and x': "stp x = Inr x'"
    by (auto split: sum.splits)
  define s1 where "s1 = s @ [Vec x']"
  from Cons.prems x x' obtain s2 s3 where
    s2: "set_row_st s1 h (n + 1) x' = Inr s2"
    and s3: "set_item_st s2 t (n + 1) (fmul rnd dt (Fin (real n + 1))) = Inr s3"
    and rest: "call_st_loop rnd stp dt ns (length s) h t s3 = Inr s'"
    by (auto simp: s1_def alloc_def split: sum.splits)
  have l: "length s3 = Suc (length s)"
    using set_row_st_frame[OF s2] set_item_st_frame[OF s3] by (simp add: s1_def)
  have f3: "\<forall>a<length s. a \<noteq> h \<longrightarrow> a \<noteq> t \<longrightarrow> s3 ! a = s ! a"
    using set_row_st_frame[OF s2] set_item_st_frame[OF s3] by (simp add: s1_def nth_append)
  from Cons.IH[OF rest] have "length s3 \<le> length s'"
    and "\<forall>a<length s3. a \<noteq> h \<longrightarrow> a \<noteq> t \<longrightarrow> s' ! a = s3 ! a" by auto
  then show ?case using l f3 by auto
qed

lemma GCM_st_frame:
  assumes "GCM_st rnd X0 F dt nt param s = Inr ((h, t), s')"
  shows "t = length s \<and> h = Suc (length s) \<and> Suc (Suc (Suc (length s))) \<le> length s'
       \<and> (\<forall>a<length s. s' ! a = s ! a)
       \<and> (\<exists>x0. get_vec (s @ [Vec (np_arange_scaled rnd dt nt)]) X0 = Inr x0
               \<and> s' ! Suc (Suc (length s)) = Vec x0)"
proof -
  let ?s1 = "s @ [Vec (np_arange_scaled rnd dt nt)]"
  from assms obtain x0 where x0: "get_vec ?s1 X0 = Inr x0"
    by (auto simp: GCM_st_def alloc_def split: sum.splits)
  let ?s3 = "?s1 @ [Mat (np_nan_matrix nt (length x0))] @ [Vec x0]"
  from assms x0 have ht: "t = length s" "h = Suc (length s)"
    and run: "GCM_st_loop rnd F dt param [0..<nt] (Suc (Suc (length s))) h t ?s3 = Inr s'"
    by (auto simp: GCM_st_def alloc_def split: sum.splits)
  from GCM_st_loop_frame[OF run]
  have "length ?s3 \<le> length s'" "\<forall>a<length ?s3. a \<noteq> h \<longrightarrow> a \<noteq> t \<longrightarrow> s' ! a = ?s3 ! a"
    by auto
  then show ?thesis using ht x0 by (auto simp: nth_append)
qed

lemma call_st_body_frame:
  assumes "call_st_body rnd stp X0 dt nt s = Inr ((h, t), s')"
  shows "t = length s \<and> h = Suc (length s) \<and> Suc (Suc (Suc (length s))) \<le> length s'
       \<and> (\<forall>a<length s. s' ! a = s ! a)
       \<and> (\<exists>x0. get_vec (s @ [Vec (np_arange_scaled rnd dt (nt + 1))]) X0 = Inr x0
               \<and> s' ! Suc (Suc (length s)) = Vec x0)"
proof -
  let ?s1 = "s @ [Vec (np_arange_scaled rnd dt (nt + 1))]"
  from assms obtain x0 where x0: "get_vec ?s1 X0 = Inr x0"
    by (auto simp: call_st_body_def alloc_def split: sum.splits)
  let ?s3 = "?s1 @ [Mat (np_nan_matrix (nt + 1) (length x0))] @ [Vec x0]"
  have gx: "get_vec ?s3 (Suc (Suc (length s))) = Inr x0"
    by (simp add: get_vec_def nth_append)
  from assms x0 gx obtain s4 where ht: "t = length s" "h = Suc (length s)"
    and s4: "set_row_st ?s3 h 0 x0 = Inr s4"
    and run: "call_st_loop rnd stp dt [0..<nt] (Suc (Suc (length s))) h t s4 = Inr s'"
    by (auto simp: call_st_body_def alloc_def split: sum.splits)
  from call_st_loop_frame[OF run]
  have "length s4 \<le> length s'" "\<forall>a<length s4. a \<noteq> h \<longrightarrow> a \<noteq> t \<longrightarrow> s' ! a = s4 ! a"
    by auto
  then show ?thesis using ht x0 set_row_st_frame[OF s4] by (auto simp: nth_append)
qed

section \<open>The drivers on the store compute what the drivers on values compute\<close>

lemma GCM_st_loop_refines:
  assumes "get_vec s X = Inr x" "get_vec s param = Inr p"
    and "h < length s" "s ! h = Mat hm" "t < length s" "s ! t = Vec tv"
    and "X \<noteq> t" "param \<noteq> t"
  shows "case GCM_loop rnd F dt p ns x hm tv of
           Inl e \<Rightarrow> GCM_st_loop rnd F dt param ns X h t s = Inl e
         | Inr (hm', tv') \<Rightarrow>
             (\<exists>s'. GCM_st_loop rnd F dt param ns X h t s = Inr s'
                  \<and> s' ! h = Mat hm' \<and> s' ! t = Vec tv')"
  using assms
proof (induction ns arbitrary: X x s hm tv)
  case Nil
  then show ?case by simp
next
  case (Cons n ns)
  define x' where "x' = GCM_step rnd F dt p x"
  define s1 where "s1 = s @ [Vec x']"
  have ht: "h \<noteq> t" using Cons.prems by auto
  have ph: "param \<noteq> h" "param < length s" "s ! param = Vec p"
    using Cons.prems by (auto simp: get_vec_iff)
  have s1h: "h < length s1" "s1 ! h = Mat hm" and s1t: "t < length s1" "s1 ! t = Vec tv"
    using Cons.prems by (simp_all add: s1_def nth_append)
  have unf: "GCM_st_loop rnd F dt param (n # ns) X h t s =
     (case np_abs_max x' of
        Inl e \<Rightarrow> Inl e
      | Inr m \<Rightarrow>
          if fgt m (Fin 1000) then Inr s1
          else (case set_row_st s1 h n x' of
                  Inl e \<Rightarrow> Inl e
                | Inr s2 \<Rightarrow>
                    (case set_item_st s2 t n (fmul rnd dt (Fin (real n + 1))) of
                       Inl e \<Rightarrow> Inl e
                     | Inr s3 \<Rightarrow> GCM_st_loop rnd F dt param ns (length s) h t s3)))"
    unfolding x'_def s1_def using Cons.prems(1,2)
    by (simp add: alloc_def cong: sum.case_cong if_cong)
  have unfp: "GCM_loop rnd F dt p (n # ns) x hm tv =
     (case np_abs_max x' of
        Inl e \<Rightarrow> Inl e
      | Inr m \<Rightarrow>
          if fgt m (Fin 1000) then Inr (hm, tv)
          else (case np_set_row hm n x' of
                  Inl e \<Rightarrow> Inl e
                | Inr h' \<Rightarrow>
                    (case np_set_item tv n (fmul rnd dt (Fin (real n + 1))) of
                       Inl e \<Rightarrow> Inl e
                     | Inr ts' \<Rightarrow> GCM_loop rnd F dt p ns x' h' ts')))"
    unfolding x'_def by (simp add: Let_def cong: sum.case_cong if_cong)
  show ?case
  proof (cases "np_abs_max x'")
    case (Inl e)
    then show ?thesis unfolding unf unfp by simp
  next
    case (Inr m)
    show ?thesis
    proof (cases "fgt m (Fin 1000)")
      case True
      then show ?thesis unfolding unf unfp using Inr s1h s1t by simp
    next
      case False
      show ?thesis
      proof (cases "np_set_row hm n x'")
        case (Inl e)
        then show ?thesis unfolding unf unfp using Inr False s1h
          by (simp add: set_row_st_Mat)
      next
        case row: (Inr hm')
        define s2 where "s2 = s1[h := Mat hm']"
        have sr: "set_row_st s1 h n x' = Inr s2"
          using s1h row by (simp add: set_row_st_Mat s2_def)
        have s2t: "t < length s2" "s2 ! t = Vec tv"
          using s1t ht by (simp_all add: s2_def)
        show ?thesis
        proof (cases "np_set_item tv n (fmul rnd dt (Fin (real n + 1)))")
          case (Inl e)
          then show ?thesis unfolding unf unfp using Inr False row sr s2t
            by (simp add: set_item_st_Vec)
        next
          case item: (Inr tv')
          define s3 where "s3 = s2[t := Vec tv']"
          have si: "set_item_st s2 t n (fmul rnd dt (Fin (real n + 1))) = Inr s3"
            using s2t item by (simp add: set_item_st_Vec s3_def)
          have l3: "length s3 = Suc (length s)" by (simp add: s3_def s2_def s1_def)
          have a1: "get_vec s3 (length s) = Inr x'"
            using Cons.prems(3,5) by (simp add: get_vec_iff s3_def s2_def s1_def)
          have a2: "get_vec s3 param = Inr p"
            using ph Cons.prems(8) by (simp add: get_vec_iff s3_def s2_def s1_def nth_append)
          have a3: "h < length s3" "s3 ! h = Mat hm'"
            using Cons.prems(3) ht by (simp_all add: s3_def s2_def s1_def)
          have a4: "t < length s3" "s3 ! t = Vec tv'"
            using Cons.prems(5) by (simp_all add: s3_def s2_def s1_def)
          have a5: "length s \<noteq> t" using Cons.prems(5) by simp
          have e1: "GCM_st_loop rnd F dt param (n # ns) X h t s
              = GCM_st_loop rnd F dt param ns (length s) h t s3"
            unfolding unf using Inr False sr si by simp
          have e2: "GCM_loop rnd F dt p (n # ns) x hm tv = GCM_loop rnd F dt p ns x' hm' tv'"
            unfolding unfp using Inr False row item by simp
          show ?thesis unfolding e1 e2 by (rule Cons.IH[OF a1 a2 a3 a4 a5 Cons.prems(8)])
        qed
      qed
    qed
  qed
qed

lemma GCM_st_refines:
  assumes "get_vec s X0 = Inr x0" "get_vec s param = Inr p"
  shows "returned (GCM_st rnd X0 F dt nt param s)
       = (case GCM rnd x0 F dt nt p of Inl e \<Rightarrow> Inl e | Inr (h, ts) \<Rightarrow> Inr (Mat h, Vec ts))"
proof -
  let ?tv = "np_arange_scaled rnd dt nt" and ?hm = "np_nan_matrix nt (length x0)"
  let ?s1 = "s @ [Vec ?tv]"
  let ?s3 = "?s1 @ [Mat ?hm] @ [Vec x0]"
  let ?t = "length s" and ?h = "Suc (length s)" and ?X = "Suc (Suc (length s))"
  have X0: "X0 < length s" "s ! X0 = Vec x0" and P: "param < length s" "s ! param = Vec p"
    using assms by (auto simp: get_vec_iff)
  have g1: "get_vec ?s1 X0 = Inr x0" using X0 by (simp add: get_vec_iff nth_append)
  have unf: "GCM_st rnd X0 F dt nt param s =
      (case GCM_st_loop rnd F dt param [0..<nt] ?X ?h ?t ?s3 of
         Inl e \<Rightarrow> Inl e | Inr s' \<Rightarrow> Inr ((?h, ?t), s'))"
    using g1 by (simp add: GCM_st_def alloc_def)
  have b1: "get_vec ?s3 ?X = Inr x0" by (simp add: get_vec_iff nth_append)
  have b2: "get_vec ?s3 param = Inr p" using P by (simp add: get_vec_iff nth_append)
  have b3: "?h < length ?s3" "?s3 ! ?h = Mat ?hm" by (simp_all add: nth_append)
  have b4: "?t < length ?s3" "?s3 ! ?t = Vec ?tv" by (simp_all add: nth_append)
  have b5: "?X \<noteq> ?t" "param \<noteq> ?t" using P by simp_all
  note R = GCM_st_loop_refines[OF b1 b2 b3 b4 b5, of rnd F dt "[0..<nt]"]
  show ?thesis
  proof (cases "GCM rnd x0 F dt nt p")
    case (Inl e)
    then have "GCM_st_loop rnd F dt param [0..<nt] ?X ?h ?t ?s3 = Inl e"
      using R by (simp add: GCM_def)
    then show ?thesis using Inl unfolding unf by (simp add: returned_def)
  next
    case (Inr r)
    obtain hm' tv' where r: "r = (hm', tv')" by (cases r)
    then obtain s' where "GCM_st_loop rnd F dt param [0..<nt] ?X ?h ?t ?s3 = Inr s'"
      "s' ! ?h = Mat hm'" "s' ! ?t = Vec tv'"
      using R Inr by (auto simp: GCM_def)
    then show ?thesis using Inr r unfolding unf by (simp add: returned_def)
  qed
qed

lemma call_st_loop_refines:
  assumes "get_vec s X = Inr x"
    and "h < length s" "s ! h = Mat hm" "t < length s" "s ! t = Vec tv"
    and "X \<noteq> t"
  shows "case call_loop rnd stp dt ns x hm tv of
           Inl e \<Rightarrow> call_st_loop rnd stp dt ns X h t s = Inl e
         | Inr (hm', tv') \<Rightarrow>
             (\<exists>s'. call_st_loop rnd stp dt ns X h t s = Inr s'
                  \<and> s' ! h = Mat hm' \<and> s' ! t = Vec tv')"
  using assms
proof (induction ns arbitrary: X x s hm tv)
  case Nil
  then show ?case by simp
next
  case (Cons n ns)
  have ht: "h \<noteq> t" using Cons.prems by auto
  show ?case
  proof (cases "stp x")
    case (Inl e)
    then show ?thesis using Cons.prems(1) by simp
  next
    case (Inr x')
    define s1 where "s1 = s @ [Vec x']"
    have s1h: "h < length s1" "s1 ! h = Mat hm" and s1t: "t < length s1" "s1 ! t = Vec tv"
      using Cons.prems by (simp_all add: s1_def nth_append)
    have unf: "call_st_loop rnd stp dt (n # ns) X h t s =
       (case set_row_st s1 h (Suc n) x' of
          Inl e \<Rightarrow> Inl e
        | Inr s2 \<Rightarrow>
            (case set_item_st s2 t (Suc n) (fmul rnd dt (Fin (real n + 1))) of
               Inl e \<Rightarrow> Inl e
             | Inr s3 \<Rightarrow> call_st_loop rnd stp dt ns (length s) h t s3))"
      unfolding s1_def using Cons.prems(1) Inr
      by (simp add: alloc_def cong: sum.case_cong)
    have unfp: "call_loop rnd stp dt (n # ns) x hm tv =
       (case np_set_row hm (Suc n) x' of
          Inl e \<Rightarrow> Inl e
        | Inr h' \<Rightarrow>
            (case np_set_item tv (Suc n) (fmul rnd dt (Fin (real n + 1))) of
               Inl e \<Rightarrow> Inl e
             | Inr ts' \<Rightarrow> call_loop rnd stp dt ns x' h' ts'))"
      using Inr by (simp cong: sum.case_cong)
    show ?thesis
    proof (cases "np_set_row hm (Suc n) x'")
      case (Inl e)
      then show ?thesis unfolding unf unfp using s1h by (simp add: set_row_st_Mat)
    next
      case row: (Inr hm')
      define s2 where "s2 = s1[h := Mat hm']"
      have sr: "set_row_st s1 h (Suc n) x' = Inr s2"
        using s1h row by (simp add: set_row_st_Mat s2_def)
      have s2t: "t < length s2" "s2 ! t = Vec tv"
        using s1t ht by (simp_all add: s2_def)
      show ?thesis
      proof (cases "np_set_item tv (Suc n) (fmul rnd dt (Fin (real n + 1)))")
        case (Inl e)
        then show ?thesis unfolding unf unfp using row sr s2t
          by (simp add: set_item_st_Vec)
      next
        case item: (Inr tv')
        define s3 where "s3 = s2[t := Vec tv']"
        have si: "set_item_st s2 t (Suc n) (fmul rnd dt (Fin (real n + 1))) = Inr s3"
          using s2t item by (simp add: set_item_st_Vec s3_def)
        have a1: "get_vec s3 (length s) = Inr x'"
          using Cons.prems(2,4) by (simp add: get_vec_iff s3_def s2_def s1_def)
        have a3: "h < length s3" "s3 ! h = Mat hm'"
          using Cons.prems(2) ht by (simp_all add: s3_def s2_def s1_def)
        have a4: "t < length s3" "s3 ! t = Vec tv'"
          using Cons.prems(4) by (simp_all add: s3_def s2_def s1_def)
        have a5: "length s \<noteq> t" using Cons.prems(4) by simp
        have e1: "call_st_loop rnd stp dt (n # ns) X h t s
            = call_st_loop rnd stp dt ns (length s) h t s3"
          unfolding unf using sr si by simp
        have e2: "call_loop rnd stp dt (n # ns) x hm tv = call_loop rnd stp dt ns x' hm' tv'"
          unfolding unfp using row item by simp
        show ?thesis unfolding e1 e2 by (rule Cons.IH[OF a1 a3 a4 a5])
      qed
    qed
  qed
qed

lemma call_st_body_refines:
  assumes "get_vec s X0 = Inr x0"
  shows "returned (call_st_body rnd stp X0 dt nt s)
       = (case call_body rnd stp x0 dt nt of Inl e \<Rightarrow> Inl e | Inr (h, ts) \<Rightarrow> Inr (Mat h, Vec ts))"
proof -
  let ?tv = "np_arange_scaled rnd dt (nt + 1)" and ?hm = "np_nan_matrix (nt + 1) (length x0)"
  let ?s1 = "s @ [Vec ?tv]"
  let ?s3 = "?s1 @ [Mat ?hm] @ [Vec x0]"
  let ?t = "length s" and ?h = "Suc (length s)" and ?X = "Suc (Suc (length s))"
  have X0: "X0 < length s" "s ! X0 = Vec x0"
    using assms by (auto simp: get_vec_iff)
  have g1: "get_vec ?s1 X0 = Inr x0" using X0 by (simp add: get_vec_iff nth_append)
  have gx: "get_vec ?s3 ?X = Inr x0" by (simp add: get_vec_iff nth_append)
  have h3: "?h < length ?s3" "?s3 ! ?h = Mat ?hm" by (simp_all add: nth_append)
  have unf: "call_st_body rnd stp X0 dt nt s =
      (case set_row_st ?s3 ?h 0 x0 of
         Inl e \<Rightarrow> Inl e
       | Inr s4 \<Rightarrow>
           (case call_st_loop rnd stp dt [0..<nt] ?X ?h ?t s4 of
              Inl e \<Rightarrow> Inl e | Inr s' \<Rightarrow> Inr ((?h, ?t), s')))"
    using g1 gx by (simp add: call_st_body_def alloc_def cong: sum.case_cong)
  show ?thesis
  proof (cases "np_set_row ?hm 0 x0")
    case (Inl e)
    then show ?thesis unfolding unf using h3
      by (simp add: set_row_st_Mat call_body_def returned_def)
  next
    case row: (Inr hm0)
    define s4 where "s4 = ?s3[?h := Mat hm0]"
    have sr: "set_row_st ?s3 ?h 0 x0 = Inr s4"
      using h3 row by (simp add: set_row_st_Mat s4_def)
    have b1: "get_vec s4 ?X = Inr x0" by (simp add: get_vec_iff s4_def nth_append)
    have b3: "?h < length s4" "s4 ! ?h = Mat hm0" by (simp_all add: s4_def)
    have b4: "?t < length s4" "s4 ! ?t = Vec ?tv" by (simp_all add: s4_def nth_append)
    have b5: "?X \<noteq> ?t" by simp
    note R = call_st_loop_refines[OF b1 b3 b4 b5, of rnd stp dt "[0..<nt]"]
    show ?thesis
    proof (cases "call_loop rnd stp dt [0..<nt] x0 hm0 ?tv")
      case (Inl e)
      then have "call_st_loop rnd stp dt [0..<nt] ?X ?h ?t s4 = Inl e" using R by simp
      then show ?thesis using Inl row sr unfolding unf
        by (simp add: call_body_def returned_def)
    next
      case (Inr r)
      obtain hm' tv' where r: "r = (hm', tv')" by (cases r)
      then obtain s' where "call_st_loop rnd stp dt [0..<nt] ?X ?h ?t s4 = Inr s'"
        "s' ! ?h = Mat hm'" "s' ! ?t = Vec tv'"
        using R Inr by auto
      then show ?thesis using Inr r row sr unfolding unf
        by (simp add: call_body_def returned_def)
    qed
  qed
qed

lemma GCM_st_rerun:
  assumes a: "get_vec s a = Inr x0" and b: "get_vec s b = Inr p"
    and run: "GCM_st rnd a F dt nt b s = Inr ((h, t), s')"
  shows "\<exists>h2 t2 s2. GCM_st rnd a F dt nt b s' = Inr ((h2, t2), s2)
      \<and> s2 ! h2 = s' ! h \<and> s2 ! t2 = s' ! t \<and> s2 ! h = s' ! h \<and> s2 ! t = s' ! t"
proof -
  from GCM_st_frame[OF run] have ht: "t = length s" "h = Suc (length s)"
    and len: "Suc (Suc (Suc (length s))) \<le> length s'"
    and fr: "\<forall>c<length s. s' ! c = s ! c" by auto
  have a': "get_vec s' a = Inr x0" and b': "get_vec s' b = Inr p"
    using a b fr len by (auto simp: get_vec_iff)
  have "returned (GCM_st rnd a F dt nt b s') = returned (GCM_st rnd a F dt nt b s)"
    unfolding GCM_st_refines[OF a b] GCM_st_refines[OF a' b'] ..
  then have r: "returned (GCM_st rnd a F dt nt b s') = Inr (s' ! h, s' ! t)"
    using run by (simp add: returned_def)
  then obtain h2 t2 s2 where run2: "GCM_st rnd a F dt nt b s' = Inr ((h2, t2), s2)"
    by (cases "GCM_st rnd a F dt nt b s'") (auto simp: returned_def)
  from r run2 have eq: "s2 ! h2 = s' ! h" "s2 ! t2 = s' ! t" by (simp_all add: returned_def)
  from GCM_st_frame[OF run2] have "\<forall>c<length s'. s2 ! c = s' ! c" by auto
  then have "s2 ! h = s' ! h" "s2 ! t = s' ! t" using ht len by auto
  then show ?thesis using run2 eq by blast
qed

lemma call_st_body_rerun:
  assumes a: "get_vec s a = Inr x0"
    and run: "call_st_body rnd stp a dt nt s = Inr ((h, t), s')"
  shows "\<exists>h2 t2 s2. call_st_body rnd stp a dt nt s' = Inr ((h2, t2), s2)
      \<and> s2 ! h2 = s' ! h \<and> s2 ! t2 = s' ! t \<and> s2 ! h = s' ! h \<and> s2 ! t = s' ! t"
proof -
  from call_st_body_frame[OF run] have ht: "t = length s" "h = Suc (length s)"
    and len: "Suc (Suc (Suc (length s))) \<le> length s'"
    and fr: "\<forall>c<length s. s' ! c = s ! c" by auto
  have a': "get_vec s' a = Inr x0"
    using a fr len by (auto simp: get_vec_iff)
  have "returned (call_st_body rnd stp a dt nt s') = returned (call_st_body rnd stp a dt nt s)"
    unfolding call_st_body_refines[OF a] call_st_body_refines[OF a'] ..
  then have r: "returned (call_st_body rnd stp a dt nt s') = Inr (s' ! h, s' ! t)"
    using run by (simp add: returned_def)
  then obtain h2 t2 s2 where run2: "call_st_body rnd stp a dt nt s' = Inr ((h2, t2), s2)"
    by (cases "call_st_body rnd stp a dt nt s'") (auto simp: returned_def)
  from r run2 have eq: "s2 ! h2 = s' ! h" "s2 ! t2 = s' ! t" by (simp_all add: returned_def)
  from call_st_body_frame[OF run2] have "\<forall>c<length s'. s2 ! c = s' ! c" by auto
  then have "s2 ! h = s' ! h" "s2 ! t = s' ! t" using ht len by auto
  then show ?thesis using run2 eq by blast
qed

section \<open>Runs on concrete stores\<close>

lemma GCM_st_example:
  "GCM_st Fin 0 (Fin 300) (Fin 3) 4 1 [Vec [Fin 0], Vec [Fin 0]]
     = Inr ((3, 2),
        [Vec [Fin 0], Vec [Fin 0], Vec [Fin 3, Fin 6, Fin 6, Fin 9],
         Mat [[Fin 900], [Fin (- 900)], [NaN], [NaN]], Vec [Fin 0], Vec [Fin 900],
         Vec [Fin (- 900)], Vec [Fin 2700]])"
  by (simp add: GCM_st_def alloc_def get_vec_def set_row_st_def set_item_st_def
      GCM_step_single np_nan_matrix_def np_arange_scaled_def np_set_row_def np_set_item_def
      fmax_def Let_def upt_conv_Cons eval_nat_numeral del: upt_Suc)

lemma call_st_example:
  "GCM_without_parameterization_call_st Fin \<lparr>self_F = Fin 3000, self_time_stepping = RK4 Fin\<rparr>
       0 (Fin 1) 2 [0 :: real] [Vec [Fin 0]]
     = Inr ((2, 1),
        [Vec [Fin 0], Vec [Fin 0, Fin 1, Fin 2],
         Mat [[Fin 0], [Fin 1875], [Fin (20625 / 8)]], Vec [Fin 0],
         Vec [Fin 1875], Vec [Fin (20625 / 8)]])"
  by (simp add: GCM_without_parameterization_call_st_def call_st_body_def alloc_def
      get_vec_def set_row_st_def set_item_st_def RK4_rhs_single
      np_nan_matrix_def np_arange_scaled_def np_set_row_def np_set_item_def
      upt_conv_Cons eval_nat_numeral del: upt_Suc)

lemma call_st_network_example:
  "GCM_network_call_st Fin
       \<lparr>self_F = Fin 2, self_time_stepping = EulerFwd Fin, self_network = bias_network (Fin 1)\<rparr>
       0 (Fin 1) 2 () [Vec [Fin 1]]
     = Inr ((2, 1),
        [Vec [Fin 1], Vec [Fin 0, Fin 1, Fin 2], Mat [[Fin 1], [Fin 3], [Fin 3]], Vec [Fin 1],
         Vec [Fin 3], Vec [Fin 3]])"
  by (simp add: GCM_network_call_st_def call_st_body_def alloc_def
      get_vec_def set_row_st_def set_item_st_def EulerFwd_single bias_network_rhs_single
      np_nan_matrix_def np_arange_scaled_def np_set_row_def np_set_item_def
      upt_conv_Cons eval_nat_numeral del: upt_Suc)

section \<open>The claims\<close>

text \<open>
  C1 (corrected). The \<^verbatim>\<open>__call__\<close> of \<open>GCM_without_parameterization\<close> and of
  \<open>GCM_network\<close> returns a history of exactly \<open>nt + 1\<close> rows whose first row is \<open>X0\<close>,
  whenever each step of the scheme returns a vector of the length of \<open>X0\<close>. The
  function \<open>GCM\<close> returns, for a non-empty \<open>X0\<close>, a history of exactly \<open>nt\<close> rows, and
  \<open>X0\<close> is not stored as a row: row \<open>i\<close> is either unset or the state after \<open>i + 1\<close>
  steps.
\<close>

theorem C1_history_rows:
  "(X0 \<noteq> [] \<longrightarrow>
      (\<exists>h ts. GCM rnd X0 F dt nt param = Inr (h, ts) \<and> length h = nt
         \<and> (\<forall>i<nt. h ! i = replicate (length X0) NaN
                   \<or> h ! i = (GCM_state rnd F dt param X0 (Suc i)))))
   \<and> ((\<forall>X. length X = length X0 \<longrightarrow>
          (\<exists>Y. self_time_stepping g (GCM_without_parameterization_rhs rnd g) dt X p = Inr Y
              \<and> length Y = length X0)) \<longrightarrow>
      (\<exists>h ts. GCM_without_parameterization_call rnd g X0 dt nt p = Inr (h, ts)
         \<and> length h = nt + 1 \<and> h ! 0 = X0))
   \<and> ((\<forall>X. length X = length X0 \<longrightarrow>
          (\<exists>Y. self_time_stepping w (GCM_network_rhs rnd w) dt X q = Inr Y
              \<and> length Y = length X0)) \<longrightarrow>
      (\<exists>h ts. GCM_network_call rnd w X0 dt nt q = Inr (h, ts)
         \<and> length h = nt + 1 \<and> h ! 0 = X0))"
proof (intro conjI impI)
  assume "X0 \<noteq> []"
  from GCM_char[OF this, of nt rnd F dt param]
  obtain m h ts where m: "m \<le> nt" and run: "GCM rnd X0 F dt nt param = Inr (h, ts)"
    and len: "length h = nt"
    and filled: "\<forall>i<m. h ! i = (GCM_state rnd F dt param X0 (Suc i))"
    and rest: "\<forall>j. m \<le> j \<and> j < nt \<longrightarrow> h ! j = replicate (length X0) NaN"
    by blast
  have "\<forall>i<nt. h ! i = replicate (length X0) NaN
                   \<or> h ! i = (GCM_state rnd F dt param X0 (Suc i))"
    using filled rest by (metis not_le)
  then show "\<exists>h ts. GCM rnd X0 F dt nt param = Inr (h, ts) \<and> length h = nt
         \<and> (\<forall>i<nt. h ! i = replicate (length X0) NaN
                   \<or> h ! i = (GCM_state rnd F dt param X0 (Suc i)))"
    using run len by blast
next
  assume a: "\<forall>X. length X = length X0 \<longrightarrow>
          (\<exists>Y. self_time_stepping g (GCM_without_parameterization_rhs rnd g) dt X p = Inr Y
              \<and> length Y = length X0)"
  have "\<exists>h ts. call_body rnd (\<lambda>X. self_time_stepping g (GCM_without_parameterization_rhs rnd g) dt X p)
            X0 dt nt = Inr (h, ts)
      \<and> length h = nt + 1 \<and> length ts = nt + 1
      \<and> (\<forall>i\<le>nt. \<exists>Y. call_state (\<lambda>X. self_time_stepping g (GCM_without_parameterization_rhs rnd g) dt X p)
                     X0 i = Inr Y \<and> length Y = length X0
                 \<and> h ! i = Y \<and> ts ! i = fmul rnd dt (Fin (real i)))"
    using a by (intro call_body_char) blast
  then obtain h ts where
    "GCM_without_parameterization_call rnd g X0 dt nt p = Inr (h, ts)" "length h = nt + 1"
    "\<exists>Y. call_state (\<lambda>X. self_time_stepping g (GCM_without_parameterization_rhs rnd g) dt X p)
                     X0 0 = Inr Y \<and> h ! 0 = Y"
    unfolding GCM_without_parameterization_call_def by blast
  then show "\<exists>h ts. GCM_without_parameterization_call rnd g X0 dt nt p = Inr (h, ts)
         \<and> length h = nt + 1 \<and> h ! 0 = X0"
    by auto
next
  assume a: "\<forall>X. length X = length X0 \<longrightarrow>
          (\<exists>Y. self_time_stepping w (GCM_network_rhs rnd w) dt X q = Inr Y
              \<and> length Y = length X0)"
  have "\<exists>h ts. call_body rnd (\<lambda>X. self_time_stepping w (GCM_network_rhs rnd w) dt X q)
            X0 dt nt = Inr (h, ts)
      \<and> length h = nt + 1 \<and> length ts = nt + 1
      \<and> (\<forall>i\<le>nt. \<exists>Y. call_state (\<lambda>X. self_time_stepping w (GCM_network_rhs rnd w) dt X q)
                     X0 i = Inr Y \<and> length Y = length X0
                 \<and> h ! i = Y \<and> ts ! i = fmul rnd dt (Fin (real i)))"
    using a by (intro call_body_char) blast
  then obtain h ts where
    "GCM_network_call rnd w X0 dt nt q = Inr (h, ts)" "length h = nt + 1"
    "\<exists>Y. call_state (\<lambda>X. self_time_stepping w (GCM_network_rhs rnd w) dt X q)
                     X0 0 = Inr Y \<and> h ! 0 = Y"
    unfolding GCM_network_call_def by blast
  then show "\<exists>h ts. GCM_network_call rnd w X0 dt nt q = Inr (h, ts)
         \<and> length h = nt + 1 \<and> h ! 0 = X0"
    by auto
qed

theorem C1_history_rows_witness:
  "(\<exists>h ts. GCM Fin [Fin 1] (Fin 2) (Fin 1) 2 [Fin 0] = Inr (h, ts) \<and> length h = 2)
   \<and> (\<exists>h ts. GCM_without_parameterization_call Fin
               \<lparr>self_F = Fin 2, self_time_stepping = RK4 Fin\<rparr> [Fin 1] (Fin 1) 2 [0::real]
             = Inr (h, ts)
         \<and> length h = 3 \<and> h ! 0 = [Fin 1])
   \<and> (\<exists>h ts. GCM_network_call Fin
               \<lparr>self_F = Fin 2, self_time_stepping = EulerFwd Fin,
                 self_network = bias_network (Fin 1)\<rparr>
               [Fin 1] (Fin 1) 2 () = Inr (h, ts)
         \<and> length h = 3 \<and> h ! 0 = [Fin 1])"
proof -
  let ?g = "\<lparr>self_F = Fin 2, self_time_stepping = RK4 Fin\<rparr>
              :: real list GCM_without_parameterization"
  let ?w = "\<lparr>self_F = Fin 2, self_time_stepping = EulerFwd Fin,
              self_network = bias_network (Fin 1)\<rparr> :: unit GCM_network"
  have a: "\<forall>X. length X = length [Fin 1] \<longrightarrow>
      (\<exists>Y. self_time_stepping ?g (GCM_without_parameterization_rhs Fin ?g) (Fin 1) X [0] = Inr Y
          \<and> length Y = length [Fin 1])"
  proof (intro allI impI)
    fix X :: vec assume "length X = length [Fin 1]"
    then show "\<exists>Y. self_time_stepping ?g (GCM_without_parameterization_rhs Fin ?g) (Fin 1) X [0]
            = Inr Y
          \<and> length Y = length [Fin 1]"
      using RK4_keeps_shape[where fn = "GCM_without_parameterization_rhs Fin ?g" and p = "[0]"
          and dt = "Fin 1" and X = X and rnd = Fin, OF rhs_keeps_shape] by simp
  qed
  have b: "\<forall>X. length X = length [Fin 1] \<longrightarrow>
      (\<exists>Y. self_time_stepping ?w (GCM_network_rhs Fin ?w) (Fin 1) X () = Inr Y
          \<and> length Y = length [Fin 1])"
  proof (intro allI impI)
    fix X :: vec assume "length X = length [Fin 1]"
    moreover have "self_network ?w = bias_network (Fin 1)" by simp
    ultimately show "\<exists>Y. self_time_stepping ?w (GCM_network_rhs Fin ?w) (Fin 1) X () = Inr Y
          \<and> length Y = length [Fin 1]"
      using EulerFwd_keeps_shape[where fn = "GCM_network_rhs Fin ?w" and p = "()"
          and dt = "Fin 1" and X = X and rnd = Fin, OF bias_network_rhs_keeps_shape] by simp
  qed
  note T = C1_history_rows[of "[Fin 1]" Fin "Fin 2" "Fin 1" 2 "[Fin 0]" ?g "[0]" ?w "()"]
  have c: "[Fin 1] \<noteq> []" by simp
  from T[THEN conjunct1, THEN mp, OF c]
  have g1: "\<exists>h ts. GCM Fin [Fin 1] (Fin 2) (Fin 1) 2 [Fin 0] = Inr (h, ts) \<and> length h = 2"
    by blast
  from T[THEN conjunct2, THEN conjunct1, THEN mp, OF a]
  have g2: "\<exists>h ts. GCM_without_parameterization_call Fin ?g [Fin 1] (Fin 1) 2 [0] = Inr (h, ts)
         \<and> length h = 3 \<and> h ! 0 = [Fin 1]" by simp
  from T[THEN conjunct2, THEN conjunct2, THEN mp, OF b]
  have g3: "\<exists>h ts. GCM_network_call Fin ?w [Fin 1] (Fin 1) 2 () = Inr (h, ts)
         \<and> length h = 3 \<and> h ! 0 = [Fin 1]" by simp
  from g1 g2 g3 show ?thesis by blast
qed

theorem C1_counterexample:
  "GCM Fin [Fin 1] (Fin 2) (Fin 1) 2 [Fin 0] = Inr ([[Fin 2], [Fin 2]], [Fin 1, Fin 2])
   \<and> length [[Fin 2], [Fin 2]] \<noteq> 2 + 1
   \<and> [[Fin 2], [Fin 2]] ! 0 \<noteq> [Fin 1]"
  by (simp add: GCM_def GCM_step_single np_nan_matrix_def np_arange_scaled_def np_set_row_def
      np_set_item_def fmax_def Let_def upt_conv_Cons eval_nat_numeral del: upt_Suc)

text \<open>
  C2 (corrected). Only the function \<open>GCM\<close> evaluates a divergence guard, the comparison
  \<^verbatim>\<open>np.abs(X).max() > 1e3\<close>, which is false for a state with a NaN component. \<open>GCM\<close>
  returns, for a non-empty \<open>X0\<close>, a history of \<open>nt\<close> rows of which the first \<open>m\<close> hold the
  states after steps \<open>1, ..., m\<close> and the others remain unset (NaN). Each stored state
  has a NaN component or has all its components finite and at most \<open>1e3\<close> in absolute
  value. When \<open>m < nt\<close> the run was ended early by the state after step \<open>m + 1\<close>, which has
  no NaN component and a component that exceeds \<open>1e3\<close>, and which is not stored. The
  \<^verbatim>\<open>__call__\<close> of \<open>GCM_without_parameterization\<close> and of \<open>GCM_network\<close> has no guard:
  whenever each step of the scheme returns a vector of the length of \<open>X0\<close>, it takes all
  \<open>nt\<close> steps and stores every state, whatever its size.
\<close>

theorem C2_divergence_guard:
  "(X0 \<noteq> [] \<longrightarrow>
      (\<exists>m h ts. m \<le> nt \<and> GCM rnd X0 F dt nt param = Inr (h, ts) \<and> length h = nt
         \<and> (\<forall>i<m. h ! i = GCM_state rnd F dt param X0 (Suc i)
                   \<and> (NaN \<in> set (GCM_state rnd F dt param X0 (Suc i))
                      \<or> (\<forall>x \<in> set (GCM_state rnd F dt param X0 (Suc i)).
                            \<exists>v. x = Fin v \<and> \<bar>v\<bar> \<le> 1000)))
         \<and> (\<forall>j. m \<le> j \<and> j < nt \<longrightarrow> h ! j = replicate (length X0) NaN)
         \<and> (m < nt \<longrightarrow> NaN \<notin> set (GCM_state rnd F dt param X0 (Suc m))
                       \<and> (\<exists>x \<in> set (GCM_state rnd F dt param X0 (Suc m)). exceeds x))))
   \<and> ((\<forall>X. length X = length X0 \<longrightarrow>
          (\<exists>Y. self_time_stepping g (GCM_without_parameterization_rhs rnd g) dt X p = Inr Y
              \<and> length Y = length X0)) \<longrightarrow>
      (\<exists>h ts. GCM_without_parameterization_call rnd g X0 dt nt p = Inr (h, ts)
         \<and> (\<forall>i\<le>nt. \<exists>Y.
               call_state (\<lambda>X. self_time_stepping g (GCM_without_parameterization_rhs rnd g) dt X p)
                 X0 i = Inr Y
               \<and> h ! i = Y)))
   \<and> ((\<forall>X. length X = length X0 \<longrightarrow>
          (\<exists>Y. self_time_stepping w (GCM_network_rhs rnd w) dt X q = Inr Y
              \<and> length Y = length X0)) \<longrightarrow>
      (\<exists>h ts. GCM_network_call rnd w X0 dt nt q = Inr (h, ts)
         \<and> (\<forall>i\<le>nt. \<exists>Y.
               call_state (\<lambda>X. self_time_stepping w (GCM_network_rhs rnd w) dt X q) X0 i = Inr Y
               \<and> h ! i = Y)))"
proof (intro conjI impI)
  assume "X0 \<noteq> []"
  from GCM_char[OF this, of nt rnd F dt param]
  obtain m h ts where m: "m \<le> nt" and run: "GCM rnd X0 F dt nt param = Inr (h, ts)"
    and len: "length h = nt"
    and filled: "\<And>i. i < m \<Longrightarrow> h ! i = GCM_state rnd F dt param X0 (Suc i)
                 \<and> \<not> guard_trips (GCM_state rnd F dt param X0 (Suc i))"
    and rest: "\<forall>j. m \<le> j \<and> j < nt \<longrightarrow> h ! j = replicate (length X0) NaN"
    and trip: "m < nt \<Longrightarrow> guard_trips (GCM_state rnd F dt param X0 (Suc m))"
    by blast
  have stored: "\<forall>i<m. h ! i = GCM_state rnd F dt param X0 (Suc i)
                   \<and> (NaN \<in> set (GCM_state rnd F dt param X0 (Suc i))
                      \<or> (\<forall>x \<in> set (GCM_state rnd F dt param X0 (Suc i)).
                            \<exists>v. x = Fin v \<and> \<bar>v\<bar> \<le> 1000))"
  proof (intro allI impI conjI)
    fix i assume i: "i < m"
    show "h ! i = GCM_state rnd F dt param X0 (Suc i)" using filled[OF i] by blast
    show "NaN \<in> set (GCM_state rnd F dt param X0 (Suc i))
        \<or> (\<forall>x \<in> set (GCM_state rnd F dt param X0 (Suc i)). \<exists>v. x = Fin v \<and> \<bar>v\<bar> \<le> 1000)"
      using filled[OF i] by (blast intro: not_trips_bounded)
  qed
  have ended: "m < nt \<longrightarrow> NaN \<notin> set (GCM_state rnd F dt param X0 (Suc m))
                       \<and> (\<exists>x \<in> set (GCM_state rnd F dt param X0 (Suc m)). exceeds x)"
    using trip by (simp add: guard_trips_def)
  show "\<exists>m h ts. m \<le> nt \<and> GCM rnd X0 F dt nt param = Inr (h, ts) \<and> length h = nt
         \<and> (\<forall>i<m. h ! i = GCM_state rnd F dt param X0 (Suc i)
                   \<and> (NaN \<in> set (GCM_state rnd F dt param X0 (Suc i))
                      \<or> (\<forall>x \<in> set (GCM_state rnd F dt param X0 (Suc i)).
                            \<exists>v. x = Fin v \<and> \<bar>v\<bar> \<le> 1000)))
         \<and> (\<forall>j. m \<le> j \<and> j < nt \<longrightarrow> h ! j = replicate (length X0) NaN)
         \<and> (m < nt \<longrightarrow> NaN \<notin> set (GCM_state rnd F dt param X0 (Suc m))
                       \<and> (\<exists>x \<in> set (GCM_state rnd F dt param X0 (Suc m)). exceeds x))"
    apply (rule exI[of _ m], rule exI[of _ h], rule exI[of _ ts])
    using m run len stored rest ended by (intro conjI)
next
  assume a: "\<forall>X. length X = length X0 \<longrightarrow>
          (\<exists>Y. self_time_stepping g (GCM_without_parameterization_rhs rnd g) dt X p = Inr Y
              \<and> length Y = length X0)"
  let ?stp = "\<lambda>X. self_time_stepping g (GCM_without_parameterization_rhs rnd g) dt X p"
  have "\<exists>h ts. call_body rnd ?stp X0 dt nt = Inr (h, ts)
      \<and> length h = nt + 1 \<and> length ts = nt + 1
      \<and> (\<forall>i\<le>nt. \<exists>Y. call_state ?stp X0 i = Inr Y \<and> length Y = length X0
                 \<and> h ! i = Y \<and> ts ! i = fmul rnd dt (Fin (real i)))"
    using a by (intro call_body_char) blast
  then obtain h ts where run: "call_body rnd ?stp X0 dt nt = Inr (h, ts)"
    and rows: "\<forall>i\<le>nt. \<exists>Y. call_state ?stp X0 i = Inr Y \<and> length Y = length X0
                 \<and> h ! i = Y \<and> ts ! i = fmul rnd dt (Fin (real i))"
    by blast
  have "\<forall>i\<le>nt. \<exists>Y. call_state ?stp X0 i = Inr Y \<and> h ! i = Y"
    using rows by blast
  then show "\<exists>h ts. GCM_without_parameterization_call rnd g X0 dt nt p = Inr (h, ts)
         \<and> (\<forall>i\<le>nt. \<exists>Y. call_state ?stp X0 i = Inr Y \<and> h ! i = Y)"
    using run unfolding GCM_without_parameterization_call_def by blast
next
  assume a: "\<forall>X. length X = length X0 \<longrightarrow>
          (\<exists>Y. self_time_stepping w (GCM_network_rhs rnd w) dt X q = Inr Y
              \<and> length Y = length X0)"
  let ?stp = "\<lambda>X. self_time_stepping w (GCM_network_rhs rnd w) dt X q"
  have "\<exists>h ts. call_body rnd ?stp X0 dt nt = Inr (h, ts)
      \<and> length h = nt + 1 \<and> length ts = nt + 1
      \<and> (\<forall>i\<le>nt. \<exists>Y. call_state ?stp X0 i = Inr Y \<and> length Y = length X0
                 \<and> h ! i = Y \<and> ts ! i = fmul rnd dt (Fin (real i)))"
    using a by (intro call_body_char) blast
  then obtain h ts where run: "call_body rnd ?stp X0 dt nt = Inr (h, ts)"
    and rows: "\<forall>i\<le>nt. \<exists>Y. call_state ?stp X0 i = Inr Y \<and> length Y = length X0
                 \<and> h ! i = Y \<and> ts ! i = fmul rnd dt (Fin (real i))"
    by blast
  have "\<forall>i\<le>nt. \<exists>Y. call_state ?stp X0 i = Inr Y \<and> h ! i = Y"
    using rows by blast
  then show "\<exists>h ts. GCM_network_call rnd w X0 dt nt q = Inr (h, ts)
         \<and> (\<forall>i\<le>nt. \<exists>Y. call_state ?stp X0 i = Inr Y \<and> h ! i = Y)"
    using run unfolding GCM_network_call_def by blast
qed

theorem C2_divergence_guard_witness:
  "(\<exists>ts. GCM Fin [Fin 0] (Fin 300) (Fin 3) 4 [Fin 0]
         = Inr ([[Fin 900], [Fin (- 900)], [NaN], [NaN]], ts))
   \<and> (\<exists>h ts. GCM_without_parameterization_call Fin
               \<lparr>self_F = Fin 3000, self_time_stepping = RK4 Fin\<rparr> [Fin 0] (Fin 3) 4 [0::real]
             = Inr (h, ts)
         \<and> (\<exists>Y. call_state
                   (\<lambda>X. RK4 Fin (GCM_without_parameterization_rhs Fin
                                \<lparr>self_F = Fin 3000, self_time_stepping = RK4 Fin\<rparr>)
                           (Fin 3) X [0::real])
                   [Fin 0] 1 = Inr Y
               \<and> h ! 1 = Y))
   \<and> (\<exists>h ts. GCM_network_call Fin
               \<lparr>self_F = Fin 3000, self_time_stepping = EulerFwd Fin,
                 self_network = bias_network (Fin 1)\<rparr>
               [Fin 0] (Fin 3) 4 () = Inr (h, ts)
         \<and> (\<exists>Y. call_state
                   (\<lambda>X. EulerFwd Fin (GCM_network_rhs Fin
                      \<lparr>self_F = Fin 3000, self_time_stepping = EulerFwd Fin,
                        self_network = bias_network (Fin 1)\<rparr>) (Fin 3) X ())
                   [Fin 0] 1 = Inr Y
               \<and> h ! 1 = Y))"
proof -
  let ?g = "\<lparr>self_F = Fin 3000, self_time_stepping = RK4 Fin\<rparr>
              :: real list GCM_without_parameterization"
  let ?w = "\<lparr>self_F = Fin 3000, self_time_stepping = EulerFwd Fin,
              self_network = bias_network (Fin 1)\<rparr> :: unit GCM_network"
  have a: "\<forall>X. length X = length [Fin 0] \<longrightarrow>
      (\<exists>Y. self_time_stepping ?g (GCM_without_parameterization_rhs Fin ?g) (Fin 3) X [0] = Inr Y
          \<and> length Y = length [Fin 0])"
  proof (intro allI impI)
    fix X :: vec assume "length X = length [Fin 0]"
    then show "\<exists>Y. self_time_stepping ?g (GCM_without_parameterization_rhs Fin ?g) (Fin 3) X [0]
            = Inr Y
          \<and> length Y = length [Fin 0]"
      using RK4_keeps_shape[where fn = "GCM_without_parameterization_rhs Fin ?g" and p = "[0]"
          and dt = "Fin 3" and X = X and rnd = Fin, OF rhs_keeps_shape] by simp
  qed
  have b: "\<forall>X. length X = length [Fin 0] \<longrightarrow>
      (\<exists>Y. self_time_stepping ?w (GCM_network_rhs Fin ?w) (Fin 3) X () = Inr Y
          \<and> length Y = length [Fin 0])"
  proof (intro allI impI)
    fix X :: vec assume "length X = length [Fin 0]"
    moreover have "self_network ?w = bias_network (Fin 1)" by simp
    ultimately show "\<exists>Y. self_time_stepping ?w (GCM_network_rhs Fin ?w) (Fin 3) X () = Inr Y
          \<and> length Y = length [Fin 0]"
      using EulerFwd_keeps_shape[where fn = "GCM_network_rhs Fin ?w" and p = "()"
          and dt = "Fin 3" and X = X and rnd = Fin, OF bias_network_rhs_keeps_shape] by simp
  qed
  note T = C2_divergence_guard[of "[Fin 0]" 4 Fin "Fin 300" "Fin 3" "[Fin 0]" ?g "[0]" ?w "()"]
  have c: "[Fin 0] \<noteq> []" by simp
  let ?S = "GCM_state Fin (Fin 300) (Fin 3) [Fin 0] [Fin 0]"
  have s1: "?S (Suc 0) = [Fin 900]" by (simp add: GCM_state_def GCM_step_single)
  have s2: "?S (Suc (Suc 0)) = [Fin (- 900)]" by (simp add: GCM_state_def GCM_step_single)
  have s3: "?S (Suc (Suc (Suc 0))) = [Fin 2700]"
    by (simp add: GCM_state_def GCM_step_single)
  from T[THEN conjunct1, THEN mp, OF c]
  obtain m h ts where m: "m \<le> 4" and r: "GCM Fin [Fin 0] (Fin 300) (Fin 3) 4 [Fin 0] = Inr (h, ts)"
    and len: "length h = 4"
    and stored: "\<forall>i<m. h ! i = ?S (Suc i)
        \<and> (NaN \<in> set (?S (Suc i)) \<or> (\<forall>x \<in> set (?S (Suc i)). \<exists>v. x = Fin v \<and> \<bar>v\<bar> \<le> 1000))"
    and unset: "\<forall>j. m \<le> j \<and> j < 4 \<longrightarrow> h ! j = replicate (length [Fin 0]) NaN"
    and ended: "m < 4 \<longrightarrow> NaN \<notin> set (?S (Suc m)) \<and> (\<exists>x \<in> set (?S (Suc m)). exceeds x)"
    by blast
  have "m \<noteq> 0"
  proof
    assume z: "m = 0"
    then have "m < 4" by simp
    with ended have "\<exists>x \<in> set (?S (Suc m)). exceeds x" by blast
    then have "\<exists>x \<in> set (?S (Suc 0)). exceeds x" unfolding z .
    then show False unfolding s1 by (simp add: exceeds_def)
  qed
  moreover have "m \<noteq> Suc 0"
  proof
    assume z: "m = Suc 0"
    then have "m < 4" by simp
    with ended have "\<exists>x \<in> set (?S (Suc m)). exceeds x" by blast
    then have "\<exists>x \<in> set (?S (Suc (Suc 0))). exceeds x" unfolding z .
    then show False unfolding s2 by (simp add: exceeds_def)
  qed
  moreover have "\<not> 2 < m"
  proof
    assume "2 < m"
    with stored have "NaN \<in> set (?S (Suc 2))
        \<or> (\<forall>x \<in> set (?S (Suc 2)). \<exists>v. x = Fin v \<and> \<bar>v\<bar> \<le> 1000)" by blast
    moreover have "?S (Suc 2) = [Fin 2700]" using s3 by (simp add: eval_nat_numeral)
    ultimately show False by simp
  qed
  ultimately have m2: "m = 2" by arith
  have h0: "h ! 0 = [Fin 900]" using stored m2 s1 by simp
  have "h ! Suc 0 = ?S (Suc (Suc 0))" using stored m2 by simp
  then have h1: "h ! Suc 0 = [Fin (- 900)]" unfolding s2 .
  have h2: "h ! 2 = [NaN]" using unset m2 by simp
  have h3: "h ! 3 = [NaN]" using unset m2 by simp
  have "h = [h ! 0, h ! Suc 0, h ! 2, h ! 3]"
    using len by (intro nth_equalityI) (auto simp: less_Suc_eq eval_nat_numeral)
  then have "h = [[Fin 900], [Fin (- 900)], [NaN], [NaN]]" using h0 h1 h2 h3 by simp
  then have g1: "\<exists>ts. GCM Fin [Fin 0] (Fin 300) (Fin 3) 4 [Fin 0]
         = Inr ([[Fin 900], [Fin (- 900)], [NaN], [NaN]], ts)"
    using r by simp
  from T[THEN conjunct2, THEN conjunct1, THEN mp, OF a]
  obtain h ts where r2: "GCM_without_parameterization_call Fin ?g [Fin 0] (Fin 3) 4 [0] = Inr (h, ts)"
    and rows2: "\<forall>i\<le>4. \<exists>Y. call_state
        (\<lambda>X. self_time_stepping ?g (GCM_without_parameterization_rhs Fin ?g) (Fin 3) X [0])
        [Fin 0] i = Inr Y
        \<and> h ! i = Y"
    by blast
  from rows2[rule_format, of 1]
  have g2: "\<exists>h ts. GCM_without_parameterization_call Fin ?g [Fin 0] (Fin 3) 4 [0] = Inr (h, ts)
         \<and> (\<exists>Y. call_state (\<lambda>X. RK4 Fin (GCM_without_parameterization_rhs Fin ?g) (Fin 3) X [0])
                   [Fin 0] 1 = Inr Y
               \<and> h ! 1 = Y)"
    using r2 by simp
  from T[THEN conjunct2, THEN conjunct2, THEN mp, OF b]
  obtain h' ts' where r3: "GCM_network_call Fin ?w [Fin 0] (Fin 3) 4 () = Inr (h', ts')"
    and rows3: "\<forall>i\<le>4. \<exists>Y. call_state
        (\<lambda>X. self_time_stepping ?w (GCM_network_rhs Fin ?w) (Fin 3) X ()) [Fin 0] i = Inr Y
        \<and> h' ! i = Y"
    by blast
  from rows3[rule_format, of 1]
  have g3: "\<exists>h ts. GCM_network_call Fin ?w [Fin 0] (Fin 3) 4 () = Inr (h, ts)
         \<and> (\<exists>Y. call_state (\<lambda>X. EulerFwd Fin (GCM_network_rhs Fin ?w) (Fin 3) X ()) [Fin 0] 1
                   = Inr Y
               \<and> h ! 1 = Y)"
    using r3 by simp
  from g1 g2 g3 show ?thesis by (intro conjI)
qed

theorem C2_counterexample:
  "GCM_without_parameterization_call Fin \<lparr>self_F = Fin 3000, self_time_stepping = RK4 Fin\<rparr>
       [Fin 0] (Fin 1) 2 [0::real]
     = Inr ([[Fin 0], [Fin 1875], [Fin (20625 / 8)]], [Fin 0, Fin 1, Fin 2])
   \<and> exceeds (Fin 1875)"
  by (simp add: GCM_without_parameterization_call_def call_body_def RK4_rhs_single
      np_nan_matrix_def np_arange_scaled_def np_set_row_def np_set_item_def exceeds_def
      upt_conv_Cons eval_nat_numeral del: upt_Suc)




text \<open>
  C4 (corrected). No run entry point validates its configuration before it integrates.
  For every \<open>dt\<close>, zero and negative included, \<open>GCM\<close> on a non-empty \<open>X0\<close> returns a
  history of \<open>nt\<close> rows, and \<open>GCM_without_parameterization\<close> with the scheme \<open>RK4\<close> or
  \<open>EulerFwd\<close> returns a history of \<open>nt + 1\<close> rows for every \<open>X0\<close>, the empty one
  included. On an empty \<open>X0\<close>, \<open>GCM\<close> returns empty arrays when \<open>nt = 0\<close> and otherwise
  raises ValueError in the guard of its first step. A closure is first evaluated in the
  first step: with \<open>nt = 0\<close>, \<open>GCM_network\<close> returns the one-row history of \<open>X0\<close> whatever
  the network is.
\<close>

theorem C4_no_eager_validation:
  "(X0 \<noteq> [] \<longrightarrow>
      (\<exists>h ts. GCM rnd X0 F dt nt param = Inr (h, ts) \<and> length h = nt \<and> length ts = nt))
   \<and> GCM rnd [] F dt (Suc nt) param = Inl ValueError
   \<and> GCM rnd [] F dt 0 param = Inr ([], [])
   \<and> (self_time_stepping g = RK4 rnd \<or> self_time_stepping g = EulerFwd rnd \<longrightarrow>
        (\<exists>h ts. GCM_without_parameterization_call rnd g X0 dt nt p = Inr (h, ts)
           \<and> length h = nt + 1 \<and> length ts = nt + 1))
   \<and> GCM_network_call rnd w X0 dt 0 q = Inr ([X0], [fmul rnd dt (Fin 0)])"
proof (intro conjI impI)
  assume "X0 \<noteq> []"
  from GCM_char[OF this, of nt rnd F dt param]
  show "\<exists>h ts. GCM rnd X0 F dt nt param = Inr (h, ts) \<and> length h = nt \<and> length ts = nt"
    by blast
next
  show "GCM rnd [] F dt (Suc nt) param = Inl ValueError" by (rule GCM_empty)
next
  show "GCM rnd [] F dt 0 param = Inr ([], [])" by (rule GCM_no_steps)
next
  assume s: "self_time_stepping g = RK4 rnd \<or> self_time_stepping g = EulerFwd rnd"
  let ?stp = "\<lambda>X. self_time_stepping g (GCM_without_parameterization_rhs rnd g) dt X p"
  have keeps: "\<And>X. \<exists>Y. ?stp X = Inr Y \<and> length Y = length X"
    using s RK4_keeps_shape[where rnd = rnd and fn = "GCM_without_parameterization_rhs rnd g", OF rhs_keeps_shape]
      EulerFwd_keeps_shape[where rnd = rnd and fn = "GCM_without_parameterization_rhs rnd g", OF rhs_keeps_shape]
    by auto
  have "\<exists>h ts. call_body rnd ?stp X0 dt nt = Inr (h, ts)
      \<and> length h = nt + 1 \<and> length ts = nt + 1
      \<and> (\<forall>i\<le>nt. \<exists>Y. call_state ?stp X0 i = Inr Y \<and> length Y = length X0
                 \<and> h ! i = Y \<and> ts ! i = fmul rnd dt (Fin (real i)))"
  proof (rule call_body_char)
    fix X :: vec assume "length X = length X0"
    then show "\<exists>Y. ?stp X = Inr Y \<and> length Y = length X0" using keeps[of X] by simp
  qed
  then show "\<exists>h ts. GCM_without_parameterization_call rnd g X0 dt nt p = Inr (h, ts)
           \<and> length h = nt + 1 \<and> length ts = nt + 1"
    unfolding GCM_without_parameterization_call_def by blast
next
  show "GCM_network_call rnd w X0 dt 0 q = Inr ([X0], [fmul rnd dt (Fin 0)])"
    by (simp add: GCM_network_call_def call_body_def np_set_row_def np_nan_matrix_def
        np_arange_scaled_def)
qed

theorem C4_no_eager_validation_witness:
  "(\<exists>h ts. GCM Fin [Fin 1] (Fin 2) (Fin (- 1)) 2 [Fin 0] = Inr (h, ts)
       \<and> length h = 2 \<and> length ts = 2)
   \<and> GCM Fin [] (Fin 2) (Fin (- 1)) (Suc 2) [Fin 0] = Inl ValueError
   \<and> GCM Fin [] (Fin 2) (Fin (- 1)) 0 [Fin 0] = Inr ([], [])
   \<and> (\<exists>h ts. GCM_without_parameterization_call Fin
               \<lparr>self_F = Fin 2, self_time_stepping = RK4 Fin\<rparr> [Fin 1] (Fin (- 1)) 2 [0::real]
             = Inr (h, ts)
         \<and> length h = 3 \<and> length ts = 3)
   \<and> GCM_network_call Fin
        \<lparr>self_F = Fin 2, self_time_stepping = RK4 Fin, self_network = bias_network (Fin 1)\<rparr>
        [Fin 1] (Fin (- 1)) 0 () = Inr ([[Fin 1]], [Fin 0])"
proof -
  let ?g = "\<lparr>self_F = Fin 2, self_time_stepping = RK4 Fin\<rparr>
              :: real list GCM_without_parameterization"
  let ?w = "\<lparr>self_F = Fin 2, self_time_stepping = RK4 Fin,
              self_network = bias_network (Fin 1)\<rparr> :: unit GCM_network"
  note T = C4_no_eager_validation[of "[Fin 1]" Fin "Fin 2" "Fin (- 1)" 2 "[Fin 0]" ?g "[0]"
      ?w "()"]
  have c: "[Fin 1] \<noteq> []" by simp
  have s: "self_time_stepping ?g = RK4 Fin \<or> self_time_stepping ?g = EulerFwd Fin" by simp
  note g1 = T[THEN conjunct1, THEN mp, OF c]
  note g2 = T[THEN conjunct2, THEN conjunct1]
  note g3 = T[THEN conjunct2, THEN conjunct2, THEN conjunct1]
  from T[THEN conjunct2, THEN conjunct2, THEN conjunct2, THEN conjunct1, THEN mp, OF s]
  have g4: "\<exists>h ts. GCM_without_parameterization_call Fin ?g [Fin 1] (Fin (- 1)) 2 [0]
             = Inr (h, ts)
         \<and> length h = 3 \<and> length ts = 3" by simp
  from T[THEN conjunct2, THEN conjunct2, THEN conjunct2, THEN conjunct2]
  have g5: "GCM_network_call Fin ?w [Fin 1] (Fin (- 1)) 0 () = Inr ([[Fin 1]], [Fin 0])"
    by simp
  from g1 g2 g3 g4 g5 show ?thesis by (intro conjI)
qed

theorem C4_counterexample:
  "GCM Fin [Fin 1] (Fin 2) (Fin (- 1)) 2 [Fin 0]
     = Inr ([[Fin 0], [Fin (- 2)]], [Fin (- 1), Fin (- 2)])
   \<and> (- 1 :: real) \<le> 0"
  by (simp add: GCM_def GCM_step_single np_nan_matrix_def np_arange_scaled_def
      np_set_row_def np_set_item_def fmax_def Let_def
      upt_conv_Cons eval_nat_numeral del: upt_Suc)

text \<open>
  C5 (corrected). With the default \<open>param = [0]\<close> the closure \<open>np.polyval([0], X)\<close> is
  \<open>0 * X + 0\<close>: zero at a finite component of \<open>X\<close> and NaN at an infinite or NaN one. So
  for a state \<open>X\<close> whose components are all finite the closure is the zero vector and the
  tendency of \<open>GCM\<close> is the uncoupled slow tendency \<open>L96_eq1_xdot(X, F)\<close> exactly, float
  for float, under every rounding that keeps zero and does not round a float again; at a
  non-finite component the tendency of \<open>GCM\<close> is NaN, whatever \<open>L96_eq1_xdot\<close> gives there.
  The step of \<open>GCM\<close> is the plain Euler update \<open>X + dt L96_eq1_xdot(X, F)\<close>, the step of
  the scheme \<open>EulerFwd\<close> on the uncoupled tendency, whenever \<open>dt\<close> is not negative or \<open>X\<close>
  is finite. Under the same condition on the run, a run of \<open>GCM\<close> on a non-empty \<open>X0\<close>
  stores the iterates of that update from \<open>X0\<close>, one per row, up to the first iterate that
  trips the guard: the rows before it are the iterates that did not trip it, and its row
  and the later ones stay unset.
\<close>

theorem C5_zero_closure:
  "(idempotent_rounding rnd \<longrightarrow>
      (list_all finite_fl X \<longrightarrow>
         np_polyval rnd [Fin 0] X = replicate (length X) (Fin 0)
         \<and> GCM_tendency rnd F [Fin 0] X = L96_eq1_xdot rnd X F)
      \<and> (\<not> fgt (Fin 0) dt \<or> list_all finite_fl X \<longrightarrow>
           GCM_step rnd F dt [Fin 0] X = Euler_update rnd F dt X
           \<and> EulerFwd rnd (\<lambda>X _. Inr (L96_eq1_xdot rnd X F)) dt X p
             = Inr (GCM_step rnd F dt [Fin 0] X))
      \<and> (X0 \<noteq> []
           \<and> (\<not> fgt (Fin 0) dt
              \<or> (\<forall>i<nt. list_all finite_fl ((Euler_update rnd F dt ^^ i) X0))) \<longrightarrow>
           (\<exists>m h ts. m \<le> nt \<and> GCM rnd X0 F dt nt [Fin 0] = Inr (h, ts) \<and> length h = nt
              \<and> (\<forall>i<m. h ! i = (Euler_update rnd F dt ^^ Suc i) X0
                         \<and> \<not> guard_trips ((Euler_update rnd F dt ^^ Suc i) X0))
              \<and> (\<forall>j. m \<le> j \<and> j < nt \<longrightarrow> h ! j = replicate (length X0) NaN)
              \<and> (m < nt \<longrightarrow> guard_trips ((Euler_update rnd F dt ^^ Suc m) X0)))))
   \<and> (k < length Y \<and> \<not> finite_fl (Y ! k) \<longrightarrow>
        np_polyval rnd [Fin 0] Y ! k = NaN \<and> GCM_tendency rnd F [Fin 0] Y ! k = NaN)"
proof (intro conjI impI)
  assume D: "idempotent_rounding rnd" and fin: "list_all finite_fl X"
  show zero: "np_polyval rnd [Fin 0] X = replicate (length X) (Fin 0)"
  proof (rule nth_equalityI)
    show "length (np_polyval rnd [Fin 0] X) = length (replicate (length X) (Fin 0))"
      by (simp add: length_np_polyval)
  next
    fix i assume "i < length (np_polyval rnd [Fin 0] X)"
    then have i: "i < length X" by (simp add: length_np_polyval)
    then have "finite_fl (X ! i)" using fin by (simp add: list_all_length)
    then obtain v where "X ! i = Fin v" by (auto simp: finite_fl_iff)
    then show "np_polyval rnd [Fin 0] X ! i = replicate (length X) (Fin 0) ! i"
      using i D by (simp add: np_polyval_zero_nth idempotent_rounding_def)
  qed
  show "GCM_tendency rnd F [Fin 0] X = L96_eq1_xdot rnd X F"
  proof (rule nth_equalityI)
    show "length (GCM_tendency rnd F [Fin 0] X) = length (L96_eq1_xdot rnd X F)"
      by (simp add: length_GCM_tendency length_L96_eq1_xdot)
  next
    fix i assume "i < length (GCM_tendency rnd F [Fin 0] X)"
    then have i: "i < length X" by (simp add: length_GCM_tendency)
    then have "finite_fl (X ! i)" using fin by (simp add: list_all_length)
    then have "\<exists>v. X ! i = Fin v" by (simp add: finite_fl_iff)
    then show "GCM_tendency rnd F [Fin 0] X ! i = L96_eq1_xdot rnd X F ! i"
      using GCM_tendency_zero_nth[of rnd i X F] i D by (simp add: idempotent_rounding_def)
  qed
next
  assume D: "idempotent_rounding rnd" and c: "\<not> fgt (Fin 0) dt \<or> list_all finite_fl X"
  show step: "GCM_step rnd F dt [Fin 0] X = Euler_update rnd F dt X"
    by (rule GCM_step_zero_Euler[OF D c])
  show "EulerFwd rnd (\<lambda>X _. Inr (L96_eq1_xdot rnd X F)) dt X p
      = Inr (GCM_step rnd F dt [Fin 0] X)"
    unfolding step
    by (simp add: EulerFwd_def ebind_def np_add_same length_L96_eq1_xdot np_scale_def
        Euler_update_def zip_map2 case_prod_unfold)
next
  assume D: "idempotent_rounding rnd"
    and a: "X0 \<noteq> []
           \<and> (\<not> fgt (Fin 0) dt
              \<or> (\<forall>i<nt. list_all finite_fl ((Euler_update rnd F dt ^^ i) X0)))"
  then have ne: "X0 \<noteq> []"
    and c: "\<not> fgt (Fin 0) dt \<or> (\<forall>i<nt. list_all finite_fl ((Euler_update rnd F dt ^^ i) X0))"
    by blast+
  note st = GCM_state_zero[OF D c]
  from GCM_char[OF ne, of nt rnd F dt "[Fin 0]"]
  obtain m h ts where m: "m \<le> nt" and run: "GCM rnd X0 F dt nt [Fin 0] = Inr (h, ts)"
    and len: "length h = nt"
    and filled: "\<forall>i<m. h ! i = GCM_state rnd F dt [Fin 0] X0 (Suc i)
                 \<and> \<not> guard_trips (GCM_state rnd F dt [Fin 0] X0 (Suc i))"
    and unset: "\<forall>j. m \<le> j \<and> j < nt \<longrightarrow> h ! j = replicate (length X0) NaN"
    and trip: "m < nt \<longrightarrow> guard_trips (GCM_state rnd F dt [Fin 0] X0 (Suc m))"
    by blast
  have f': "\<forall>i<m. h ! i = (Euler_update rnd F dt ^^ Suc i) X0
                 \<and> \<not> guard_trips ((Euler_update rnd F dt ^^ Suc i) X0)"
  proof (intro allI impI)
    fix i assume i: "i < m"
    then have "Suc i \<le> nt" using m by simp
    note e = st[OF this]
    from filled i have "h ! i = GCM_state rnd F dt [Fin 0] X0 (Suc i)
                 \<and> \<not> guard_trips (GCM_state rnd F dt [Fin 0] X0 (Suc i))" by blast
    then show "h ! i = (Euler_update rnd F dt ^^ Suc i) X0
                 \<and> \<not> guard_trips ((Euler_update rnd F dt ^^ Suc i) X0)" unfolding e .
  qed
  have t': "m < nt \<longrightarrow> guard_trips ((Euler_update rnd F dt ^^ Suc m) X0)"
  proof
    assume "m < nt"
    then have "Suc m \<le> nt" by simp
    note e = st[OF this]
    from trip \<open>m < nt\<close> have "guard_trips (GCM_state rnd F dt [Fin 0] X0 (Suc m))" by blast
    then show "guard_trips ((Euler_update rnd F dt ^^ Suc m) X0)" unfolding e .
  qed
  show "\<exists>m h ts. m \<le> nt \<and> GCM rnd X0 F dt nt [Fin 0] = Inr (h, ts) \<and> length h = nt
              \<and> (\<forall>i<m. h ! i = (Euler_update rnd F dt ^^ Suc i) X0
                         \<and> \<not> guard_trips ((Euler_update rnd F dt ^^ Suc i) X0))
              \<and> (\<forall>j. m \<le> j \<and> j < nt \<longrightarrow> h ! j = replicate (length X0) NaN)
              \<and> (m < nt \<longrightarrow> guard_trips ((Euler_update rnd F dt ^^ Suc m) X0))"
    using m run len f' unset t' by blast
next
  assume a: "k < length Y \<and> \<not> finite_fl (Y ! k)"
  then have k: "k < length Y" and nf: "\<forall>v. Y ! k \<noteq> Fin v" by (auto simp: finite_fl_iff)
  show p: "np_polyval rnd [Fin 0] Y ! k = NaN"
    using k zero_closure_non_finite[OF nf] by (simp add: np_polyval_zero_nth)
  show "GCM_tendency rnd F [Fin 0] Y ! k = NaN"
    using k p by (simp add: GCM_tendency_nth fsub_NaN)
qed

theorem C5_zero_closure_witness:
  "np_polyval Fin [Fin 0] [Fin 1, Fin 2, Fin 3, Fin 4] = replicate 4 (Fin 0)
   \<and> GCM_tendency Fin (Fin 8) [Fin 0] [Fin 1, Fin 2, Fin 3, Fin 4]
     = [Fin 3, Fin 5, Fin 11, Fin 1]
   \<and> GCM_step Fin (Fin 8) (Fin (1 / 2)) [Fin 0] [Fin 1, Fin 2, Fin 3, Fin 4]
     = [Fin (5 / 2), Fin (9 / 2), Fin (17 / 2), Fin (9 / 2)]
   \<and> EulerFwd Fin (\<lambda>X _. Inr (L96_eq1_xdot Fin X (Fin 8))) (Fin (1 / 2))
        [Fin 1, Fin 2, Fin 3, Fin 4] ()
     = Inr [Fin (5 / 2), Fin (9 / 2), Fin (17 / 2), Fin (9 / 2)]
   \<and> (\<exists>ts. GCM Fin [Fin 1, Fin 2, Fin 3, Fin 4] (Fin 8) (Fin (1 / 2)) 2 [Fin 0]
         = Inr ([[Fin (5 / 2), Fin (9 / 2), Fin (17 / 2), Fin (9 / 2)],
                 [Fin (- 15 / 4), Fin (45 / 4), Fin (51 / 4), Fin (- 9 / 4)]], ts))
   \<and> np_polyval Fin [Fin 0] [PInf, Fin 0, Fin 0, Fin 0, Fin 0] ! 0 = NaN
   \<and> GCM_tendency Fin (Fin 8) [Fin 0] [PInf, Fin 0, Fin 0, Fin 0, Fin 0] ! 0 = NaN"
proof -
  let ?X = "[Fin 1, Fin 2, Fin 3, Fin 4]"
  let ?X1 = "[Fin (5 / 2), Fin (9 / 2), Fin (17 / 2), Fin (9 / 2)]"
  let ?X2 = "[Fin (- 15 / 4), Fin (45 / 4), Fin (51 / 4), Fin (- 9 / 4)]"
  let ?Y = "[PInf, Fin 0, Fin 0, Fin 0, Fin 0]"
  note T = C5_zero_closure[of Fin ?X "Fin 8" "Fin (1 / 2)" "()" ?X 2 0 ?Y]
  have D: "idempotent_rounding Fin" by (simp add: idempotent_rounding_def)
  have fin: "list_all finite_fl ?X" by simp
  have dt: "\<not> fgt (Fin 0) (Fin (1 / 2)) \<or> list_all finite_fl ?X" by simp
  have run: "?X \<noteq> [] \<and> (\<not> fgt (Fin 0) (Fin (1 / 2))
      \<or> (\<forall>i<2. list_all finite_fl ((Euler_update Fin (Fin 8) (Fin (1 / 2)) ^^ i) ?X)))"
    by simp
  have nf: "0 < length ?Y \<and> \<not> finite_fl (?Y ! 0)" by simp
  have x: "L96_eq1_xdot Fin ?X (Fin 8) = [Fin 3, Fin 5, Fin 11, Fin 1]"
    by (simp add: L96_eq1_xdot_def cyc_def upt_conv_Cons del: upt_Suc)
  have e1: "Euler_update Fin (Fin 8) (Fin (1 / 2)) ?X = ?X1"
    by (simp add: Euler_update_def x)
  have x1: "L96_eq1_xdot Fin ?X1 (Fin 8) = [Fin (- 25 / 2), Fin (27 / 2), Fin (17 / 2), Fin (- 27 / 2)]"
    by (simp add: L96_eq1_xdot_def cyc_def upt_conv_Cons del: upt_Suc)
  have e2: "Euler_update Fin (Fin 8) (Fin (1 / 2)) ?X1 = ?X2"
    by (simp add: Euler_update_def x1)
  note A = T[THEN conjunct1, THEN mp, OF D]
  note g12 = A[THEN conjunct1, THEN mp, OF fin]
  note g34 = A[THEN conjunct2, THEN conjunct1, THEN mp, OF dt]
  note g67 = T[THEN conjunct2, THEN mp, OF nf]
  have g1: "np_polyval Fin [Fin 0] ?X = replicate 4 (Fin 0)"
    using g12[THEN conjunct1] by (simp add: eval_nat_numeral)
  have g2: "GCM_tendency Fin (Fin 8) [Fin 0] ?X = [Fin 3, Fin 5, Fin 11, Fin 1]"
    using g12[THEN conjunct2] x by simp
  have g3: "GCM_step Fin (Fin 8) (Fin (1 / 2)) [Fin 0] ?X = ?X1"
    using g34[THEN conjunct1] e1 by simp
  have g4: "EulerFwd Fin (\<lambda>X _. Inr (L96_eq1_xdot Fin X (Fin 8))) (Fin (1 / 2)) ?X () = Inr ?X1"
    using g34[THEN conjunct2] g3 by simp
  from A[THEN conjunct2, THEN conjunct2, THEN mp, OF run]
  obtain m h ts where m: "m \<le> 2"
    and r: "GCM Fin ?X (Fin 8) (Fin (1 / 2)) 2 [Fin 0] = Inr (h, ts)" and len: "length h = 2"
    and filled: "\<forall>i<m. h ! i = (Euler_update Fin (Fin 8) (Fin (1 / 2)) ^^ Suc i) ?X
                   \<and> \<not> guard_trips ((Euler_update Fin (Fin 8) (Fin (1 / 2)) ^^ Suc i) ?X)"
    and trip: "m < 2 \<longrightarrow> guard_trips ((Euler_update Fin (Fin 8) (Fin (1 / 2)) ^^ Suc m) ?X)"
    by blast
  have n0: "\<not> guard_trips ((Euler_update Fin (Fin 8) (Fin (1 / 2)) ^^ Suc 0) ?X)"
    by (simp add: e1 guard_trips_def exceeds_def)
  have n1: "\<not> guard_trips ((Euler_update Fin (Fin 8) (Fin (1 / 2)) ^^ Suc (Suc 0)) ?X)"
    by (simp add: e1 e2 guard_trips_def exceeds_def)
  have "m \<noteq> 0"
  proof
    assume z: "m = 0"
    then have "m < 2" by simp
    with trip have "guard_trips ((Euler_update Fin (Fin 8) (Fin (1 / 2)) ^^ Suc m) ?X)"
      by blast
    then have "guard_trips ((Euler_update Fin (Fin 8) (Fin (1 / 2)) ^^ Suc 0) ?X)"
      unfolding z .
    with n0 show False by blast
  qed
  moreover have "m \<noteq> Suc 0"
  proof
    assume z: "m = Suc 0"
    then have "m < 2" by simp
    with trip have "guard_trips ((Euler_update Fin (Fin 8) (Fin (1 / 2)) ^^ Suc m) ?X)"
      by blast
    then have "guard_trips ((Euler_update Fin (Fin 8) (Fin (1 / 2)) ^^ Suc (Suc 0)) ?X)"
      unfolding z .
    with n1 show False by blast
  qed
  ultimately have m2: "m = 2" using m by arith
  have h0: "h ! 0 = ?X1" using filled m2 e1 by simp
  have "h ! Suc 0 = (Euler_update Fin (Fin 8) (Fin (1 / 2)) ^^ Suc (Suc 0)) ?X"
    using filled m2 by simp
  then have h1: "h ! Suc 0 = ?X2" by (simp add: e1 e2)
  have "h = [h ! 0, h ! Suc 0]"
    using len by (intro nth_equalityI) (auto simp: less_Suc_eq eval_nat_numeral)
  then have "h = [?X1, ?X2]" using h0 h1 by simp
  then have g5: "\<exists>ts. GCM Fin ?X (Fin 8) (Fin (1 / 2)) 2 [Fin 0] = Inr ([?X1, ?X2], ts)"
    using r by simp
  from g1 g2 g3 g4 g5 g67[THEN conjunct1] g67[THEN conjunct2]
  show ?thesis by (intro conjI)
qed

theorem C5_counterexample:
  "np_polyval Fin [Fin 0] [PInf, Fin 0, Fin 0, Fin 0, Fin 0]
     = [NaN, Fin 0, Fin 0, Fin 0, Fin 0]
   \<and> L96_eq1_xdot Fin [PInf, Fin 0, Fin 0, Fin 0, Fin 0] (Fin 8) = [MInf, NaN, NaN, Fin 8, NaN]
   \<and> GCM_tendency Fin (Fin 8) [Fin 0] [PInf, Fin 0, Fin 0, Fin 0, Fin 0]
     = [NaN, NaN, NaN, Fin 8, NaN]
   \<and> GCM Fin [PInf, Fin 0, Fin 0, Fin 0, Fin 0] (Fin 8) (Fin (- 1)) 1 [Fin 0]
     = Inr ([[NaN, NaN, NaN, Fin (- 8), NaN]], [Fin (- 1)])
   \<and> Euler_update Fin (Fin 8) (Fin (- 1)) [PInf, Fin 0, Fin 0, Fin 0, Fin 0]
     = [PInf, NaN, NaN, Fin (- 8), NaN]"
proof -
  let ?X = "[PInf, Fin 0, Fin 0, Fin 0, Fin 0]"
  have p: "np_polyval Fin [Fin 0] ?X = [NaN, Fin 0, Fin 0, Fin 0, Fin 0]"
    by (simp add: np_polyval_def)
  have x: "L96_eq1_xdot Fin ?X (Fin 8) = [MInf, NaN, NaN, Fin 8, NaN]"
    by (simp add: L96_eq1_xdot_def cyc_def fsub_def upt_conv_Cons del: upt_Suc)
  have t: "GCM_tendency Fin (Fin 8) [Fin 0] ?X = [NaN, NaN, NaN, Fin 8, NaN]"
    by (simp add: GCM_tendency_def p x fsub_def)
  have s: "GCM_step Fin (Fin 8) (Fin (- 1)) [Fin 0] ?X = [NaN, NaN, NaN, Fin (- 8), NaN]"
    by (simp add: GCM_step_def t)
  have g: "GCM Fin ?X (Fin 8) (Fin (- 1)) 1 [Fin 0]
      = Inr ([[NaN, NaN, NaN, Fin (- 8), NaN]], [Fin (- 1)])"
    by (simp add: GCM_def s np_nan_matrix_def np_arange_scaled_def np_set_row_def
        np_set_item_def fmax_def Let_def)
  have e: "Euler_update Fin (Fin 8) (Fin (- 1)) ?X = [PInf, NaN, NaN, Fin (- 8), NaN]"
    by (simp add: Euler_update_def x)
  from p x t g e show ?thesis by (intro conjI)
qed

text \<open>
  C6 (code bug). The claim asks that consecutive entries of the returned time sequence
  differ by exactly \<open>dt\<close>, also for a run that the divergence guard ends early. \<open>GCM\<close>
  creates the sequence as \<open>dt * np.arange(nt)\<close>, that is \<open>0, dt, 2 dt, ...\<close>, and writes
  \<open>dt * (n + 1)\<close> to entry \<open>n\<close> after a step that passes the guard. On four slow variables
  at rest with \<open>F = 300\<close>, \<open>dt = 3\<close> and \<open>nt = 4\<close> the third step trips the guard: the
  entries of the two stored rows are \<open>3\<close> and \<open>6\<close>, the entries of the two unset rows keep
  their initial \<open>6\<close> and \<open>9\<close>, and the time \<open>6\<close> stands twice. Every number of this run
  is an integer below \<open>10000\<close>, which no float operation rounds.
\<close>

theorem C6_time_spacing_broken:
  "GCM Fin [Fin 0, Fin 0, Fin 0, Fin 0] (Fin 300) (Fin 3) 4 [Fin 0]
     = Inr ([[Fin 900, Fin 900, Fin 900, Fin 900],
             [Fin (- 900), Fin (- 900), Fin (- 900), Fin (- 900)],
             [NaN, NaN, NaN, NaN],
             [NaN, NaN, NaN, NaN]],
            [Fin 3, Fin 6, Fin 6, Fin 9])
   \<and> fsub Fin ([Fin 3, Fin 6, Fin 6, Fin 9] ! 2) ([Fin 3, Fin 6, Fin 6, Fin 9] ! 1) \<noteq> Fin 3"
proof -
  have s: "\<And>x. GCM_step Fin (Fin 300) (Fin 3) [Fin 0] [Fin x, Fin x, Fin x, Fin x]
      = [Fin (x + 3 * (300 - x)), Fin (x + 3 * (300 - x)), Fin (x + 3 * (300 - x)),
         Fin (x + 3 * (300 - x))]"
    by (simp add: GCM_step_def GCM_tendency_def L96_eq1_xdot_def cyc_def np_polyval_def
        upt_conv_Cons del: upt_Suc)
  show ?thesis
    by (simp add: GCM_def s np_nan_matrix_def np_arange_scaled_def np_set_row_def
        np_set_item_def fmax_def Let_def upt_conv_Cons eval_nat_numeral del: upt_Suc)
qed

text \<open>
  C7 (confirmed). What a run returns is determined by the contents of \<open>X0\<close> (and, for
  \<open>GCM\<close>, of \<open>param\<close>), by \<open>F\<close>, \<open>dt\<close> and \<open>nt\<close> and by the closure: two runs of a driver
  from any two stores in which \<open>X0\<close> and \<open>param\<close> hold the same values return the same
  history and the same time sequence, or raise the same error. Nothing else in the
  store, and nothing an earlier run left there, has an influence: a second run from the
  store that a first run left returns arrays with the same contents, and the arrays of
  the first run are unchanged by it.
\<close>

theorem C7_reproducible:
  "(get_vec s1 a1 = Inr x0 \<and> get_vec s2 a2 = Inr x0
      \<and> get_vec s1 b1 = Inr p \<and> get_vec s2 b2 = Inr p
      \<longrightarrow> returned (GCM_st rnd a1 F dt nt b1 s1) = returned (GCM_st rnd a2 F dt nt b2 s2))
   \<and> (get_vec s1 a1 = Inr x0 \<and> get_vec s2 a2 = Inr x0
      \<longrightarrow> returned (GCM_without_parameterization_call_st rnd g a1 dt nt q s1)
        = returned (GCM_without_parameterization_call_st rnd g a2 dt nt q s2))
   \<and> (get_vec s1 a1 = Inr x0 \<and> get_vec s2 a2 = Inr x0
      \<longrightarrow> returned (GCM_network_call_st rnd w a1 dt nt r s1)
        = returned (GCM_network_call_st rnd w a2 dt nt r s2))
   \<and> (get_vec s1 a1 = Inr x0 \<and> get_vec s1 b1 = Inr p
      \<and> GCM_st rnd a1 F dt nt b1 s1 = Inr ((h, t), s')
      \<longrightarrow> (\<exists>h2 t2 s''. GCM_st rnd a1 F dt nt b1 s' = Inr ((h2, t2), s'')
             \<and> s'' ! h2 = s' ! h \<and> s'' ! t2 = s' ! t \<and> s'' ! h = s' ! h \<and> s'' ! t = s' ! t))
   \<and> (get_vec s1 a1 = Inr x0
      \<and> GCM_without_parameterization_call_st rnd g a1 dt nt q s1 = Inr ((h, t), s')
      \<longrightarrow> (\<exists>h2 t2 s''. GCM_without_parameterization_call_st rnd g a1 dt nt q s' = Inr ((h2, t2), s'')
             \<and> s'' ! h2 = s' ! h \<and> s'' ! t2 = s' ! t \<and> s'' ! h = s' ! h \<and> s'' ! t = s' ! t))
   \<and> (get_vec s1 a1 = Inr x0
      \<and> GCM_network_call_st rnd w a1 dt nt r s1 = Inr ((h, t), s')
      \<longrightarrow> (\<exists>h2 t2 s''. GCM_network_call_st rnd w a1 dt nt r s' = Inr ((h2, t2), s'')
             \<and> s'' ! h2 = s' ! h \<and> s'' ! t2 = s' ! t \<and> s'' ! h = s' ! h \<and> s'' ! t = s' ! t))"
proof (intro conjI impI; elim conjE)
  assume "get_vec s1 a1 = Inr x0" "get_vec s2 a2 = Inr x0"
    "get_vec s1 b1 = Inr p" "get_vec s2 b2 = Inr p"
  then show "returned (GCM_st rnd a1 F dt nt b1 s1) = returned (GCM_st rnd a2 F dt nt b2 s2)"
    by (simp add: GCM_st_refines)
next
  assume "get_vec s1 a1 = Inr x0" "get_vec s2 a2 = Inr x0"
  then show "returned (GCM_without_parameterization_call_st rnd g a1 dt nt q s1)
        = returned (GCM_without_parameterization_call_st rnd g a2 dt nt q s2)"
    by (simp add: GCM_without_parameterization_call_st_def call_st_body_refines)
next
  assume "get_vec s1 a1 = Inr x0" "get_vec s2 a2 = Inr x0"
  then show "returned (GCM_network_call_st rnd w a1 dt nt r s1)
        = returned (GCM_network_call_st rnd w a2 dt nt r s2)"
    by (simp add: GCM_network_call_st_def call_st_body_refines)
next
  assume "get_vec s1 a1 = Inr x0" "get_vec s1 b1 = Inr p"
    "GCM_st rnd a1 F dt nt b1 s1 = Inr ((h, t), s')"
  then show "\<exists>h2 t2 s''. GCM_st rnd a1 F dt nt b1 s' = Inr ((h2, t2), s'')
             \<and> s'' ! h2 = s' ! h \<and> s'' ! t2 = s' ! t \<and> s'' ! h = s' ! h \<and> s'' ! t = s' ! t"
    by (rule GCM_st_rerun)
next
  assume "get_vec s1 a1 = Inr x0"
    "GCM_without_parameterization_call_st rnd g a1 dt nt q s1 = Inr ((h, t), s')"
  then show "\<exists>h2 t2 s''. GCM_without_parameterization_call_st rnd g a1 dt nt q s' = Inr ((h2, t2), s'')
             \<and> s'' ! h2 = s' ! h \<and> s'' ! t2 = s' ! t \<and> s'' ! h = s' ! h \<and> s'' ! t = s' ! t"
    unfolding GCM_without_parameterization_call_st_def by (rule call_st_body_rerun)
next
  assume "get_vec s1 a1 = Inr x0"
    "GCM_network_call_st rnd w a1 dt nt r s1 = Inr ((h, t), s')"
  then show "\<exists>h2 t2 s''. GCM_network_call_st rnd w a1 dt nt r s' = Inr ((h2, t2), s'')
             \<and> s'' ! h2 = s' ! h \<and> s'' ! t2 = s' ! t \<and> s'' ! h = s' ! h \<and> s'' ! t = s' ! t"
    unfolding GCM_network_call_st_def by (rule call_st_body_rerun)
qed

theorem C7_reproducible_witness:
  "returned (GCM_st Fin 0 (Fin 300) (Fin 3) 4 1 [Vec [Fin 0], Vec [Fin 0]])
     = returned (GCM_st Fin 2 (Fin 300) (Fin 3) 4 1 [Vec [Fin 5], Vec [Fin 0], Vec [Fin 0]])
   \<and> returned (GCM_without_parameterization_call_st Fin
         \<lparr>self_F = Fin 3000, self_time_stepping = RK4 Fin\<rparr> 0 (Fin 3) 4 [0 :: real]
         [Vec [Fin 0], Vec [Fin 0]])
     = returned (GCM_without_parameterization_call_st Fin
         \<lparr>self_F = Fin 3000, self_time_stepping = RK4 Fin\<rparr> 2 (Fin 3) 4 [0 :: real]
         [Vec [Fin 5], Vec [Fin 0], Vec [Fin 0]])
   \<and> returned (GCM_network_call_st Fin
         \<lparr>self_F = Fin 2, self_time_stepping = EulerFwd Fin,
           self_network = bias_network (Fin 1)\<rparr>
         0 (Fin 3) 4 () [Vec [Fin 0], Vec [Fin 0]])
     = returned (GCM_network_call_st Fin
         \<lparr>self_F = Fin 2, self_time_stepping = EulerFwd Fin,
           self_network = bias_network (Fin 1)\<rparr>
         2 (Fin 3) 4 () [Vec [Fin 5], Vec [Fin 0], Vec [Fin 0]])
   \<and> (\<exists>h2 t2 s''.
         GCM_st Fin 0 (Fin 300) (Fin 3) 4 1
           [Vec [Fin 0], Vec [Fin 0], Vec [Fin 3, Fin 6, Fin 6, Fin 9],
            Mat [[Fin 900], [Fin (- 900)], [NaN], [NaN]], Vec [Fin 0], Vec [Fin 900],
            Vec [Fin (- 900)], Vec [Fin 2700]]
           = Inr ((h2, t2), s'')
         \<and> s'' ! h2 = Mat [[Fin 900], [Fin (- 900)], [NaN], [NaN]]
         \<and> s'' ! t2 = Vec [Fin 3, Fin 6, Fin 6, Fin 9]
         \<and> s'' ! 3 = Mat [[Fin 900], [Fin (- 900)], [NaN], [NaN]]
         \<and> s'' ! 2 = Vec [Fin 3, Fin 6, Fin 6, Fin 9])
   \<and> (\<exists>h2 t2 s''.
         GCM_without_parameterization_call_st Fin
           \<lparr>self_F = Fin 3000, self_time_stepping = RK4 Fin\<rparr> 0 (Fin 1) 2 [0 :: real]
           [Vec [Fin 0], Vec [Fin 0, Fin 1, Fin 2],
            Mat [[Fin 0], [Fin 1875], [Fin (20625 / 8)]], Vec [Fin 0],
            Vec [Fin 1875], Vec [Fin (20625 / 8)]]
           = Inr ((h2, t2), s'')
         \<and> s'' ! h2 = Mat [[Fin 0], [Fin 1875], [Fin (20625 / 8)]]
         \<and> s'' ! t2 = Vec [Fin 0, Fin 1, Fin 2])
   \<and> (\<exists>h2 t2 s''.
         GCM_network_call_st Fin
           \<lparr>self_F = Fin 2, self_time_stepping = EulerFwd Fin,
             self_network = bias_network (Fin 1)\<rparr>
           0 (Fin 1) 2 ()
           [Vec [Fin 1], Vec [Fin 0, Fin 1, Fin 2], Mat [[Fin 1], [Fin 3], [Fin 3]],
            Vec [Fin 1], Vec [Fin 3], Vec [Fin 3]]
           = Inr ((h2, t2), s'')
         \<and> s'' ! h2 = Mat [[Fin 1], [Fin 3], [Fin 3]]
         \<and> s'' ! t2 = Vec [Fin 0, Fin 1, Fin 2])"
proof -
  let ?g = "\<lparr>self_F = Fin 3000, self_time_stepping = RK4 Fin\<rparr>
              :: real list GCM_without_parameterization"
  let ?w = "\<lparr>self_F = Fin 2, self_time_stepping = EulerFwd Fin,
              self_network = bias_network (Fin 1)\<rparr> :: unit GCM_network"
  let ?s1 = "[Vec [Fin 0], Vec [Fin 0]]" and ?s2 = "[Vec [Fin 5], Vec [Fin 0], Vec [Fin 0]]"
  let ?S = "[Vec [Fin 0], Vec [Fin 0], Vec [Fin 3, Fin 6, Fin 6, Fin 9],
            Mat [[Fin 900], [Fin (- 900)], [NaN], [NaN]], Vec [Fin 0], Vec [Fin 900],
            Vec [Fin (- 900)], Vec [Fin 2700]]"
  let ?Sg = "[Vec [Fin 0], Vec [Fin 0, Fin 1, Fin 2],
            Mat [[Fin 0], [Fin 1875], [Fin (20625 / 8)]], Vec [Fin 0],
            Vec [Fin 1875], Vec [Fin (20625 / 8)]]"
  let ?Sw = "[Vec [Fin 1], Vec [Fin 0, Fin 1, Fin 2], Mat [[Fin 1], [Fin 3], [Fin 3]],
            Vec [Fin 1], Vec [Fin 3], Vec [Fin 3]]"
  have v1: "get_vec ?s1 0 = Inr [Fin 0] \<and> get_vec ?s2 2 = Inr [Fin 0]
      \<and> get_vec ?s1 1 = Inr [Fin 0] \<and> get_vec ?s2 1 = Inr [Fin 0]"
    by (simp add: get_vec_def)
  have v2: "get_vec ?s1 0 = Inr [Fin 0] \<and> get_vec ?s2 2 = Inr [Fin 0]"
    by (simp add: get_vec_def)
  note A = C7_reproducible[of ?s1 0 "[Fin 0]" ?s2 2 1 "[Fin 0]" 1 Fin "Fin 300" "Fin 3" 4
      ?g "[0]" ?w "()"]
  note g1 = A[THEN conjunct1, THEN mp, OF v1]
  note g2 = A[THEN conjunct2, THEN conjunct1, THEN mp, OF v2]
  note g3 = A[THEN conjunct2, THEN conjunct2, THEN conjunct1, THEN mp, OF v2]
  have v4: "get_vec ?s1 0 = Inr [Fin 0] \<and> get_vec ?s1 1 = Inr [Fin 0]
      \<and> GCM_st Fin 0 (Fin 300) (Fin 3) 4 1 ?s1 = Inr ((3, 2), ?S)"
    using GCM_st_example by (simp add: get_vec_def)
  from C7_reproducible[of ?s1 0 "[Fin 0]" ?s2 2 1 "[Fin 0]" 1 Fin "Fin 300" "Fin 3" 4
      ?g "[0]" ?w "()" 3 2 ?S,
      THEN conjunct2, THEN conjunct2, THEN conjunct2, THEN conjunct1, THEN mp, OF v4]
  have g4: "\<exists>h2 t2 s''. GCM_st Fin 0 (Fin 300) (Fin 3) 4 1 ?S = Inr ((h2, t2), s'')
         \<and> s'' ! h2 = Mat [[Fin 900], [Fin (- 900)], [NaN], [NaN]]
         \<and> s'' ! t2 = Vec [Fin 3, Fin 6, Fin 6, Fin 9]
         \<and> s'' ! 3 = Mat [[Fin 900], [Fin (- 900)], [NaN], [NaN]]
         \<and> s'' ! 2 = Vec [Fin 3, Fin 6, Fin 6, Fin 9]"
    by simp
  have v5: "get_vec [Vec [Fin 0]] 0 = Inr [Fin 0]
      \<and> GCM_without_parameterization_call_st Fin ?g 0 (Fin 1) 2 [0] [Vec [Fin 0]]
        = Inr ((2, 1), ?Sg)"
    using call_st_example by (simp add: get_vec_def)
  from C7_reproducible[of "[Vec [Fin 0]]" 0 "[Fin 0]" ?s2 2 1 "[Fin 0]" 1 Fin "Fin 300"
      "Fin 1" 2 ?g "[0]" ?w "()" 2 1 ?Sg,
      THEN conjunct2, THEN conjunct2, THEN conjunct2, THEN conjunct2, THEN conjunct1,
      THEN mp, OF v5]
  have g5: "\<exists>h2 t2 s''. GCM_without_parameterization_call_st Fin ?g 0 (Fin 1) 2 [0] ?Sg
           = Inr ((h2, t2), s'')
         \<and> s'' ! h2 = Mat [[Fin 0], [Fin 1875], [Fin (20625 / 8)]]
         \<and> s'' ! t2 = Vec [Fin 0, Fin 1, Fin 2]"
    by simp blast
  have v6: "get_vec [Vec [Fin 1]] 0 = Inr [Fin 1]
      \<and> GCM_network_call_st Fin ?w 0 (Fin 1) 2 () [Vec [Fin 1]] = Inr ((2, 1), ?Sw)"
    using call_st_network_example by (simp add: get_vec_def)
  from C7_reproducible[of "[Vec [Fin 1]]" 0 "[Fin 1]" ?s2 2 1 "[Fin 0]" 1 Fin "Fin 300"
      "Fin 1" 2 ?g "[0]" ?w "()" 2 1 ?Sw,
      THEN conjunct2, THEN conjunct2, THEN conjunct2, THEN conjunct2, THEN conjunct2,
      THEN mp, OF v6]
  have g6: "\<exists>h2 t2 s''. GCM_network_call_st Fin ?w 0 (Fin 1) 2 () ?Sw = Inr ((h2, t2), s'')
         \<and> s'' ! h2 = Mat [[Fin 1], [Fin 3], [Fin 3]]
         \<and> s'' ! t2 = Vec [Fin 0, Fin 1, Fin 2]"
    by simp blast
  from g1 g2 g3 g4 g5 g6 show ?thesis by (intro conjI)
qed

text \<open>
  C8 (confirmed). When a run of \<open>GCM\<close>, of \<open>GCM_without_parameterization\<close> or of
  \<open>GCM_network\<close> returns, every array that existed before the call, the caller's \<open>X0\<close>
  among them, holds what it held before: the drivers write to the two buffers they
  created and to nothing else. The loop works on a copy of \<open>X0\<close>, a new array that still
  holds the values of \<open>X0\<close> when the run returns. Each step makes a new array for its
  state: whatever the remaining steps of a loop do, every array but the two buffers,
  the states of the earlier steps among them, is left as it was.
\<close>

theorem C8_X0_unchanged:
  "(GCM_st rnd X0 F dt nt param s = Inr ((h, t), s') \<longrightarrow>
      (\<forall>a<length s. s' ! a = s ! a)
      \<and> (\<forall>x0. get_vec s X0 = Inr x0 \<longrightarrow>
            get_vec s' X0 = Inr x0 \<and> s' ! Suc (Suc (length s)) = Vec x0))
   \<and> (GCM_without_parameterization_call_st rnd g X0 dt nt q s = Inr ((h, t), s') \<longrightarrow>
      (\<forall>a<length s. s' ! a = s ! a)
      \<and> (\<forall>x0. get_vec s X0 = Inr x0 \<longrightarrow>
            get_vec s' X0 = Inr x0 \<and> s' ! Suc (Suc (length s)) = Vec x0))
   \<and> (GCM_network_call_st rnd w X0 dt nt r s = Inr ((h, t), s') \<longrightarrow>
      (\<forall>a<length s. s' ! a = s ! a)
      \<and> (\<forall>x0. get_vec s X0 = Inr x0 \<longrightarrow>
            get_vec s' X0 = Inr x0 \<and> s' ! Suc (Suc (length s)) = Vec x0))
   \<and> (GCM_st_loop rnd F dt param ns X h t s = Inr s' \<longrightarrow>
      (\<forall>a<length s. a \<noteq> h \<longrightarrow> a \<noteq> t \<longrightarrow> s' ! a = s ! a))
   \<and> (call_st_loop rnd stp dt ns X h t s = Inr s' \<longrightarrow>
      (\<forall>a<length s. a \<noteq> h \<longrightarrow> a \<noteq> t \<longrightarrow> s' ! a = s ! a))"
proof -
  have body: "(\<forall>a<length s. s' ! a = s ! a)
      \<and> (\<forall>x0. get_vec s X0 = Inr x0 \<longrightarrow>
            get_vec s' X0 = Inr x0 \<and> s' ! Suc (Suc (length s)) = Vec x0)"
    if fr: "Suc (Suc (Suc (length s))) \<le> length s' \<and> (\<forall>a<length s. s' ! a = s ! a)
       \<and> (\<exists>x0. get_vec (s @ [Vec tv]) X0 = Inr x0 \<and> s' ! Suc (Suc (length s)) = Vec x0)"
    for tv
  proof (intro conjI allI impI)
    fix a assume "a < length s" then show "s' ! a = s ! a" using fr by simp
  next
    fix x0 assume g: "get_vec s X0 = Inr x0"
    then show "get_vec s' X0 = Inr x0" using fr by (auto simp: get_vec_iff)
    from g have "get_vec (s @ [Vec tv]) X0 = Inr x0" by (simp add: get_vec_iff nth_append)
    then show "s' ! Suc (Suc (length s)) = Vec x0" using fr by auto
  qed
  have c1: "GCM_st rnd X0 F dt nt param s = Inr ((h, t), s') \<longrightarrow>
      (\<forall>a<length s. s' ! a = s ! a)
      \<and> (\<forall>x0. get_vec s X0 = Inr x0 \<longrightarrow>
            get_vec s' X0 = Inr x0 \<and> s' ! Suc (Suc (length s)) = Vec x0)"
  proof
    assume "GCM_st rnd X0 F dt nt param s = Inr ((h, t), s')"
    from GCM_st_frame[OF this] show "(\<forall>a<length s. s' ! a = s ! a)
      \<and> (\<forall>x0. get_vec s X0 = Inr x0 \<longrightarrow>
            get_vec s' X0 = Inr x0 \<and> s' ! Suc (Suc (length s)) = Vec x0)"
      by (intro body) blast
  qed
  have c2: "GCM_without_parameterization_call_st rnd g X0 dt nt q s = Inr ((h, t), s') \<longrightarrow>
      (\<forall>a<length s. s' ! a = s ! a)
      \<and> (\<forall>x0. get_vec s X0 = Inr x0 \<longrightarrow>
            get_vec s' X0 = Inr x0 \<and> s' ! Suc (Suc (length s)) = Vec x0)"
  proof
    assume "GCM_without_parameterization_call_st rnd g X0 dt nt q s = Inr ((h, t), s')"
    from call_st_body_frame[OF this[unfolded GCM_without_parameterization_call_st_def]]
    show "(\<forall>a<length s. s' ! a = s ! a)
      \<and> (\<forall>x0. get_vec s X0 = Inr x0 \<longrightarrow>
            get_vec s' X0 = Inr x0 \<and> s' ! Suc (Suc (length s)) = Vec x0)"
      by (intro body) blast
  qed
  have c3: "GCM_network_call_st rnd w X0 dt nt r s = Inr ((h, t), s') \<longrightarrow>
      (\<forall>a<length s. s' ! a = s ! a)
      \<and> (\<forall>x0. get_vec s X0 = Inr x0 \<longrightarrow>
            get_vec s' X0 = Inr x0 \<and> s' ! Suc (Suc (length s)) = Vec x0)"
  proof
    assume "GCM_network_call_st rnd w X0 dt nt r s = Inr ((h, t), s')"
    from call_st_body_frame[OF this[unfolded GCM_network_call_st_def]]
    show "(\<forall>a<length s. s' ! a = s ! a)
      \<and> (\<forall>x0. get_vec s X0 = Inr x0 \<longrightarrow>
            get_vec s' X0 = Inr x0 \<and> s' ! Suc (Suc (length s)) = Vec x0)"
      by (intro body) blast
  qed
  have c4: "GCM_st_loop rnd F dt param ns X h t s = Inr s' \<longrightarrow>
      (\<forall>a<length s. a \<noteq> h \<longrightarrow> a \<noteq> t \<longrightarrow> s' ! a = s ! a)"
    using GCM_st_loop_frame by blast
  have c5: "call_st_loop rnd stp dt ns X h t s = Inr s' \<longrightarrow>
      (\<forall>a<length s. a \<noteq> h \<longrightarrow> a \<noteq> t \<longrightarrow> s' ! a = s ! a)"
    using call_st_loop_frame by blast
  from c1 c2 c3 c4 c5 show ?thesis by (intro conjI)
qed

theorem C8_X0_unchanged_witness:
  "GCM_st Fin 0 (Fin 300) (Fin 3) 4 1 [Vec [Fin 0], Vec [Fin 0]]
     = Inr ((3, 2),
        [Vec [Fin 0], Vec [Fin 0], Vec [Fin 3, Fin 6, Fin 6, Fin 9],
         Mat [[Fin 900], [Fin (- 900)], [NaN], [NaN]], Vec [Fin 0], Vec [Fin 900],
         Vec [Fin (- 900)], Vec [Fin 2700]])
   \<and> get_vec [Vec [Fin 0], Vec [Fin 0], Vec [Fin 3, Fin 6, Fin 6, Fin 9],
         Mat [[Fin 900], [Fin (- 900)], [NaN], [NaN]], Vec [Fin 0], Vec [Fin 900],
         Vec [Fin (- 900)], Vec [Fin 2700]] 0 = Inr [Fin 0]
   \<and> GCM_without_parameterization_call_st Fin
       \<lparr>self_F = Fin 3000, self_time_stepping = RK4 Fin\<rparr> 0 (Fin 1) 2 [0 :: real] [Vec [Fin 0]]
     = Inr ((2, 1),
        [Vec [Fin 0], Vec [Fin 0, Fin 1, Fin 2], Mat [[Fin 0], [Fin 1875], [Fin (20625 / 8)]], Vec [Fin 0],
         Vec [Fin 1875], Vec [Fin (20625 / 8)]])
   \<and> get_vec [Vec [Fin 0], Vec [Fin 0, Fin 1, Fin 2], Mat [[Fin 0], [Fin 1875], [Fin (20625 / 8)]], Vec [Fin 0],
         Vec [Fin 1875], Vec [Fin (20625 / 8)]] 0 = Inr [Fin 0]
   \<and> GCM_network_call_st Fin
       \<lparr>self_F = Fin 2, self_time_stepping = EulerFwd Fin,
         self_network = bias_network (Fin 1)\<rparr>
       0 (Fin 1) 2 () [Vec [Fin 1]]
     = Inr ((2, 1),
        [Vec [Fin 1], Vec [Fin 0, Fin 1, Fin 2], Mat [[Fin 1], [Fin 3], [Fin 3]], Vec [Fin 1],
         Vec [Fin 3], Vec [Fin 3]])
   \<and> get_vec [Vec [Fin 1], Vec [Fin 0, Fin 1, Fin 2], Mat [[Fin 1], [Fin 3], [Fin 3]], Vec [Fin 1],
         Vec [Fin 3], Vec [Fin 3]] 0 = Inr [Fin 1]
   \<and> GCM_st_loop Fin (Fin 300) (Fin 3) 1 [0] 0 2 3 [Vec [Fin 0], Vec [Fin 0], Mat [[NaN]], Vec [Fin 0]]
     = Inr [Vec [Fin 0], Vec [Fin 0], Mat [[Fin 900]], Vec [Fin 3], Vec [Fin 900]]
   \<and> [Vec [Fin 0], Vec [Fin 0], Mat [[Fin 900]], Vec [Fin 3], Vec [Fin 900]] ! 0 = Vec [Fin 0]
   \<and> call_st_loop Fin
         (\<lambda>X. EulerFwd Fin (GCM_without_parameterization_rhs Fin
                            \<lparr>self_F = Fin 300, self_time_stepping = EulerFwd Fin\<rparr>)
                 (Fin 3) X ())
         (Fin 3) [0] 0 2 3 [Vec [Fin 0], Vec [Fin 0], Mat [[Fin 0], [NaN]], Vec [Fin 0, Fin 3]]
     = Inr [Vec [Fin 0], Vec [Fin 0], Mat [[Fin 0], [Fin 900]], Vec [Fin 0, Fin 3], Vec [Fin 900]]
   \<and> [Vec [Fin 0], Vec [Fin 0], Mat [[Fin 0], [Fin 900]], Vec [Fin 0, Fin 3], Vec [Fin 900]] ! 0 = Vec [Fin 0]"
proof -
  let ?g = "\<lparr>self_F = Fin 3000, self_time_stepping = RK4 Fin\<rparr>
              :: real list GCM_without_parameterization"
  let ?e = "\<lparr>self_F = Fin 300, self_time_stepping = EulerFwd Fin\<rparr>
              :: unit GCM_without_parameterization"
  let ?w = "\<lparr>self_F = Fin 2, self_time_stepping = EulerFwd Fin,
              self_network = bias_network (Fin 1)\<rparr> :: unit GCM_network"
  let ?stp = "\<lambda>X. EulerFwd Fin (GCM_without_parameterization_rhs Fin ?e) (Fin 3) X ()"
  let ?S = "[Vec [Fin 0], Vec [Fin 0], Vec [Fin 3, Fin 6, Fin 6, Fin 9],
            Mat [[Fin 900], [Fin (- 900)], [NaN], [NaN]], Vec [Fin 0], Vec [Fin 900],
            Vec [Fin (- 900)], Vec [Fin 2700]]"
  let ?Sg = "[Vec [Fin 0], Vec [Fin 0, Fin 1, Fin 2], Mat [[Fin 0], [Fin 1875], [Fin (20625 / 8)]], Vec [Fin 0],
            Vec [Fin 1875], Vec [Fin (20625 / 8)]]"
  let ?Sw = "[Vec [Fin 1], Vec [Fin 0, Fin 1, Fin 2], Mat [[Fin 1], [Fin 3], [Fin 3]], Vec [Fin 1],
            Vec [Fin 3], Vec [Fin 3]]"
  let ?L = "[Vec [Fin 0], Vec [Fin 0], Mat [[Fin 900]], Vec [Fin 3], Vec [Fin 900]]"
  let ?M = "[Vec [Fin 0], Vec [Fin 0], Mat [[Fin 0], [Fin 900]], Vec [Fin 0, Fin 3], Vec [Fin 900]]"
  have x0: "get_vec [Vec [Fin 0], Vec [Fin 0]] 0 = Inr [Fin 0]" by (simp add: get_vec_def)
  have x1: "get_vec [Vec [Fin 0]] 0 = Inr [Fin 0]" by (simp add: get_vec_def)
  have x2: "get_vec [Vec [Fin 1]] 0 = Inr [Fin 1]" by (simp add: get_vec_def)
  note e1 = GCM_st_example
  from C8_X0_unchanged[where s = "[Vec [Fin 0], Vec [Fin 0]]" and s' = ?S and h = 3 and t = 2
      and rnd = Fin and F = "Fin 300" and dt = "Fin 3" and nt = 4 and param = 1, THEN conjunct1, THEN mp, OF e1,
      THEN conjunct2, THEN spec, THEN mp, OF x0]
  have g1: "get_vec ?S 0 = Inr [Fin 0]" by simp
  note e2 = call_st_example
  from C8_X0_unchanged[where s = "[Vec [Fin 0]]" and s' = ?Sg and h = 2 and t = 1
      and rnd = Fin and g = ?g and dt = "Fin 1" and nt = 2 and q = "[0]", THEN conjunct2, THEN conjunct1,
      THEN mp, OF e2, THEN conjunct2, THEN spec, THEN mp, OF x1]
  have g2: "get_vec ?Sg 0 = Inr [Fin 0]" by simp
  note e3 = call_st_network_example
  from C8_X0_unchanged[where s = "[Vec [Fin 1]]" and s' = ?Sw and h = 2 and t = 1
      and rnd = Fin and w = ?w and dt = "Fin 1" and nt = 2 and r = "()", THEN conjunct2, THEN conjunct2,
      THEN conjunct1, THEN mp, OF e3, THEN conjunct2, THEN spec, THEN mp, OF x2]
  have g3: "get_vec ?Sw 0 = Inr [Fin 1]" by simp
  have e4: "GCM_st_loop Fin (Fin 300) (Fin 3) 1 [0] 0 2 3 [Vec [Fin 0], Vec [Fin 0], Mat [[NaN]], Vec [Fin 0]] = Inr ?L"
    by (simp add: alloc_def get_vec_def set_row_st_def set_item_st_def GCM_step_single
        np_set_row_def np_set_item_def fmax_def Let_def)
  from C8_X0_unchanged[where s = "[Vec [Fin 0], Vec [Fin 0], Mat [[NaN]], Vec [Fin 0]]" and s' = ?L
      and h = 2 and t = 3 and rnd = Fin and F = "Fin 300" and dt = "Fin 3" and param = 1 and ns = "[0]" and X = 0,
      THEN conjunct2, THEN conjunct2, THEN conjunct2, THEN conjunct1, THEN mp, OF e4,
      THEN spec, of 0]
  have g4: "?L ! 0 = Vec [Fin 0]" by simp
  have e5: "call_st_loop Fin ?stp (Fin 3) [0] 0 2 3 [Vec [Fin 0], Vec [Fin 0], Mat [[Fin 0], [NaN]], Vec [Fin 0, Fin 3]]
      = Inr ?M"
    by (simp add: alloc_def get_vec_def set_row_st_def set_item_st_def
        EulerFwd_rhs_single np_set_row_def np_set_item_def)
  from C8_X0_unchanged[where s = "[Vec [Fin 0], Vec [Fin 0], Mat [[Fin 0], [NaN]], Vec [Fin 0, Fin 3]]"
      and s' = ?M and h = 2 and t = 3 and rnd = Fin and dt = "Fin 3" and stp = ?stp and ns = "[0]" and X = 0,
      THEN conjunct2, THEN conjunct2, THEN conjunct2, THEN conjunct2, THEN mp, OF e5,
      THEN spec, of 0]
  have g5: "?M ! 0 = Vec [Fin 0]" by simp
  from e1 g1 e2 g2 e3 g3 e4 g4 e5 g5 show ?thesis by (intro conjI)
qed

text \<open>
  C9 (code bug). The claim asks that no stored row of the history of \<open>GCM\<close> has a
  component above \<open>1e3\<close> in absolute value. The guard is \<^verbatim>\<open>np.abs(X).max() > 1e3\<close>: the
  maximum of an array with a NaN component is NaN and the comparison of NaN with \<open>1e3\<close> is
  false, so a state with a NaN component passes the guard and is stored, whatever its
  other components are. From the finite \<open>X0 = [2^1023, 0, 0, -2^1023, 0]\<close> with \<open>F = 0\<close>
  and \<open>dt = 0.5\<close> the first step overflows: \<open>X0[0] - X0[3]\<close> is infinite, its product with
  \<open>X0[1] = 0\<close> is NaN, and the stored row holds \<open>2^1022\<close> and an infinity beside the NaN.
  Every finite number of that run is a power of two that binary64 represents. A NaN that
  comes in with \<open>X0\<close> has the same effect: the state \<open>2000\<close> is stored beside it.
\<close>

theorem C9_stored_row_exceeds_threshold:
  "GCM round_overflow [Fin (2 ^ 1023), Fin 0, Fin 0, Fin (- (2 ^ 1023)), Fin 0]
       (Fin 0) (Fin (1 / 2)) 1 [Fin 0]
     = Inr ([[Fin (2 ^ 1022), Fin 0, NaN, Fin (- (2 ^ 1022)), MInf]], [Fin (1 / 2)])
   \<and> exceeds (Fin (2 ^ 1022)) \<and> exceeds MInf
   \<and> GCM Fin [NaN, Fin 0, Fin 0, Fin 0, Fin 0] (Fin 2000) (Fin 1) 1 [Fin 0]
     = Inr ([[NaN, NaN, NaN, Fin 2000, NaN]], [Fin 1])
   \<and> exceeds (Fin 2000)"
proof -
  let ?X = "[Fin (2 ^ 1023), Fin 0, Fin 0, Fin (- (2 ^ 1023)), Fin 0]"
  have p: "np_polyval round_overflow [Fin 0] ?X = [Fin 0, Fin 0, Fin 0, Fin 0, Fin 0]"
    by (simp add: np_polyval_def round_overflow_def)
  have x: "L96_eq1_xdot round_overflow ?X (Fin 0)
      = [Fin (- (2 ^ 1023)), Fin 0, NaN, Fin (2 ^ 1023), MInf]"
    by (simp add: L96_eq1_xdot_def cyc_def fsub_def round_overflow_def upt_conv_Cons
        del: upt_Suc)
  have t: "GCM_tendency round_overflow (Fin 0) [Fin 0] ?X
      = [Fin (- (2 ^ 1023)), Fin 0, NaN, Fin (2 ^ 1023), MInf]"
    unfolding GCM_tendency_def p x by (simp add: fsub_def round_overflow_def)
  have s: "GCM_step round_overflow (Fin 0) (Fin (1 / 2)) [Fin 0] ?X
      = [Fin (2 ^ 1022), Fin 0, NaN, Fin (- (2 ^ 1022)), MInf]"
    unfolding GCM_step_def t by (simp add: round_overflow_def)
  have g: "GCM round_overflow ?X (Fin 0) (Fin (1 / 2)) 1 [Fin 0]
      = Inr ([[Fin (2 ^ 1022), Fin 0, NaN, Fin (- (2 ^ 1022)), MInf]], [Fin (1 / 2)])"
  proof (rule GCM_one_step_stored[OF s])
    show "np_abs_max [Fin (2 ^ 1022), Fin 0, NaN, Fin (- (2 ^ 1022)), MInf] = Inr NaN"
      by (simp add: fmax_def)
    show "\<not> fgt NaN (Fin 1000)" by simp
    show "length [Fin (2 ^ 1022), Fin 0, NaN, Fin (- (2 ^ 1022)), MInf] = length ?X" by simp
    show "fmul round_overflow (Fin (1 / 2)) (Fin 1) = Fin (1 / 2)"
      by (simp add: round_overflow_def)
  qed
  let ?Y = "[NaN, Fin 0, Fin 0, Fin 0, Fin 0]"
  have x': "L96_eq1_xdot Fin ?Y (Fin 2000) = [NaN, NaN, NaN, Fin 2000, NaN]"
    by (simp add: L96_eq1_xdot_def cyc_def fsub_def upt_conv_Cons del: upt_Suc)
  have s': "GCM_step Fin (Fin 2000) (Fin 1) [Fin 0] ?Y = [NaN, NaN, NaN, Fin 2000, NaN]"
    by (simp add: GCM_step_def GCM_tendency_def x' np_polyval_def fsub_def)
  have g': "GCM Fin ?Y (Fin 2000) (Fin 1) 1 [Fin 0]
      = Inr ([[NaN, NaN, NaN, Fin 2000, NaN]], [Fin 1])"
    by (simp add: GCM_def s' np_nan_matrix_def np_arange_scaled_def np_set_row_def
        np_set_item_def fmax_def Let_def)
  have e: "exceeds (Fin (2 ^ 1022))" "exceeds MInf" "exceeds (Fin 2000)"
    by (simp_all add: exceeds_def)
  from g e g' show ?thesis by (intro conjI)
qed

text \<open>
  C10 (confirmed). The result of \<open>GCM_without_parameterization.__call__\<close> does not depend
  on \<open>param\<close>. The driver hands \<open>param\<close> to the step scheme only, and the scheme hands it
  on to \<open>rhs\<close>, which ignores it: for a scheme that does nothing else with its last
  argument (as \<open>RK4\<close> and \<open>EulerFwd\<close>), two runs that differ in \<open>param\<close> alone return the
  same history and the same time sequence.
\<close>

theorem C10_param_ignored:
  assumes "\<forall>fn X. (\<forall>x. fn x p1 = fn x p2)
             \<longrightarrow> self_time_stepping g fn dt X p1 = self_time_stepping g fn dt X p2"
  shows "GCM_without_parameterization_call rnd g X0 dt nt p1
       = GCM_without_parameterization_call rnd g X0 dt nt p2"
proof -
  have "\<forall>x. GCM_without_parameterization_rhs rnd g x p1
      = GCM_without_parameterization_rhs rnd g x p2"
    by (simp add: GCM_without_parameterization_rhs_def)
  then have "\<And>X. self_time_stepping g (GCM_without_parameterization_rhs rnd g) dt X p1
         = self_time_stepping g (GCM_without_parameterization_rhs rnd g) dt X p2"
    using assms by blast
  then show ?thesis by (simp add: GCM_without_parameterization_call_def)
qed

theorem C10_param_ignored_witness:
  "GCM_without_parameterization_call Fin \<lparr>self_F = Fin 18, self_time_stepping = RK4 Fin\<rparr>
       [Fin 1, Fin 2, Fin 3, Fin 4] (Fin (1 / 100)) 5 [0 :: real]
   = GCM_without_parameterization_call Fin \<lparr>self_F = Fin 18, self_time_stepping = RK4 Fin\<rparr>
       [Fin 1, Fin 2, Fin 3, Fin 4] (Fin (1 / 100)) 5 [7, 5 :: real]"
proof -
  let ?g = "\<lparr>self_F = Fin 18, self_time_stepping = RK4 Fin\<rparr>
              :: real list GCM_without_parameterization"
  have a: "\<forall>fn X. (\<forall>x. fn x [0 :: real] = fn x [7, 5])
             \<longrightarrow> self_time_stepping ?g fn (Fin (1 / 100)) X [0]
               = self_time_stepping ?g fn (Fin (1 / 100)) X [7, 5]"
    by (simp add: RK4_forwards)
  show ?thesis by (rule C10_param_ignored[OF a])
qed

end
